(* ===== verification/Backup_Prelude.thy ===== *)
theory Backup_Prelude
  imports Main "HOL-Library.Char_ord" "HOL-Library.List_Lexorder" "HOL-Library.Sublist"
begin

text \<open>
  The prelude of the development: the result type of the Go functions that are modelled
  (a value, an error or a panic), the theorem collections the components feed, and the
  generic lemmas they share.  The last section holds the generic transition system with
  its reachable states, and the locale of inductive invariants that the two concurrent
  components (the process manager and the interleaved executor) interpret.
\<close>

section \<open>Theorem collections\<close>

named_theorems go_text \<open>the laws of the text functions of the Go standard library\<close>

named_theorems frame \<open>what an operation leaves unchanged in the world\<close>

named_theorems run_simps \<open>evaluation rules for the sequential handlers\<close>

section \<open>Errors, results and panics\<close>

text \<open>
  A Go error is represented by the text its \<open>Error()\<close> method returns; the places where the
  program looks at the dynamic type of an error (the \<open>errors.As\<close> of the S3 client and the
  type assertion of the scheduler) have a datatype of their own.
\<close>

type_synonym gerror = string

datatype 'a res = Ok 'a | Err gerror | Panic string

text \<open>A Go function with a single \<open>error\<close> result returns a \<open>unit res\<close>.\<close>

fun res_of_error :: "gerror option \<Rightarrow> unit res" where
  "res_of_error None = Ok ()"
| "res_of_error (Some e) = Err e"

text \<open>\<open>if err != nil { return wrap(err) }\<close>: the error is rewritten, a panic passes.\<close>

fun map_err :: "(gerror \<Rightarrow> gerror) \<Rightarrow> 'a res \<Rightarrow> 'a res" where
  "map_err f (Ok x) = Ok x"
| "map_err f (Err e) = Err (f e)"
| "map_err f (Panic m) = Panic m"

lemma map_err_Ok_iff [simp]: "map_err f r = Ok x \<longleftrightarrow> r = Ok x"
  by (cases r) auto

lemma map_err_Panic_iff [simp]: "map_err f r = Panic m \<longleftrightarrow> r = Panic m"
  by (cases r) auto

lemma res_of_error_Ok_iff [simp]: "res_of_error e = Ok u \<longleftrightarrow> e = None"
  by (cases e) auto

lemma res_of_error_Err_iff [simp]: "res_of_error e = Err x \<longleftrightarrow> e = Some x"
  by (cases e) auto

lemma res_of_error_not_Panic [simp]: "res_of_error e \<noteq> Panic m" "Panic m \<noteq> res_of_error e"
  by (cases e; simp)+

section \<open>Generic loops: a state threaded through a list, stopping at the first failure\<close>

fun each_until :: "('a \<Rightarrow> 's \<Rightarrow> unit res \<times> 's) \<Rightarrow> 'a list \<Rightarrow> 's \<Rightarrow> unit res \<times> 's" where
  "each_until f [] s = (Ok (), s)"
| "each_until f (x # xs) s =
     (case f x s of
        (Ok _, s') \<Rightarrow> each_until f xs s'
      | (Err e, s') \<Rightarrow> (Err e, s')
      | (Panic m, s') \<Rightarrow> (Panic m, s'))"

lemma each_until_append:
  "each_until f (xs @ ys) s =
     (case each_until f xs s of
        (Ok _, s') \<Rightarrow> each_until f ys s'
      | (Err e, s') \<Rightarrow> (Err e, s')
      | (Panic m, s') \<Rightarrow> (Panic m, s'))"
  by (induction xs arbitrary: s) (auto split: prod.splits res.splits)

text \<open>
  The rule for such a loop: an invariant over the part of the list that is done, kept by
  every successful step, holds of the whole list when the loop returns \<open>Ok\<close>.
\<close>

lemma each_until_Ok_invariant:
  assumes "each_until f xs s = (Ok u, s')"
    and "I [] s"
    and "\<And>ys x s1 s2 v. I ys s1 \<Longrightarrow> x \<in> set xs \<Longrightarrow> f x s1 = (Ok v, s2) \<Longrightarrow> I (ys @ [x]) s2"
  shows "I xs s'"
proof -
  have "I (ys @ xs) s'" if "I ys s" and "each_until f xs s = (Ok u, s')"
    and "\<And>ys x s1 s2 v. I ys s1 \<Longrightarrow> x \<in> set xs \<Longrightarrow> f x s1 = (Ok v, s2) \<Longrightarrow> I (ys @ [x]) s2"
  for ys
    using that
  proof (induction xs arbitrary: ys s)
    case Nil
    then show ?case by simp
  next
    case (Cons x xs)
    from Cons.prems(2) obtain v s1 where x: "f x s = (Ok v, s1)"
      and rest: "each_until f xs s1 = (Ok u, s')"
      by (auto split: prod.splits res.splits)
    have step: "I (zs @ [y]) t2" if "I zs t1" "y \<in> set (x # xs)" "f y t1 = (Ok w, t2)"
      for zs y t1 t2 w
      using Cons.prems(3) that by blast
    have "I (ys @ [x]) s1"
      using step [OF Cons.prems(1) _ x] by simp
    then have "I ((ys @ [x]) @ xs) s'"
      by (rule Cons.IH) (use rest step in auto)
    then show ?case by simp
  qed
  from this [of "[]"] assms show ?thesis by auto
qed

lemma each_until_invariant:
  assumes "I s"
    and "\<And>x t. I t \<Longrightarrow> x \<in> set xs \<Longrightarrow> I (snd (f x t))"
  shows "I (snd (each_until f xs s))"
  using assms
proof (induction xs arbitrary: s)
  case Nil
  then show ?case by simp
next
  case (Cons x xs)
  have "I (snd (f x s))" using Cons.prems by auto
  then have "I (snd (each_until f xs (snd (f x s))))"
    using Cons.prems(2) by (intro Cons.IH) auto
  with \<open>I (snd (f x s))\<close> show ?case
    by (auto split: prod.splits res.splits)
qed

lemma each_until_never:
  assumes "\<And>x t. x \<in> set xs \<Longrightarrow> fst (f x t) \<noteq> r" and "r \<noteq> Ok ()"
  shows "fst (each_until f xs s) \<noteq> r"
  using assms
proof (induction xs arbitrary: s)
  case Nil
  then show ?case by auto
next
  case (Cons x xs)
  have head: "fst (f x s) \<noteq> r" using Cons.prems(1) [of x s] by simp
  have tail: "fst (each_until f xs t) \<noteq> r" for t
    using Cons.IH [OF _ Cons.prems(2)] Cons.prems(1) by simp
  from head tail show ?case
    by (auto split: prod.splits res.splits)
qed

lemma each_until_all_Ok:
  assumes "\<And>x t. x \<in> set xs \<Longrightarrow> fst (f x t) = Ok ()"
  shows "fst (each_until f xs s) = Ok ()"
  using assms
proof (induction xs arbitrary: s)
  case (Cons x xs)
  obtain t where "f x s = (Ok (), t)" using Cons.prems [of x s] by (cases "f x s") auto
  then show ?case using Cons by simp
qed simp

section \<open>Maps and words of a list\<close>

lemma map_of_zip_self_distinct:
  "distinct ks \<Longrightarrow> length ks = length vs \<Longrightarrow> map (map_of (zip ks vs)) ks = map Some vs"
  by (rule nth_equalityI) (auto simp: map_of_zip_nth)

lemma map_of_append_fresh:
  "k \<notin> set (map fst xs) \<Longrightarrow> map_of (xs @ [(k, v)]) = (map_of xs)(k \<mapsto> v)"
  by (induction xs) auto

lemma map_of_rev_distinct: "distinct (map fst xs) \<Longrightarrow> map_of (rev xs) = map_of xs"
  by (metis distinct_rev map_of_inject_set rev_map set_rev)

lemma distinct_map_via:
  assumes "distinct (map g xs)" and "\<And>x y. x \<in> set xs \<Longrightarrow> y \<in> set xs \<Longrightarrow> f x = f y \<Longrightarrow> g x = g y"
  shows "distinct (map f xs)"
proof -
  have "inj_on g (set xs)" "distinct xs" using assms(1) by (simp_all add: distinct_map)
  moreover have "inj_on f (set xs)"
    by (rule inj_onI) (metis assms(2) calculation(1) inj_onD)
  ultimately show ?thesis by (simp add: distinct_map)
qed

lemma set_drop_prefix: "prefix zs (xs @ ys) \<Longrightarrow> set (drop (length xs) zs) \<subseteq> set ys"
proof -
  assume "prefix zs (xs @ ys)"
  then obtain rest where "xs @ ys = zs @ rest" by (auto elim: prefixE)
  then have "ys = drop (length xs) zs @ drop (length xs - length zs) rest"
    by (metis append_eq_conv_conj drop_append)
  then show ?thesis by (metis Un_upper1 set_append)
qed

section \<open>Transition systems and inductive invariants\<close>

text \<open>
  The reachable states of a system given by a predicate on start states and a step
  relation.
\<close>

inductive reach :: "('s \<Rightarrow> bool) \<Rightarrow> ('s \<Rightarrow> 's \<Rightarrow> bool) \<Rightarrow> 's \<Rightarrow> bool"
  for init :: "'s \<Rightarrow> bool" and step :: "'s \<Rightarrow> 's \<Rightarrow> bool"
where
  reach_init: "init s \<Longrightarrow> reach init step s"
| reach_step: "reach init step s \<Longrightarrow> step s t \<Longrightarrow> reach init step t"

abbreviation steps :: "('s \<Rightarrow> 's \<Rightarrow> bool) \<Rightarrow> 's \<Rightarrow> 's \<Rightarrow> bool" where
  "steps step \<equiv> step\<^sup>*\<^sup>*"

lemma reach_steps: "steps step s t \<Longrightarrow> reach init step s \<Longrightarrow> reach init step t"
  by (induction rule: rtranclp_induct) (auto intro: reach_step)

lemma steps_preserve:
  assumes "steps step s t" and "P s" and "\<And>u v. P u \<Longrightarrow> step u v \<Longrightarrow> P v"
  shows "P t"
  using assms by (induction rule: rtranclp_induct) auto

text \<open>
  The contract of an inductive invariant: it holds at the start and every step keeps it.
  What a client gets is that it holds in every reachable state and along every run.
\<close>

locale inductive_invariant =
  fixes init :: "'s \<Rightarrow> bool"
    and step :: "'s \<Rightarrow> 's \<Rightarrow> bool"
    and inv :: "'s \<Rightarrow> bool"
  assumes inv_init: "init s \<Longrightarrow> inv s"
    and inv_step: "inv s \<Longrightarrow> step s t \<Longrightarrow> inv t"
begin

lemma inv_reach: "reach init step s \<Longrightarrow> inv s"
  by (induction rule: reach.induct) (auto intro: inv_init inv_step)

lemma inv_steps: "steps step s t \<Longrightarrow> inv s \<Longrightarrow> inv t"
  by (induction rule: rtranclp_induct) (auto intro: inv_step)

end

text \<open>
  The contract of a refinement between transition systems: an initial state is mapped to
  an initial state, and a step to a step or to no step.  What a client gets is that every
  reachable state and every run is mapped to one of the abstract system.
\<close>

locale stutter_refinement =
  fixes init :: "'s \<Rightarrow> bool"
    and step :: "'s \<Rightarrow> 's \<Rightarrow> bool"
    and abs :: "'s \<Rightarrow> 'a"
    and ainit :: "'a \<Rightarrow> bool"
    and astep :: "'a \<Rightarrow> 'a \<Rightarrow> bool"
  assumes abs_init: "init s \<Longrightarrow> ainit (abs s)"
    and abs_step: "step s t \<Longrightarrow> astep (abs s) (abs t) \<or> abs t = abs s"
begin

lemma abs_steps: "steps step s t \<Longrightarrow> steps astep (abs s) (abs t)"
proof (induction rule: rtranclp_induct)
  case (step u v)
  then show ?case using abs_step [of u v] by (auto intro: rtranclp.rtrancl_into_rtrancl)
qed simp

lemma abs_reach: "reach init step s \<Longrightarrow> reach ainit astep (abs s)"
proof (induction rule: reach.induct)
  case (reach_step u v)
  then show ?case using abs_step [of u v] by (auto intro: reach.reach_step)
qed (simp add: abs_init reach.reach_init)

end

end
