(* ===== verification/Go_Text.thy ===== *)
theory Go_Text
  imports Backup_Prelude
begin

text \<open>
  The functions of the Go packages \<open>strings\<close>, \<open>strconv\<close> and \<open>fmt\<close> that the program
  uses, on strings as lists of bytes: \<open>strings.Join\<close>, \<open>Split\<close>, \<open>Replace\<close> with an empty
  replacement, \<open>Contains\<close>, \<open>TrimSpace\<close>, \<open>Fields\<close>, \<open>strconv.Itoa\<close> and \<open>Atoi\<close>, the verbs \<open>%d\<close>, \<open>%0nd\<close> and
  \<open>%q\<close>.  Text is ASCII: the Unicode white space that \<open>TrimSpace\<close> and \<open>Fields\<close> also drop and the
  printable non-ASCII runes that \<open>%q\<close> leaves as they are have no counterpart here.
  The lemmas give the round trips and orderings the components rely on.
\<close>

section \<open>strings.Join and strings.Split\<close>

fun str_join :: "string \<Rightarrow> string list \<Rightarrow> string" where
  "str_join sep [] = []"
| "str_join sep [x] = x"
| "str_join sep (x # y # ys) = x @ sep @ str_join sep (y # ys)"

fun str_split :: "char \<Rightarrow> string \<Rightarrow> string list" where
  "str_split c [] = [[]]"
| "str_split c (x # xs) =
     (if x = c then [] # str_split c xs
      else (case str_split c xs of [] \<Rightarrow> [[x]] | w # ws \<Rightarrow> (x # w) # ws))"

lemma str_join_Cons: "ys \<noteq> [] \<Longrightarrow> str_join sep (x # ys) = x @ sep @ str_join sep ys"
  by (cases ys) auto

lemma str_join_append:
  "xs \<noteq> [] \<Longrightarrow> ys \<noteq> [] \<Longrightarrow> str_join sep (xs @ ys) = str_join sep xs @ sep @ str_join sep ys"
  by (induction sep xs rule: str_join.induct) (auto simp: str_join_Cons)

lemma str_join_nonempty: "xs \<noteq> [] \<Longrightarrow> hd xs \<noteq> [] \<Longrightarrow> str_join sep xs \<noteq> []"
  by (cases xs; cases "tl xs") auto

lemma str_split_nonempty [simp]: "str_split c s \<noteq> []"
  by (induction c s rule: str_split.induct) (auto split: list.splits)

lemma str_split_no_sep: "c \<notin> set s \<Longrightarrow> str_split c s = [s]"
  by (induction c s rule: str_split.induct) auto

lemma str_split_elem_no_sep: "w \<in> set (str_split c s) \<Longrightarrow> c \<notin> set w"
  by (induction c s arbitrary: w rule: str_split.induct) (auto split: list.splits if_splits)

lemma str_join_split [go_text]: "str_join [c] (str_split c s) = s"
proof (induction c s rule: str_split.induct)
  case (1 c)
  show ?case by simp
next
  case (2 c x xs)
  show ?case
  proof (cases "x = c")
    case True
    with 2 show ?thesis by (simp add: str_join_Cons)
  next
    case False
    obtain w ws where ws: "str_split c xs = w # ws" by (cases "str_split c xs") auto
    with False 2 show ?thesis by (cases ws) auto
  qed
qed

lemma str_split_append_sep:
  "c \<notin> set w \<Longrightarrow> str_split c (w @ c # s) = w # str_split c s"
  by (induction w) auto

lemma str_split_append:
  "str_split c (s @ c # t) = str_split c s @ str_split c t"
  by (induction c s rule: str_split.induct) (auto split: list.splits)

lemma str_split_join [go_text]:
  "xs \<noteq> [] \<Longrightarrow> (\<And>x. x \<in> set xs \<Longrightarrow> c \<notin> set x) \<Longrightarrow> str_split c (str_join [c] xs) = xs"
proof (induction "[c]" xs rule: str_join.induct)
  case (2 x)
  then show ?case by (simp add: str_split_no_sep)
next
  case (3 x y ys)
  then show ?case by (simp add: str_split_append_sep)
qed simp

lemma hd_str_split_no_sep: "c \<notin> set (hd (str_split c s))"
  by (rule str_split_elem_no_sep [OF list.set_sel(1)]) simp

lemma hd_str_split_append:
  "c \<notin> set w \<Longrightarrow> hd (str_split c (w @ c # s)) = w"
  by (simp add: str_split_append_sep)

lemma length_str_split: "length (str_split c s) = Suc (count_list s c)"
  by (induction c s rule: str_split.induct) (auto split: list.splits)

section \<open>strings.Replace(s, old, "", -1)\<close>

text \<open>
  With an empty replacement every non-overlapping occurrence of \<open>old\<close>, found from the
  left, is removed; an empty \<open>old\<close> leaves \<open>s\<close> alone (\<open>old == new\<close>).
\<close>

function str_remove_all :: "string \<Rightarrow> string \<Rightarrow> string" where
  "str_remove_all old s =
     (if old = [] \<or> s = [] then s
      else if take (length old) s = old then str_remove_all old (drop (length old) s)
      else hd s # str_remove_all old (tl s))"
  by pat_completeness auto
termination
  by (relation "measure (\<lambda>(old, s). length s)") auto

declare str_remove_all.simps [simp del]

lemma str_remove_all_Nil [simp]: "str_remove_all old [] = []"
  by (simp add: str_remove_all.simps)

lemma str_remove_all_empty_old [simp]: "str_remove_all [] s = s"
  by (simp add: str_remove_all.simps)

section \<open>strings.Contains\<close>

fun str_contains :: "string \<Rightarrow> string \<Rightarrow> bool" where
  "str_contains s sub = sublist sub s"

lemma str_remove_all_absent [go_text]:
  "\<not> str_contains s old \<Longrightarrow> str_remove_all old s = s"
proof (induction old s rule: str_remove_all.induct)
  case (1 old s)
  show ?case
  proof (cases "old = [] \<or> s = []")
    case True
    then show ?thesis by (simp add: str_remove_all.simps)
  next
    case False
    then obtain x xs where s: "s = x # xs" by (cases s) auto
    have no: "take (length old) s \<noteq> old"
      using "1.prems" by (metis append_take_drop_id str_contains.simps sublist_append_rightI)
    have "\<not> str_contains xs old"
      using "1.prems" s by (auto simp: sublist_Cons_right)
    with "1.IH"(2) [OF False no] s have "str_remove_all old xs = xs" by simp
    with s False no show ?thesis by (simp add: str_remove_all.simps [of old "x # xs"])
  qed
qed

lemma str_remove_all_prefix:
  "old \<noteq> [] \<Longrightarrow> str_remove_all old (old @ s) = str_remove_all old s"
  by (simp add: str_remove_all.simps [of old "old @ s"])

text \<open>The use in the clients: the prefix is dropped when it does not occur again.\<close>

lemma str_remove_all_strip [go_text]:
  "old \<noteq> [] \<Longrightarrow> \<not> str_contains s old \<Longrightarrow> str_remove_all old (old @ s) = s"
  by (simp add: str_remove_all_prefix str_remove_all_absent)

section \<open>strings.TrimSpace\<close>

definition is_space :: "char \<Rightarrow> bool" where
  "is_space c = (of_char c \<in> {9, 10, 11, 12, 13, 32::nat})"

definition str_trim_space :: "string \<Rightarrow> string" where
  "str_trim_space s = rev (dropWhile is_space (rev (dropWhile is_space s)))"

lemma dropWhile_last_unchanged:
  "s \<noteq> [] \<Longrightarrow> \<not> P (last s) \<Longrightarrow> dropWhile P s \<noteq> [] \<and> last (dropWhile P s) = last s"
  by (induction s) auto

lemma str_trim_space_ends:
  assumes "str_trim_space s \<noteq> []"
  shows "\<not> is_space (hd (str_trim_space s))" "\<not> is_space (last (str_trim_space s))"
proof -
  let ?a = "dropWhile is_space s" and ?b = "dropWhile is_space (rev (dropWhile is_space s))"
  from assms have b: "?b \<noteq> []" by (auto simp: str_trim_space_def)
  then show "\<not> is_space (last (str_trim_space s))"
    by (simp add: str_trim_space_def last_rev hd_dropWhile)
  from b have a: "?a \<noteq> []" by (metis dropWhile.simps(1) rev.simps(1))
  then have "\<not> is_space (last (rev ?a))" by (simp add: last_rev hd_dropWhile)
  with a dropWhile_last_unchanged [of "rev ?a" is_space] have "last ?b = hd ?a"
    by (simp add: last_rev)
  with a show "\<not> is_space (hd (str_trim_space s))"
    by (simp add: str_trim_space_def hd_rev hd_dropWhile)
qed

lemma str_trim_space_id [go_text]:
  assumes "s = [] \<or> \<not> is_space (hd s) \<and> \<not> is_space (last s)"
  shows "str_trim_space s = s"
proof (cases "s = []")
  case True
  then show ?thesis by (simp add: str_trim_space_def)
next
  case False
  with assms have h: "\<not> is_space (hd s)" and l: "\<not> is_space (hd (rev s))"
    by (simp_all add: hd_rev)
  have dw: "dropWhile is_space t = t" if "\<not> is_space (hd t)" for t
    using that by (cases t) auto
  show ?thesis by (simp add: str_trim_space_def dw [OF h] dw [OF l])
qed

lemma str_trim_space_idem [go_text]: "str_trim_space (str_trim_space s) = str_trim_space s"
  by (rule str_trim_space_id) (use str_trim_space_ends in blast)

section \<open>strconv.Itoa and the verbs %d and %0nd\<close>

definition digit_char :: "nat \<Rightarrow> char" where
  "digit_char d = char_of (48 + d)"

definition digit_val :: "char \<Rightarrow> nat" where
  "digit_val c = of_char c - 48"

fun nat_dec :: "nat \<Rightarrow> string" where
  "nat_dec n = (if n < 10 then [digit_char n] else nat_dec (n div 10) @ [digit_char (n mod 10)])"

declare nat_dec.simps [simp del]

lemma digit_char_eval:
  "digit_char 0 = CHR ''0''" "digit_char 1 = CHR ''1''" "digit_char 2 = CHR ''2''"
  "digit_char 3 = CHR ''3''" "digit_char 4 = CHR ''4''" "digit_char 5 = CHR ''5''"
  "digit_char 6 = CHR ''6''" "digit_char 7 = CHR ''7''" "digit_char 8 = CHR ''8''"
  "digit_char 9 = CHR ''9''"
  by code_simp+

definition int_dec :: "int \<Rightarrow> string" where
  "int_dec i = (if i < 0 then CHR ''-'' # nat_dec (nat (- i)) else nat_dec (nat i))"

definition pad0 :: "nat \<Rightarrow> string \<Rightarrow> string" where
  "pad0 w s = replicate (w - length s) (CHR ''0'') @ s"

definition dec_val :: "string \<Rightarrow> nat" where
  "dec_val s = foldl (\<lambda>a c. 10 * a + digit_val c) 0 s"

definition is_digits :: "string \<Rightarrow> bool" where
  "is_digits s = (\<forall>c \<in> set s. 48 \<le> (of_char c :: nat) \<and> (of_char c :: nat) < 58)"

lemma of_char_digit_char: "d < 10 \<Longrightarrow> of_char (digit_char d) = 48 + d"
  by (simp add: digit_char_def)

lemma digit_val_digit_char [simp]: "d < 10 \<Longrightarrow> digit_val (digit_char d) = d"
  by (simp add: digit_val_def of_char_digit_char)

lemma is_digits_simps [simp]:
  "is_digits []"
  "is_digits (s @ t) \<longleftrightarrow> is_digits s \<and> is_digits t"
  "d < 10 \<Longrightarrow> is_digits [digit_char d]"
  "is_digits (replicate k (CHR ''0''))"
  by (auto simp: is_digits_def of_char_digit_char)

lemma is_digits_nat_dec [simp]: "is_digits (nat_dec n)"
  by (induction n rule: nat_dec.induct) (subst nat_dec.simps, simp)

lemma nat_dec_nonempty [simp]: "nat_dec n \<noteq> []"
  by (subst nat_dec.simps) simp

lemma is_digits_pad0 [simp]: "is_digits s \<Longrightarrow> is_digits (pad0 w s)"
  by (simp add: pad0_def)

lemma dec_val_snoc: "dec_val (s @ [c]) = 10 * dec_val s + digit_val c"
  by (simp add: dec_val_def)

lemma dec_val_nat_dec [go_text]: "dec_val (nat_dec n) = n"
proof (induction n rule: nat_dec.induct)
  case (1 n)
  show ?case
  proof (cases "n < 10")
    case True
    then show ?thesis by (subst nat_dec.simps) (simp add: dec_val_def)
  next
    case False
    with 1 show ?thesis by (subst nat_dec.simps) (simp add: dec_val_snoc)
  qed
qed

lemma dec_val_leading_zeros: "dec_val (replicate k (CHR ''0'') @ s) = dec_val s"
proof -
  have "foldl (\<lambda>a c. 10 * a + digit_val c) 0 (replicate k (CHR ''0'')) = 0"
    by (induction k) (auto simp: digit_val_def)
  then show ?thesis by (simp add: dec_val_def)
qed

lemma dec_val_pad0 [go_text]: "dec_val (pad0 w s) = dec_val s"
  by (simp add: pad0_def dec_val_leading_zeros)

lemma nat_dec_inj [go_text]: "nat_dec m = nat_dec n \<longleftrightarrow> m = n"
  by (metis dec_val_nat_dec)

lemma pad0_nat_dec_inj [go_text]: "pad0 w (nat_dec m) = pad0 w (nat_dec n) \<longleftrightarrow> m = n"
  by (metis dec_val_nat_dec dec_val_pad0)

lemma length_nat_dec_le: "n < 10 ^ k \<Longrightarrow> 0 < k \<Longrightarrow> length (nat_dec n) \<le> k"
proof (induction n arbitrary: k rule: nat_dec.induct)
  case (1 n)
  show ?case
  proof (cases "n < 10")
    case True
    with "1.prems" show ?thesis by (subst nat_dec.simps) simp
  next
    case False
    then obtain j where k: "k = Suc j" "0 < j"
      using "1.prems" by (cases k; cases "k - 1") auto
    with "1.prems" have "n div 10 < 10 ^ j" by (auto simp: less_mult_imp_div_less mult.commute)
    with "1.IH" [OF False this] k False show ?thesis
      by (subst nat_dec.simps) simp
  qed
qed

lemma length_pad0 [simp]: "length (pad0 w s) = max w (length s)"
  by (simp add: pad0_def)

lemma length_pad0_nat_dec [go_text]: "n < 10 ^ w \<Longrightarrow> 0 < w \<Longrightarrow> length (pad0 w (nat_dec n)) = w"
  using length_nat_dec_le [of n w] by simp

lemma no_char_is_digits:
  "is_digits s \<Longrightarrow> \<not> (48 \<le> (of_char c :: nat) \<and> (of_char c :: nat) < 58) \<Longrightarrow> c \<notin> set s"
  by (auto simp: is_digits_def)

lemma no_slash_digits [simp]: "is_digits s \<Longrightarrow> CHR ''/'' \<notin> set s"
  by (rule no_char_is_digits) auto

lemma no_dot_digits [simp]: "is_digits s \<Longrightarrow> CHR ''.'' \<notin> set s"
  by (rule no_char_is_digits) auto

section \<open>The order of digit strings\<close>

text \<open>On digit strings of one length the lexicographic order is the numeric order.\<close>

lemma foldl_dec_val:
  "foldl (\<lambda>a c. 10 * a + digit_val c) b s = b * 10 ^ length s + dec_val s"
proof (induction s arbitrary: b)
  case Nil
  then show ?case by (simp add: dec_val_def)
next
  case (Cons c s)
  have "dec_val (c # s) = foldl (\<lambda>a c. 10 * a + digit_val c) (digit_val c) s"
    by (simp add: dec_val_def)
  also have "\<dots> = digit_val c * 10 ^ length s + dec_val s" by (rule Cons.IH)
  finally have d: "dec_val (c # s) = digit_val c * 10 ^ length s + dec_val s" .
  show ?case
    using Cons.IH [of "10 * b + digit_val c"] by (simp add: d algebra_simps)
qed

lemma dec_val_Cons: "dec_val (c # s) = digit_val c * 10 ^ length s + dec_val s"
  using foldl_dec_val [of "digit_val c" s] by (simp add: dec_val_def)

lemma dec_val_bound: "is_digits s \<Longrightarrow> dec_val s < 10 ^ length s"
proof (induction s)
  case Nil
  then show ?case by (simp add: dec_val_def)
next
  case (Cons c s)
  then have "dec_val s < 10 ^ length s" "digit_val c \<le> 9"
    by (auto simp: is_digits_def digit_val_def)
  moreover from \<open>digit_val c \<le> 9\<close> have "digit_val c * 10 ^ length s \<le> 9 * 10 ^ length s"
    by (rule mult_le_mono1)
  ultimately have "digit_val c * 10 ^ length s + dec_val s < 10 * 10 ^ length s"
    by linarith
  then show ?case by (simp add: dec_val_Cons)
qed

lemma digit_val_less_iff:
  "is_digits [a] \<Longrightarrow> is_digits [b] \<Longrightarrow> digit_val a < digit_val b \<longleftrightarrow> a < b"
  by (auto simp: is_digits_def digit_val_def less_char_def)

lemma digits_less_iff [go_text]:
  assumes "length s = length t" and "is_digits s" and "is_digits t"
  shows "s < t \<longleftrightarrow> dec_val s < dec_val t"
  using assms
proof (induction s t rule: list_induct2)
  case Nil
  then show ?case by simp
next
  case (Cons a s b t)
  then have d: "is_digits [a]" "is_digits [b]" and st: "is_digits s" "is_digits t"
    by (auto simp: is_digits_def)
  have bs: "dec_val s < 10 ^ length t" "dec_val t < 10 ^ length t"
    using dec_val_bound [OF st(1)] dec_val_bound [OF st(2)] Cons.hyps by auto
  have mono: "x * 10 ^ length t + dec_val s < y * 10 ^ length t + dec_val t" if "x < y" for x y
  proof -
    from that have "Suc x * 10 ^ length t \<le> y * 10 ^ length t" by (intro mult_le_mono1) simp
    with bs show ?thesis by simp
  qed
  have mono': "y * 10 ^ length t + dec_val t < x * 10 ^ length t + dec_val s" if "y < x" for x y
  proof -
    from that have "Suc y * 10 ^ length t \<le> x * 10 ^ length t" by (intro mult_le_mono1) simp
    with bs show ?thesis by simp
  qed
  consider "a < b" | "a = b" | "b < a" by force
  then show ?case
  proof cases
    case 1
    with d have "digit_val a < digit_val b" by (simp add: digit_val_less_iff)
    from mono [OF this] 1 Cons.hyps show ?thesis by (simp add: dec_val_Cons)
  next
    case 2
    with Cons.IH st Cons.hyps show ?thesis by (simp add: dec_val_Cons)
  next
    case 3
    with d have "digit_val b < digit_val a" by (simp add: digit_val_less_iff)
    from mono' [OF this] 3 Cons.hyps show ?thesis
      by (auto simp: dec_val_Cons dest: less_not_sym)
  qed
qed

lemma append_less_iff_equal_length:
  fixes s t u v :: "('a :: linorder) list"
  assumes "length s = length t"
  shows "s @ u < t @ v \<longleftrightarrow> s < t \<or> s = t \<and> u < v"
  using assms by (induction s t rule: list_induct2) auto

section \<open>The verb %q\<close>

definition hex_digit :: "nat \<Rightarrow> char" where
  "hex_digit d = (if d < 10 then char_of (48 + d) else char_of (87 + d))"

definition quote_char :: "char \<Rightarrow> string" where
  "quote_char c =
     (let n = of_char c :: nat in
      if c = CHR 0x22 then [CHR 0x5C, CHR 0x22]
      else if c = CHR 0x5C then [CHR 0x5C, CHR 0x5C]
      else if n = 7 then [CHR 0x5C, CHR ''a'']
      else if n = 8 then [CHR 0x5C, CHR ''b'']
      else if n = 12 then [CHR 0x5C, CHR ''f'']
      else if n = 10 then [CHR 0x5C, CHR ''n'']
      else if n = 13 then [CHR 0x5C, CHR ''r'']
      else if n = 9 then [CHR 0x5C, CHR ''t'']
      else if n = 11 then [CHR 0x5C, CHR ''v'']
      else if 32 \<le> n \<and> n < 127 then [c]
      else [CHR 0x5C, CHR ''x'', hex_digit (n div 16), hex_digit (n mod 16)])"

definition go_quote :: "string \<Rightarrow> string" where
  "go_quote s = [CHR 0x22] @ concat (map quote_char s) @ [CHR 0x22]"

section \<open>strings.Fields\<close>

text \<open>The words between runs of white space.\<close>

function str_fields :: "string \<Rightarrow> string list" where
  "str_fields s =
     (case dropWhile is_space s of
        [] \<Rightarrow> []
      | c # t \<Rightarrow> (c # takeWhile (\<lambda>x. \<not> is_space x) t) # str_fields (dropWhile (\<lambda>x. \<not> is_space x) t))"
  by pat_completeness auto
termination
proof (relation "measure length")
  fix s c t assume "dropWhile is_space s = c # t"
  then have "length (c # t) \<le> length s" by (metis length_dropWhile_le)
  then show "(dropWhile (\<lambda>x. \<not> is_space x) t, s) \<in> measure length"
    using length_dropWhile_le [of "\<lambda>x. \<not> is_space x" t] by simp
qed simp

declare str_fields.simps [simp del]

definition is_word :: "string \<Rightarrow> bool" where
  "is_word w = (w \<noteq> [] \<and> list_all (\<lambda>c. \<not> is_space c) w)"

lemma str_fields_Nil [simp]: "str_fields [] = []"
  by (simp add: str_fields.simps)

lemma str_fields_space [go_text]: "is_space c \<Longrightarrow> str_fields (c # s) = str_fields s"
  by (simp add: str_fields.simps [of "c # s"] str_fields.simps [of s])

lemma str_fields_spaces [go_text]: "list_all is_space cs \<Longrightarrow> str_fields (cs @ s) = str_fields s"
  by (induction cs) (simp_all add: str_fields_space)

lemma str_fields_word [go_text]:
  assumes "is_word w" and "s = [] \<or> is_space (hd s)"
  shows "str_fields (w @ s) = w # str_fields s"
proof -
  obtain c t where w: "w = c # t" and c: "\<not> is_space c" and t: "\<And>x. x \<in> set t \<Longrightarrow> \<not> is_space x"
    using assms(1) by (cases w) (auto simp: is_word_def list_all_iff)
  have "takeWhile (\<lambda>x. \<not> is_space x) s = []" "dropWhile (\<lambda>x. \<not> is_space x) s = s"
    using assms(2) by (cases s; simp)+
  with t have "takeWhile (\<lambda>x. \<not> is_space x) (t @ s) = t" "dropWhile (\<lambda>x. \<not> is_space x) (t @ s) = s"
    by (simp_all add: takeWhile_append2 dropWhile_append2)
  with w c show ?thesis by (simp add: str_fields.simps [of "c # t @ s"])
qed

section \<open>strings.Split with a longer separator\<close>

text \<open>\<open>sep\<close> is not empty; the separator is looked for from the left.\<close>

function str_split_on :: "string \<Rightarrow> string \<Rightarrow> string list" where
  "str_split_on sep s =
     (if sep = [] \<or> s = [] then [s]
      else if take (length sep) s = sep then [] # str_split_on sep (drop (length sep) s)
      else case str_split_on sep (tl s) of
             [] \<Rightarrow> [s]
           | w # ws \<Rightarrow> (hd s # w) # ws)"
  by pat_completeness auto
termination
  by (relation "measure (\<lambda>(sep, s). length s)") auto

declare str_split_on.simps [simp del]

section \<open>strconv.Atoi\<close>

text \<open>An optional sign and decimal digits, within the range of \<open>int\<close> (64 bits).\<close>

definition atoi_error :: "string \<Rightarrow> string \<Rightarrow> gerror" where
  "atoi_error s msg = ''strconv.Atoi: parsing '' @ go_quote s @ '': '' @ msg"

fun atoi_digits :: "string \<Rightarrow> string" where
  "atoi_digits (c # s) = (if c = CHR ''-'' \<or> c = CHR ''+'' then s else c # s)"
| "atoi_digits [] = []"

definition strconv_Atoi :: "string \<Rightarrow> gerror + int" where
  "strconv_Atoi s =
     (let n = int (dec_val (atoi_digits s));
          v = (if s \<noteq> [] \<and> hd s = CHR ''-'' then - n else n)
      in if atoi_digits s = [] \<or> \<not> is_digits (atoi_digits s) then Inl (atoi_error s ''invalid syntax'')
         else if - (2 ^ 63) \<le> v \<and> v < 2 ^ 63 then Inr v
         else Inl (atoi_error s ''value out of range''))"

lemma strconv_Atoi_digits [go_text]:
  "is_digits s \<Longrightarrow> s \<noteq> [] \<Longrightarrow> int (dec_val s) < 2 ^ 63 \<Longrightarrow> strconv_Atoi s = Inr (int (dec_val s))"
proof -
  assume s: "is_digits s" "s \<noteq> []" "int (dec_val s) < 2 ^ 63"
  then obtain c t where c: "s = c # t" by (cases s) auto
  have "c \<noteq> CHR ''-''" "c \<noteq> CHR ''+''"
    using s(1) by (auto simp: c is_digits_def)
  with s c show ?thesis by (simp add: strconv_Atoi_def)
qed

end
