(* ===== verification/Go_Path.thy ===== *)
theory Go_Path
  imports Go_Text "HOL-Library.Word"
begin

text \<open>
  The functions of the Go package \<open>path/filepath\<close> (Unix) that the program uses on paths as
  text: \<open>Clean\<close>, \<open>Join\<close> and \<open>Rel\<close> (\<open>Walk\<close> is in \<open>Go_Files\<close>).  The lemmas give the elements of a
  cleaned path and the path of an entry below a folder.
\<close>

section \<open>Clean and Join\<close>

abbreviation slash :: char where
  "slash \<equiv> CHR ''/''"

definition is_rooted :: "string \<Rightarrow> bool" where
  "is_rooted p = (p \<noteq> [] \<and> hd p = slash)"

text \<open>One path element against the stack of elements kept so far (its top first).\<close>

definition clean_step :: "bool \<Rightarrow> string list \<Rightarrow> string \<Rightarrow> string list" where
  "clean_step rooted st c =
     (if c = [] \<or> c = ''.'' then st
      else if c = ''..'' then
        (case st of
           [] \<Rightarrow> if rooted then [] else [c]
         | t # ts \<Rightarrow> if t = ''..'' then c # st else ts)
      else c # st)"

definition clean_elems :: "bool \<Rightarrow> string list \<Rightarrow> string list" where
  "clean_elems rooted cs = rev (foldl (clean_step rooted) [] cs)"

definition path_elems :: "string \<Rightarrow> string list" where
  "path_elems p = clean_elems (is_rooted p) (str_split slash p)"

definition mk_path :: "bool \<Rightarrow> string list \<Rightarrow> string" where
  "mk_path rooted cs =
     (if rooted then slash # str_join [slash] cs
      else if cs = [] then ''.'' else str_join [slash] cs)"

definition filepath_Clean :: "string \<Rightarrow> string" where
  "filepath_Clean p = mk_path (is_rooted p) (path_elems p)"

definition filepath_Join :: "string list \<Rightarrow> string" where
  "filepath_Join elems =
     (case dropWhile (\<lambda>e. e = []) elems of
        [] \<Rightarrow> []
      | e # es \<Rightarrow> filepath_Clean (str_join [slash] (e # es)))"

text \<open>A name in a directory listing, and a path element list that \<open>Clean\<close> leaves alone.\<close>

definition valid_name :: "string \<Rightarrow> bool" where
  "valid_name n = (n \<noteq> [] \<and> n \<noteq> ''.'' \<and> n \<noteq> ''..'' \<and> slash \<notin> set n)"

fun normal_stack :: "bool \<Rightarrow> string list \<Rightarrow> bool" where
  "normal_stack rooted [] = True"
| "normal_stack rooted (c # st) =
     (c \<noteq> [] \<and> c \<noteq> ''.'' \<and> slash \<notin> set c
      \<and> (c = ''..'' \<longrightarrow> \<not> rooted \<and> (\<forall>d \<in> set st. d = ''..''))
      \<and> normal_stack rooted st)"

definition normal_elems :: "bool \<Rightarrow> string list \<Rightarrow> bool" where
  "normal_elems rooted cs = normal_stack rooted (rev cs)"

lemma clean_elems_append_name:
  "valid_name n \<Longrightarrow> clean_elems r (cs @ [n]) = clean_elems r cs @ [n]"
  by (simp add: clean_elems_def clean_step_def valid_name_def)

lemma clean_elems_last_name: "cs \<noteq> [] \<Longrightarrow> valid_name (last cs) \<Longrightarrow> clean_elems r cs \<noteq> []"
  using clean_elems_append_name [of "last cs" r "butlast cs"] by simp

lemma clean_elems_append_names:
  "(\<And>n. n \<in> set ns \<Longrightarrow> valid_name n) \<Longrightarrow> clean_elems r (cs @ ns) = clean_elems r cs @ ns"
proof (induction ns rule: rev_induct)
  case Nil
  then show ?case by simp
next
  case (snoc n ns)
  then have "clean_elems r ((cs @ ns) @ [n]) = clean_elems r cs @ ns @ [n]"
    by (subst clean_elems_append_name) auto
  then show ?case by simp
qed

lemma clean_elems_skip:
  "c = [] \<or> c = ''.'' \<Longrightarrow> clean_elems r (cs @ c # ds) = clean_elems r (cs @ ds)"
  by (auto simp: clean_elems_def clean_step_def)

lemma clean_elems_Nil [simp]: "clean_elems r [] = []"
  by (simp add: clean_elems_def)

lemma normal_stack_clean_step:
  "normal_stack r st \<Longrightarrow> slash \<notin> set c \<Longrightarrow> normal_stack r (clean_step r st c)"
  by (cases st) (auto simp: clean_step_def)

lemma normal_stack_foldl:
  "\<forall>c \<in> set cs. slash \<notin> set c \<Longrightarrow> normal_stack r st
   \<Longrightarrow> normal_stack r (foldl (clean_step r) st cs)"
  by (induction cs arbitrary: st) (simp_all add: normal_stack_clean_step)

lemma normal_elems_clean:
  "\<forall>c \<in> set cs. slash \<notin> set c \<Longrightarrow> normal_elems r (clean_elems r cs)"
  using normal_stack_foldl [of cs r "[]"] by (simp add: normal_elems_def clean_elems_def)

lemma normal_path_elems: "normal_elems (is_rooted p) (path_elems p)"
  unfolding path_elems_def by (rule normal_elems_clean) (blast dest: str_split_elem_no_sep)

text \<open>\<open>Clean\<close> keeps a normal list of elements.\<close>

lemma clean_step_normal: "normal_stack r (c # st) \<Longrightarrow> clean_step r st c = c # st"
proof (cases "c = ''..''")
  case False
  assume "normal_stack r (c # st)"
  with False show ?thesis by (simp add: clean_step_def)
next
  case True
  assume n: "normal_stack r (c # st)"
  show ?thesis
  proof (cases st)
    case Nil
    with True n show ?thesis by (simp add: clean_step_def)
  next
    case (Cons t ts)
    with True n have "t = ''..''" by simp
    with True Cons show ?thesis by (simp add: clean_step_def)
  qed
qed

lemma clean_elems_normal: "normal_elems r cs \<Longrightarrow> clean_elems r cs = cs"
proof (induction cs rule: rev_induct)
  case Nil
  then show ?case by simp
next
  case (snoc c cs)
  then have "foldl (clean_step r) [] cs = rev cs"
    by (auto simp: normal_elems_def clean_elems_def rev_swap)
  with snoc.prems show ?case
    by (simp add: clean_elems_def normal_elems_def clean_step_normal)
qed

lemma normal_elems_append_name:
  "normal_elems r cs \<Longrightarrow> valid_name n \<Longrightarrow> normal_elems r (cs @ [n])"
  by (simp add: normal_elems_def valid_name_def)

lemma normal_elems_append_names:
  "normal_elems r cs \<Longrightarrow> (\<And>n. n \<in> set ns \<Longrightarrow> valid_name n) \<Longrightarrow> normal_elems r (cs @ ns)"
proof (induction ns rule: rev_induct)
  case (snoc n ns)
  then have "normal_elems r ((cs @ ns) @ [n])"
    by (intro normal_elems_append_name) auto
  then show ?case by simp
qed simp

lemma normal_elems_elem:
  "normal_elems r cs \<Longrightarrow> c \<in> set cs \<Longrightarrow> c \<noteq> [] \<and> c \<noteq> ''.'' \<and> slash \<notin> set c"
proof -
  have "normal_stack r st \<Longrightarrow> c \<in> set st \<Longrightarrow> c \<noteq> [] \<and> c \<noteq> ''.'' \<and> slash \<notin> set c" for st
    by (induction st) auto
  then show "normal_elems r cs \<Longrightarrow> c \<in> set cs \<Longrightarrow> c \<noteq> [] \<and> c \<noteq> ''.'' \<and> slash \<notin> set c"
    by (auto simp: normal_elems_def)
qed

text \<open>The elements of the text of a normal list of elements are that list.\<close>

lemma is_rooted_join_normal: "normal_elems False cs \<Longrightarrow> \<not> is_rooted (mk_path False cs)"
proof (cases cs)
  case Nil
  then show ?thesis by (simp add: mk_path_def is_rooted_def)
next
  case (Cons c ds)
  assume "normal_elems False cs"
  with normal_elems_elem [of False cs c] Cons obtain x xs where "c = x # xs" "x \<noteq> slash"
    by (cases c) auto
  with Cons show ?thesis by (cases ds) (auto simp: mk_path_def is_rooted_def)
qed

lemma is_rooted_mk_path: "normal_elems r cs \<Longrightarrow> is_rooted (mk_path r cs) = r"
  using is_rooted_join_normal by (cases r) (auto simp: mk_path_def is_rooted_def)

lemma str_split_join_normal:
  "normal_elems r cs \<Longrightarrow> cs \<noteq> [] \<Longrightarrow> str_split slash (str_join [slash] cs) = cs"
  by (rule str_split_join) (auto dest: normal_elems_elem)

lemma path_elems_mk_path [go_text]:
  assumes "normal_elems r cs"
  shows "path_elems (mk_path r cs) = cs"
proof (cases "cs = []")
  case True
  then show ?thesis
    by (simp add: path_elems_def mk_path_def clean_elems_def clean_step_def)
next
  case False
  have "clean_elems r (if r then [] # cs else cs) = cs"
    using clean_elems_skip [of "[]" r "[]" cs] clean_elems_normal [OF assms] by auto
  moreover have "str_split slash (mk_path r cs) = (if r then [] # cs else cs)"
    using False str_split_join_normal [OF assms False] by (simp add: mk_path_def)
  ultimately show ?thesis
    by (simp add: path_elems_def is_rooted_mk_path [OF assms])
qed

lemma filepath_Clean_idem [go_text]: "filepath_Clean (filepath_Clean p) = filepath_Clean p"
  by (simp add: filepath_Clean_def is_rooted_mk_path path_elems_mk_path normal_path_elems)

lemma mk_path_inj:
  "normal_elems r cs \<Longrightarrow> normal_elems r ds \<Longrightarrow> mk_path r cs = mk_path r ds \<longleftrightarrow> cs = ds"
  by (metis path_elems_mk_path)

text \<open>Joining names to a path appends them to its elements.\<close>

lemma filepath_Join_names [go_text]:
  assumes "ns \<noteq> []" and "\<And>n. n \<in> set ns \<Longrightarrow> valid_name n"
  shows "filepath_Join [root, str_join [slash] ns] = mk_path (is_rooted root) (path_elems root @ ns)"
proof -
  have ns: "str_split slash (str_join [slash] ns) = ns"
    using assms by (intro str_split_join) (auto simp: valid_name_def)
  have nonempty: "str_join [slash] ns \<noteq> []"
    using assms by (intro str_join_nonempty) (auto simp: valid_name_def)
  show ?thesis
  proof (cases "root = []")
    case True
    have "\<not> is_rooted (str_join [slash] ns)"
    proof
      assume "is_rooted (str_join [slash] ns)"
      then obtain s where "str_join [slash] ns = slash # s"
        by (cases "str_join [slash] ns") (auto simp: is_rooted_def)
      with ns have "[] \<in> set ns" by (cases ns) auto
      with assms(2) show False by (auto simp: valid_name_def)
    qed
    moreover have "clean_elems False ns = ns"
      using clean_elems_append_names [of ns False "[]"] assms(2) by simp
    moreover have "clean_elems False [[]] = []"
      by (simp add: clean_elems_def clean_step_def)
    ultimately show ?thesis
      using True ns nonempty
      by (simp add: filepath_Join_def filepath_Clean_def path_elems_def is_rooted_def)
  next
    case False
    then have "is_rooted (root @ slash # str_join [slash] ns) = is_rooted root"
      by (simp add: is_rooted_def)
    with False ns assms(2) show ?thesis
      by (simp add: filepath_Join_def filepath_Clean_def path_elems_def str_split_append
          clean_elems_append_names)
  qed
qed

lemma filepath_Join_name:
  "valid_name n \<Longrightarrow> filepath_Join [root, n] = mk_path (is_rooted root) (path_elems root @ [n])"
  using filepath_Join_names [of "[n]" root] by simp

text \<open>Without an element \<open>..\<close> cleaning only drops empty elements and \<open>.\<close>.\<close>

lemma clean_elems_no_up:
  "\<forall>c \<in> set cs. c \<noteq> ''..'' \<Longrightarrow> clean_elems r cs = filter (\<lambda>c. c \<noteq> [] \<and> c \<noteq> ''.'') cs"
  by (induction cs rule: rev_induct) (auto simp: clean_elems_def clean_step_def)

text \<open>A separator in front of the second part makes no difference below a non-empty root.\<close>

lemma filepath_Join_slash_names:
  assumes "root \<noteq> []" and "\<And>n. n \<in> set ns \<Longrightarrow> valid_name n" and "ns \<noteq> []"
  shows "filepath_Join [root, slash # str_join [slash] ns]
         = mk_path (is_rooted root) (path_elems root @ ns)"
proof -
  have ns: "str_split slash (str_join [slash] ns) = ns"
    using assms by (intro str_split_join) (auto simp: valid_name_def)
  have "is_rooted (root @ slash # slash # str_join [slash] ns) = is_rooted root"
    using assms(1) by (simp add: is_rooted_def)
  with ns assms show ?thesis
    by (simp add: filepath_Join_def filepath_Clean_def path_elems_def str_split_append
        clean_elems_skip clean_elems_append_names)
qed

section \<open>Rel\<close>

fun drop_common :: "'a list \<Rightarrow> 'a list \<Rightarrow> 'a list \<times> 'a list" where
  "drop_common (x # xs) (y # ys) = (if x = y then drop_common xs ys else (x # xs, y # ys))"
| "drop_common xs ys = (xs, ys)"

definition filepath_Rel :: "string \<Rightarrow> string \<Rightarrow> string res" where
  "filepath_Rel basepath targpath =
     (if filepath_Clean targpath = filepath_Clean basepath then Ok ''.''
      else if is_rooted basepath \<noteq> is_rooted targpath
      then Err (''Rel: can't make '' @ targpath @ '' relative to '' @ basepath)
      else (case drop_common (path_elems basepath) (path_elems targpath) of
              (bs, ts) \<Rightarrow>
                if bs \<noteq> [] \<and> hd bs = ''..''
                then Err (''Rel: can't make '' @ targpath @ '' relative to '' @ basepath)
                else Ok (str_join [slash] (replicate (length bs) ''..'' @ ts))))"

lemma drop_common_prefix [simp]: "drop_common xs (xs @ ys) = ([], ys)"
  by (induction xs) (auto intro: drop_common.elims)

text \<open>The path of an entry below the base is the names on the way to it.\<close>

lemma filepath_Rel_below [go_text]:
  assumes "ns \<noteq> []" and "\<And>n. n \<in> set ns \<Longrightarrow> valid_name n"
  shows "filepath_Rel root (mk_path (is_rooted root) (path_elems root @ ns))
         = Ok (str_join [slash] ns)"
proof -
  let ?t = "mk_path (is_rooted root) (path_elems root @ ns)"
  have n: "normal_elems (is_rooted root) (path_elems root @ ns)"
    by (rule normal_elems_append_names [OF normal_path_elems assms(2)])
  have "filepath_Clean ?t \<noteq> filepath_Clean root"
    using assms(1) mk_path_inj [OF n normal_path_elems]
    by (simp add: filepath_Clean_def is_rooted_mk_path [OF n] path_elems_mk_path [OF n])
  then show ?thesis
    by (simp add: filepath_Rel_def is_rooted_mk_path [OF n] path_elems_mk_path [OF n])
qed

text \<open>What evaluates the path functions at concrete paths.\<close>

lemmas path_eval = is_rooted_def path_elems_def clean_elems_def clean_step_def mk_path_def
  filepath_Clean_def filepath_Join_def

end
