(* ===== verification/Go_Files.thy ===== *)
theory Go_Files
  imports Go_Path
begin

text \<open>
  The local file system as the program sees it through \<open>os\<close>, \<open>io/ioutil\<close> and
  \<open>filepath.Walk\<close>.  A tree is what \<open>Lstat\<close> and the directory listings answer at the time
  of a run (the program never writes below the folder it backs up); \<open>os_file\<close> is what
  \<open>os.Open\<close> and the reads of the open file answer, short reads and read errors
  included.
\<close>

section \<open>Directory trees\<close>

text \<open>
  \<open>FFile n\<close>: \<open>Lstat\<close> says it is not a directory and gives its size;
  \<open>FDir es\<close>: a directory with its entries in the order of \<open>readDirNames\<close>;
  \<open>FDirErr e\<close>: a directory whose listing fails with \<open>e\<close>;
  \<open>FGone e\<close>: \<open>Lstat\<close> fails with \<open>e\<close>.
\<close>

datatype fsnode =
    FFile "64 word"
  | FDir "(string \<times> fsnode) list"
  | FDirErr gerror
  | FGone gerror

text \<open>What an \<open>os.FileInfo\<close> tells the callbacks of the program: \<open>IsDir\<close> and \<open>Size\<close>.\<close>

datatype file_info = DirInfo | FileInfo "64 word"

fun isDir :: "file_info \<Rightarrow> bool" where
  "isDir DirInfo = True"
| "isDir (FileInfo n) = False"

type_synonym 's walk_fn =
  "string \<Rightarrow> file_info option \<Rightarrow> gerror option \<Rightarrow> 's \<Rightarrow> unit res \<times> 's"

section \<open>filepath.Walk\<close>

text \<open>
  \<open>filepath.Walk\<close> in lexical order; a callback's error or panic ends the walk.  The
  sentinels \<open>SkipDir\<close> and \<open>SkipAll\<close> are left out: no callback of the program returns them.
\<close>

fun walk :: "'s walk_fn \<Rightarrow> string \<Rightarrow> fsnode \<Rightarrow> 's \<Rightarrow> unit res \<times> 's"
  and walk_entries :: "'s walk_fn \<Rightarrow> string \<Rightarrow> (string \<times> fsnode) list \<Rightarrow> 's \<Rightarrow> unit res \<times> 's"
where
  "walk fn path (FFile n) s = fn path (Some (FileInfo n)) None s"
| "walk fn path (FGone e) s = fn path None (Some e) s"
| "walk fn path (FDirErr e) s = fn path (Some DirInfo) (Some e) s"
| "walk fn path (FDir es) s =
     (case fn path (Some DirInfo) None s of
        (Ok _, s') \<Rightarrow> walk_entries fn path es s'
      | (Err e, s') \<Rightarrow> (Err e, s')
      | (Panic m, s') \<Rightarrow> (Panic m, s'))"
| "walk_entries fn path [] s = (Ok (), s)"
| "walk_entries fn path ((name, node) # es) s =
     (case walk fn (filepath_Join [path, name]) node s of
        (Ok _, s') \<Rightarrow> walk_entries fn path es s'
      | (Err e, s') \<Rightarrow> (Err e, s')
      | (Panic m, s') \<Rightarrow> (Panic m, s'))"

definition filepath_Walk :: "(string \<Rightarrow> fsnode) \<Rightarrow> 's walk_fn \<Rightarrow> string \<Rightarrow> 's \<Rightarrow> unit res \<times> 's" where
  "filepath_Walk lstat fn root s = walk fn root (lstat root) s"

text \<open>The visits of a walk, in order, when no callback fails.\<close>

type_synonym visit = "string \<times> file_info option \<times> gerror option"

fun visits :: "string \<Rightarrow> fsnode \<Rightarrow> visit list"
  and visits_entries :: "string \<Rightarrow> (string \<times> fsnode) list \<Rightarrow> visit list"
where
  "visits path (FFile n) = [(path, Some (FileInfo n), None)]"
| "visits path (FGone e) = [(path, None, Some e)]"
| "visits path (FDirErr e) = [(path, Some DirInfo, Some e)]"
| "visits path (FDir es) = (path, Some DirInfo, None) # visits_entries path es"
| "visits_entries path [] = []"
| "visits_entries path ((name, node) # es) =
     visits (filepath_Join [path, name]) node @ visits_entries path es"

definition at_visit :: "'s walk_fn \<Rightarrow> visit \<Rightarrow> 's \<Rightarrow> unit res \<times> 's" where
  "at_visit fn v = (case v of (path, info, err) \<Rightarrow> fn path info err)"

lemma walk_visits:
  "walk fn path node s = each_until (at_visit fn) (visits path node) s"
  "walk_entries fn path es s = each_until (at_visit fn) (visits_entries path es) s"
  by (induction fn path node s and fn path es s rule: walk_walk_entries.induct)
    (auto simp: at_visit_def each_until_append split: prod.splits res.splits)

lemma filepath_Walk_visits:
  "filepath_Walk lstat fn root s = each_until (at_visit fn) (visits root (lstat root)) s"
  by (simp add: filepath_Walk_def walk_visits)

section \<open>Trees whose names are names\<close>

text \<open>
  What the kernel guarantees of a listing: no name is empty, \<open>.\<close>, \<open>..\<close> or has a
  separator in it, and no two entries of a directory have the same name.
\<close>

fun wf_tree :: "fsnode \<Rightarrow> bool"
  and wf_entries :: "(string \<times> fsnode) list \<Rightarrow> bool"
where
  "wf_tree (FDir es) = (wf_entries es \<and> distinct (map fst es))"
| "wf_tree n = True"
| "wf_entries [] = True"
| "wf_entries ((name, node) # es) = (valid_name name \<and> wf_tree node \<and> wf_entries es)"

text \<open>The visits as lists of names below the root: the abstract view of a walk.\<close>

fun name_visits :: "fsnode \<Rightarrow> (string list \<times> file_info option \<times> gerror option) list"
  and name_visits_entries :: "(string \<times> fsnode) list \<Rightarrow> (string list \<times> file_info option \<times> gerror option) list"
where
  "name_visits (FFile n) = [([], Some (FileInfo n), None)]"
| "name_visits (FGone e) = [([], None, Some e)]"
| "name_visits (FDirErr e) = [([], Some DirInfo, Some e)]"
| "name_visits (FDir es) = ([], Some DirInfo, None) # name_visits_entries es"
| "name_visits_entries [] = []"
| "name_visits_entries ((name, node) # es) =
     map (\<lambda>(ns, v). (name # ns, v)) (name_visits node) @ name_visits_entries es"

text \<open>The path that a walk below \<open>root\<close> gives to the entry with the names \<open>ns\<close>.\<close>

definition entry_path :: "string \<Rightarrow> string list \<Rightarrow> string" where
  "entry_path root ns =
     (if ns = [] then root else mk_path (is_rooted root) (path_elems root @ ns))"

lemma entry_path_step:
  assumes "valid_name n" and "\<forall>m \<in> set ns. valid_name m"
  shows "entry_path (filepath_Join [root, n]) ns = entry_path root (n # ns)"
proof -
  have "normal_elems (is_rooted root) (path_elems root @ [n])"
    by (rule normal_elems_append_name [OF normal_path_elems assms(1)])
  then show ?thesis
    by (simp add: entry_path_def filepath_Join_name [OF assms(1)] is_rooted_mk_path path_elems_mk_path)
qed

lemma name_visits_valid:
  "wf_tree node \<Longrightarrow> (ns, v) \<in> set (name_visits node) \<Longrightarrow> \<forall>n \<in> set ns. valid_name n"
  "wf_entries es \<Longrightarrow> (ns, v) \<in> set (name_visits_entries es) \<Longrightarrow> ns \<noteq> [] \<and> (\<forall>n \<in> set ns. valid_name n)"
  by (induction node and es arbitrary: ns v and ns v rule: name_visits_name_visits_entries.induct)
    fastforce+

lemma visits_name_visits:
  "wf_tree node \<Longrightarrow>
     visits root node = map (\<lambda>(ns, v). (entry_path root ns, v)) (name_visits node)"
  "wf_entries es \<Longrightarrow>
     visits_entries root es = map (\<lambda>(ns, v). (entry_path root ns, v)) (name_visits_entries es)"
proof (induction root node and root es rule: visits_visits_entries.induct)
  case (6 path name node es)
  then have "visits (filepath_Join [path, name]) node =
      map (\<lambda>(ns, v). (entry_path (filepath_Join [path, name]) ns, v)) (name_visits node)"
    by simp
  also have "\<dots> = map (\<lambda>(ns, v). (entry_path path (name # ns), v)) (name_visits node)"
    using 6 by (intro map_cong) (auto dest!: name_visits_valid(1) simp: entry_path_step)
  finally show ?case using 6 by (simp add: case_prod_beta comp_def)
qed (auto simp: entry_path_def)

lemma entry_path_inj:
  assumes "\<forall>n \<in> set ns. valid_name n" and "\<forall>n \<in> set ms. valid_name n" and "ns \<noteq> []" and "ms \<noteq> []"
  shows "entry_path root ns = entry_path root ms \<longleftrightarrow> ns = ms"
  using assms by (simp add: entry_path_def mk_path_inj normal_elems_append_names normal_path_elems)

lemma distinct_name_visits:
  "wf_tree node \<Longrightarrow> distinct (map fst (name_visits node))"
  "wf_entries es \<Longrightarrow> distinct (map fst es) \<Longrightarrow>
     distinct (map fst (name_visits_entries es))
     \<and> (\<forall>v \<in> set (name_visits_entries es). hd (fst v) \<in> fst ` set es \<and> fst v \<noteq> [])"
proof (induction node and es rule: name_visits_name_visits_entries.induct)
  case (6 name node es)
  then have "distinct (map fst (name_visits node))" by simp
  then have "distinct (map (\<lambda>x. name # fst x) (name_visits node))"
    by (simp add: distinct_map inj_on_def)
  moreover have "(name # a, b) \<notin> set (name_visits_entries es)" for a b
    using 6 by (force dest!: bspec)
  ultimately show ?case using 6 by (auto simp: case_prod_beta comp_def)
qed force+

section \<open>Open files\<close>

text \<open>
  \<open>f_data\<close> is the content; a read returns at most \<open>Suc (f_burst f)\<close> bytes (short reads);
  \<open>f_fault f = Some (k, e)\<close> says that a read at or after offset \<open>k\<close> fails with \<open>e\<close>.
\<close>

record os_file =
  f_data :: string
  f_burst :: nat
  f_fault :: "(nat \<times> gerror) option"

datatype read_result = RData string | REOF | RFail gerror

text \<open>\<open>file.Read(buffer)\<close> with a buffer of \<open>n\<close> bytes at offset \<open>off\<close>.\<close>

definition file_Read :: "os_file \<Rightarrow> nat \<Rightarrow> nat \<Rightarrow> read_result" where
  "file_Read f off n =
     (case f_fault f of
        Some (k, e) \<Rightarrow>
          if k \<le> off then RFail e
          else let c = take (min n (Suc (f_burst f))) (drop off (f_data f)) in
               if c = [] then REOF else RData c
      | None \<Rightarrow>
          let c = take (min n (Suc (f_burst f))) (drop off (f_data f)) in
          if c = [] then REOF else RData c)"

text \<open>\<open>os.ReadFile\<close>: the open file is read to its end.\<close>

definition read_all :: "os_file \<Rightarrow> gerror + string" where
  "read_all f =
     (case f_fault f of
        Some (k, e) \<Rightarrow> if k \<le> length (f_data f) then Inl e else Inr (f_data f)
      | None \<Rightarrow> Inr (f_data f))"

definition os_ReadFile :: "(string \<Rightarrow> gerror + os_file) \<Rightarrow> string \<Rightarrow> gerror + string" where
  "os_ReadFile open_file path =
     (case open_file path of Inl e \<Rightarrow> Inl e | Inr f \<Rightarrow> read_all f)"

lemma os_ReadFile_Inr:
  "os_ReadFile op path = Inr s \<Longrightarrow> \<exists>f. op path = Inr f \<and> f_data f = s"
  by (auto simp: os_ReadFile_def read_all_def split: sum.splits option.splits if_splits)

lemma file_Read_RData:
  assumes "file_Read f off n = RData c"
  shows "c \<noteq> []" "length c \<le> n" "\<exists>rest. drop off (f_data f) = c @ rest"
    "off < length (f_data f)" "c = take (length c) (drop off (f_data f))"
proof -
  from assms have c: "c = take (min n (Suc (f_burst f))) (drop off (f_data f))" "c \<noteq> []"
    by (auto simp: file_Read_def Let_def split: option.splits if_splits prod.splits)
  then show "c \<noteq> []" "length c \<le> n" "off < length (f_data f)" by auto
  from c(1) show "\<exists>rest. drop off (f_data f) = c @ rest" by (metis append_take_drop_id)
  then show "c = take (length c) (drop off (f_data f))" by auto
qed

lemma file_Read_advances:
  assumes "file_Read f off n = RData c"
  shows "length (f_data f) - (off + length c) < length (f_data f) - off"
  using file_Read_RData(1,4) [OF assms] by (cases c) auto

lemma file_Read_REOF:
  "file_Read f off n = REOF \<Longrightarrow> 0 < n \<Longrightarrow> length (f_data f) \<le> off"
  by (auto simp: file_Read_def Let_def split: option.splits if_splits prod.splits)

lemma file_Read_RFail:
  "file_Read f off n = RFail e \<longleftrightarrow> (\<exists>k. f_fault f = Some (k, e) \<and> k \<le> off)"
  by (auto simp: file_Read_def Let_def split: option.splits if_splits)

end
