(* ===== verification/Backup_World.thy ===== *)
theory Backup_World
  imports Go_Files
begin

text \<open>
  What surrounds the components: dates and the clock, commands (\<open>exec.Cmd\<close>), loggers and
  the log, temporary files, and the state that every operation threads.  The type
  parameter \<open>'x\<close> is the state of everything outside the program (remote storage, child
  processes); only the functions of the environment change it.  The environment is an
  argument of the operations: the answers of the kernel, of the clock and of child
  processes.
\<close>

section \<open>Dates and clock readings\<close>

datatype date = Date (year: int) (month: nat) (day: nat)

instantiation date :: linorder
begin

definition less_eq_date :: "date \<Rightarrow> date \<Rightarrow> bool" where
  "less_eq_date a b \<longleftrightarrow>
     year a < year b \<or> year a = year b \<and>
       (month a < month b \<or> month a = month b \<and> day a \<le> day b)"

definition less_date :: "date \<Rightarrow> date \<Rightarrow> bool" where
  "less_date a b \<longleftrightarrow>
     year a < year b \<or> year a = year b \<and>
       (month a < month b \<or> month a = month b \<and> day a < day b)"

instance
  by standard (auto simp: less_eq_date_def less_date_def intro: date.expand)

end

definition valid_date :: "date \<Rightarrow> bool" where
  "valid_date d = (1 \<le> month d \<and> month d \<le> 12 \<and> 1 \<le> day d \<and> day d \<le> 31)"

text \<open>A \<open>time.Time\<close>: its calendar date and its monotonic reading in nanoseconds.\<close>

record go_time =
  t_date :: date
  t_mono :: int

section \<open>Commands, loggers, temporary files\<close>

record cmd =
  cmd_path :: string
  cmd_args :: "string list"
  cmd_env :: "string list"
  cmd_dir :: string

definition exec_Command :: "string \<Rightarrow> string list \<Rightarrow> cmd" where
  "exec_Command name args = \<lparr>cmd_path = name, cmd_args = args, cmd_env = [], cmd_dir = []\<rparr>"

datatype log_value = LText string | LNum int | LDuration int

record logger =
  lg_task :: string
  lg_data :: "(string \<times> log_value) list"

datatype log_line =
    Info logger string "(string \<times> log_value) list"
  | Error logger string gerror

text \<open>\<open>logger.WithData\<close> and \<open>logger.Session\<close> of lager: more data, a nested task name.\<close>

definition withData :: "(string \<times> log_value) list \<Rightarrow> logger \<Rightarrow> logger" where
  "withData d lg = lg\<lparr>lg_data := lg_data lg @ d\<rparr>"

definition session :: "string \<Rightarrow> (string \<times> log_value) list \<Rightarrow> logger \<Rightarrow> logger" where
  "session task d lg = \<lparr>lg_task = lg_task lg @ ''.'' @ task, lg_data = lg_data lg @ d\<rparr>"

record tmp_file =
  tf_data :: string
  tf_mode :: nat

section \<open>The world and the environment\<close>

record 'x world =
  w_ext :: 'x                                  \<comment> \<open>remote services and child processes\<close>
  w_tmp :: "string \<rightharpoonup> tmp_file"                \<comment> \<open>the temporary files the program made\<close>
  w_now :: nat                                 \<comment> \<open>how often the clock was read\<close>
  w_cmds :: "cmd list"                         \<comment> \<open>the commands launched so far, in order\<close>
  w_log :: "log_line list"

text \<open>\<open>ProcessManager.Start\<close>: the combined output and the error.\<close>

type_synonym 'x process_manager = "cmd \<Rightarrow> 'x \<Rightarrow> (string \<times> gerror option) \<times> 'x"

record 'x env =
  e_stat :: "string \<Rightarrow> gerror option"                        \<comment> \<open>\<open>os.Stat\<close>\<close>
  e_lstat :: "string \<Rightarrow> fsnode"                              \<comment> \<open>\<open>os.Lstat\<close> and what is below\<close>
  e_open :: "string \<Rightarrow> gerror + os_file"                     \<comment> \<open>\<open>os.Open\<close>\<close>
  e_readdir :: "string \<Rightarrow> gerror + string list"              \<comment> \<open>\<open>ioutil.ReadDir\<close>, the names\<close>
  e_getenv :: "string \<Rightarrow> string"                             \<comment> \<open>\<open>os.Getenv\<close>\<close>
  e_clock :: "nat \<Rightarrow> go_time"                                \<comment> \<open>the n-th \<open>time.Now\<close>\<close>
  e_tempname :: "string \<Rightarrow> (string \<rightharpoonup> tmp_file) \<Rightarrow> gerror + string"
                                                             \<comment> \<open>the name \<open>ioutil.TempFile\<close> picks\<close>
  e_written :: "string \<Rightarrow> string \<Rightarrow> string"                   \<comment> \<open>what a write to a file leaves in it\<close>
  e_combined :: "cmd \<Rightarrow> 'x \<Rightarrow> (string \<times> gerror option) \<times> 'x"
                                                             \<comment> \<open>\<open>cmd.CombinedOutput\<close>\<close>

definition time_Now :: "'x env \<Rightarrow> 'x world \<Rightarrow> go_time \<times> 'x world" where
  "time_Now E w = (e_clock E (w_now w), w\<lparr>w_now := Suc (w_now w)\<rparr>)"

definition log_info ::
  "logger \<Rightarrow> string \<Rightarrow> (string \<times> log_value) list \<Rightarrow> 'x world \<Rightarrow> 'x world" where
  "log_info lg msg d w = w\<lparr>w_log := w_log w @ [Info lg msg d]\<rparr>"

definition log_error :: "logger \<Rightarrow> string \<Rightarrow> gerror \<Rightarrow> 'x world \<Rightarrow> 'x world" where
  "log_error lg msg e w = w\<lparr>w_log := w_log w @ [Error lg msg e]\<rparr>"

text \<open>Running a command to its end, directly or through a process manager.\<close>

definition combinedOutput :: "'x env \<Rightarrow> cmd \<Rightarrow> 'x world \<Rightarrow> (string \<times> gerror option) \<times> 'x world" where
  "combinedOutput E c w =
     (case e_combined E c (w_ext w) of
        (r, x) \<Rightarrow> (r, w\<lparr>w_ext := x, w_cmds := w_cmds w @ [c]\<rparr>))"

definition start_with :: "'x process_manager \<Rightarrow> cmd \<Rightarrow> 'x world \<Rightarrow> (string \<times> gerror option) \<times> 'x world" where
  "start_with pm c w =
     (case pm c (w_ext w) of
        (r, x) \<Rightarrow> (r, w\<lparr>w_ext := x, w_cmds := w_cmds w @ [c]\<rparr>))"

text \<open>An operation on the outside state only, lifted to the world.\<close>

definition on_ext :: "('x \<Rightarrow> 'a \<times> 'x) \<Rightarrow> 'x world \<Rightarrow> 'a \<times> 'x world" where
  "on_ext f w = (case f (w_ext w) of (r, x) \<Rightarrow> (r, w\<lparr>w_ext := x\<rparr>))"

lemmas world_ops = time_Now_def log_info_def log_error_def combinedOutput_def start_with_def
  on_ext_def

lemma log_info_frame [simp, frame]:
  "w_ext (log_info lg m d w) = w_ext w" "w_tmp (log_info lg m d w) = w_tmp w"
  "w_now (log_info lg m d w) = w_now w" "w_cmds (log_info lg m d w) = w_cmds w"
  "w_log (log_info lg m d w) = w_log w @ [Info lg m d]"
  by (simp_all add: log_info_def)

lemma log_error_frame [simp, frame]:
  "w_ext (log_error lg m e w) = w_ext w" "w_tmp (log_error lg m e w) = w_tmp w"
  "w_now (log_error lg m e w) = w_now w" "w_cmds (log_error lg m e w) = w_cmds w"
  "w_log (log_error lg m e w) = w_log w @ [Error lg m e]"
  by (simp_all add: log_error_def)

lemma time_Now_frame [simp, frame]:
  "fst (time_Now E w) = e_clock E (w_now w)"
  "w_ext (snd (time_Now E w)) = w_ext w" "w_tmp (snd (time_Now E w)) = w_tmp w"
  "w_now (snd (time_Now E w)) = Suc (w_now w)" "w_cmds (snd (time_Now E w)) = w_cmds w"
  "w_log (snd (time_Now E w)) = w_log w"
  by (simp_all add: time_Now_def)

lemma combinedOutput_frame [simp, frame]:
  "fst (combinedOutput E c w) = fst (e_combined E c (w_ext w))"
  "w_ext (snd (combinedOutput E c w)) = snd (e_combined E c (w_ext w))"
  "w_tmp (snd (combinedOutput E c w)) = w_tmp w" "w_now (snd (combinedOutput E c w)) = w_now w"
  "w_cmds (snd (combinedOutput E c w)) = w_cmds w @ [c]"
  "w_log (snd (combinedOutput E c w)) = w_log w"
  by (simp_all add: combinedOutput_def split: prod.splits)

lemma start_with_frame [simp, frame]:
  "fst (start_with pm c w) = fst (pm c (w_ext w))"
  "w_ext (snd (start_with pm c w)) = snd (pm c (w_ext w))"
  "w_tmp (snd (start_with pm c w)) = w_tmp w" "w_now (snd (start_with pm c w)) = w_now w"
  "w_cmds (snd (start_with pm c w)) = w_cmds w @ [c]"
  "w_log (snd (start_with pm c w)) = w_log w"
  by (simp_all add: start_with_def split: prod.splits)

lemma on_ext_frame [simp, frame]:
  "fst (on_ext f w) = fst (f (w_ext w))"
  "w_ext (snd (on_ext f w)) = snd (f (w_ext w))" "w_tmp (snd (on_ext f w)) = w_tmp w"
  "w_now (snd (on_ext f w)) = w_now w" "w_cmds (snd (on_ext f w)) = w_cmds w"
  "w_log (snd (on_ext f w)) = w_log w"
  by (simp_all add: on_ext_def split: prod.splits)

lemma on_ext_result:
  assumes "on_ext f w = (r, w')"
  shows "r = fst (f (w_ext w))" "w_ext w' = snd (f (w_ext w))"
  using on_ext_frame(1,2) [of f w] by (simp_all add: assms)

section \<open>Growth of the histories\<close>

text \<open>
  What every operation of the program guarantees of the world: the log and the list of
  launched commands are only extended and the clock is read forward.
\<close>

definition world_grows :: "'x world \<Rightarrow> 'x world \<Rightarrow> bool" where
  "world_grows w w' = (prefix (w_log w) (w_log w') \<and> prefix (w_cmds w) (w_cmds w') \<and> w_now w \<le> w_now w')"

lemma world_grows_refl [simp, intro]: "world_grows w w"
  by (simp add: world_grows_def)

lemma world_grows_trans [trans]: "world_grows u v \<Longrightarrow> world_grows v w \<Longrightarrow> world_grows u w"
  by (auto simp: world_grows_def)

lemma world_grows_log:
  "world_grows u w \<Longrightarrow> world_grows u (log_info lg m d w)"
  "world_grows u w \<Longrightarrow> world_grows u (log_error lg m e w)"
  by (auto simp: world_grows_def intro: prefix_order.trans)

lemma world_grows_tick: "world_grows u w \<Longrightarrow> world_grows u (w\<lparr>w_now := Suc (w_now w)\<rparr>)"
  by (auto simp: world_grows_def)

lemma world_grows_snd:
  "world_grows u w \<Longrightarrow> world_grows u (snd (time_Now E w))"
  "world_grows u w \<Longrightarrow> world_grows u (snd (combinedOutput E c w))"
  "world_grows u w \<Longrightarrow> world_grows u (snd (start_with pm c w))"
  "world_grows u w \<Longrightarrow> world_grows u (snd (on_ext f w))"
  by (auto simp: world_grows_def intro: prefix_order.trans)

lemma world_grows_result:
  "time_Now E w = (t, w') \<Longrightarrow> world_grows u w \<Longrightarrow> world_grows u w'"
  "combinedOutput E c w = (o1, w') \<Longrightarrow> world_grows u w \<Longrightarrow> world_grows u w'"
  "start_with pm c w = (o2, w') \<Longrightarrow> world_grows u w \<Longrightarrow> world_grows u w'"
  "on_ext f w = (r, w') \<Longrightarrow> world_grows u w \<Longrightarrow> world_grows u w'"
  by (metis snd_conv world_grows_snd)+

lemma world_grows_via:
  assumes "\<And>v. world_grows v (snd (f v))" and "f v = (r, w)" and "world_grows u v"
  shows "world_grows u w"
  using assms(1) [of v] assms(2,3) by (auto intro: world_grows_trans)

lemma world_grows_then:
  assumes "\<And>v. world_grows v (snd (f v))" and "world_grows u v"
  shows "world_grows u (snd (f v))"
  using assms world_grows_trans by blast

lemmas grows_intros = world_grows_refl world_grows_log world_grows_tick world_grows_snd

lemma each_until_grows:
  assumes "\<And>x t. x \<in> set xs \<Longrightarrow> world_grows t (snd (f x t))"
  shows "world_grows w (snd (each_until f xs w))"
  by (rule each_until_invariant) (use assms world_grows_trans in blast)+

lemma walk_grows:
  assumes "\<And>p d e t. world_grows t (snd (fn p d e t))"
  shows "world_grows w (snd (filepath_Walk lstat fn root w))"
  unfolding filepath_Walk_visits
  by (rule each_until_grows) (auto simp: at_visit_def assms split: prod.splits)

section \<open>The interface of an uploader\<close>

text \<open>
  The Go interface \<open>upload.Uploader\<close> (\<open>src/upload/initialize.go\<close>) as a record of its two
  methods; a value of it is a client with its receiver applied.
\<close>

type_synonym 'x upload_fn =
  "string \<Rightarrow> logger \<Rightarrow> 'x process_manager \<Rightarrow> 'x world \<Rightarrow> unit res \<times> 'x world"

record 'x uploader =
  upl_Upload :: "'x upload_fn"
  upl_Name :: string

text \<open>What the callers of an uploader rely on: it only extends the histories of the world.\<close>

locale uploader_contract =
  fixes upload :: "'x upload_fn"
  assumes upload_grows: "world_grows w (snd (upload localPath lg pm w))"
begin

lemma upload_log_prefix: "prefix (w_log w) (w_log (snd (upload localPath lg pm w)))"
  using upload_grows by (auto simp: world_grows_def)

lemma upload_cmds_prefix: "prefix (w_cmds w) (w_cmds (snd (upload localPath lg pm w)))"
  using upload_grows by (auto simp: world_grows_def)

lemma upload_after:
  "world_grows u w \<Longrightarrow> world_grows u (snd (upload localPath lg pm w))"
  using upload_grows world_grows_trans by blast

end

section \<open>A concrete environment\<close>

text \<open>
  The environment at which the properties are instantiated: one folder tree, files whose
  content is their own path, a clock that stands on one day and advances by a second per
  reading, a temporary directory that never fails, and commands that succeed.
\<close>

definition path_file :: "string \<Rightarrow> gerror + os_file" where
  "path_file p = Inr \<lparr>f_data = p, f_burst = 3, f_fault = None\<rparr>"

definition still_env :: "fsnode \<Rightarrow> 'x env" where
  "still_env node =
     \<lparr>e_stat = (\<lambda>p. None), e_lstat = (\<lambda>p. node), e_open = path_file,
      e_readdir = (\<lambda>p. Inr (case node of FDir es \<Rightarrow> map fst es | _ \<Rightarrow> [])),
      e_getenv = (\<lambda>v. []), e_clock = (\<lambda>n. \<lparr>t_date = Date 2024 9 30, t_mono = int n * 1000000000\<rparr>),
      e_tempname = (\<lambda>pat tmp. if tmp (''/tmp/'' @ pat) = None then Inr (''/tmp/'' @ pat) else Inl ''exists''), e_written = (\<lambda>p d. d),
      e_combined = (\<lambda>c x. (([], None), x))\<rparr>"

definition start_world :: "'x \<Rightarrow> 'x world" where
  "start_world x = \<lparr>w_ext = x, w_tmp = Map.empty, w_now = 0, w_cmds = [], w_log = []\<rparr>"

definition root_logger :: logger where
  "root_logger = \<lparr>lg_task = ''ServiceBackup'', lg_data = []\<rparr>"

lemma still_env_simps [simp]:
  "e_stat (still_env node) p = None" "e_lstat (still_env node) p = node"
  "e_open (still_env node) = path_file"
  "e_clock (still_env node) n = \<lparr>t_date = Date 2024 9 30, t_mono = int n * 1000000000\<rparr>"
  by (simp_all add: still_env_def)

lemma start_world_simps [simp]:
  "w_ext (start_world x) = x" "w_tmp (start_world x) = Map.empty" "w_now (start_world x) = 0"
  "w_cmds (start_world x) = []" "w_log (start_world x) = []"
  by (simp_all add: start_world_def)

end
