(* ===== verification/Process_Manager.thy ===== *)
theory Process_Manager
  imports Backup_World
begin

text \<open>
  The process manager (\<open>src/process/manager.go\<close>) as a transition system: any number of
  goroutines call \<open>Start\<close> and \<open>Terminate\<close> on one \<open>Manager\<close>, and every operation on the
  mutex, the channel \<open>killAll\<close>, the wait group, the exit channel of a call and the child
  process is a step of its own, so that every interleaving occurs.  A step of the
  environment lets a running child exit.  The invariant ties the mutex to the program
  counters and the wait group to the calls that still have to report; from it follow
  that no child survives \<open>Terminate\<close>, that none is started once the shutdown began,
  and what happens to the mutex in the shutdown branch of \<open>Start\<close>.
\<close>

section \<open>The state of the manager and of its callers\<close>

text \<open>What a call of \<open>Start\<close> returns.\<close>

datatype start_result =
    ShutdownInProgress                   \<comment> \<open>\<open>errors.New("Shutdown in progress")\<close>\<close>
  | StartFailed gerror                   \<comment> \<open>the error of \<open>cmd.Start\<close>\<close>
  | SigtermPropagated string             \<comment> \<open>the output, \<open>"SIGTERM propagated to child process"\<close>\<close>
  | Exited string "gerror option"        \<comment> \<open>the output and what \<open>cmd.Wait\<close> returned\<close>

text \<open>The program counter of a call of \<open>Start\<close>, named by what comes next.\<close>

datatype start_pc =
    SLock            \<comment> \<open>\<open>m.lock.Lock()\<close>\<close>
  | SCheck           \<comment> \<open>\<open>if m.isBeingShutdown()\<close>\<close>
  | SSpawn           \<comment> \<open>\<open>cmd.Start()\<close>\<close>
  | SAdd             \<comment> \<open>\<open>m.wg.Add(1)\<close>\<close>
  | SUnlock          \<comment> \<open>\<open>m.lock.Unlock()\<close>\<close>
  | SGo              \<comment> \<open>\<open>go func() {...}\<close>\<close>
  | SSelect          \<comment> \<open>the \<open>select\<close>\<close>
  | SSignal          \<comment> \<open>\<open>cmd.Process.Signal(syscall.SIGTERM)\<close>\<close>
  | SAwait           \<comment> \<open>\<open><-processExitChan\<close>\<close>
  | SReturned start_result

datatype child = NotStarted | Running bool | Dead "gerror option"

text \<open>The goroutine of lines 58--61: not launched, in \<open>cmd.Wait\<close>, in \<open>wg.Done\<close>, ended.\<close>

datatype waiter = WNone | WWait | WFinish | WDone

record start_call =
  sc_pc :: start_pc
  sc_child :: child
  sc_out :: string
  sc_waiter :: waiter
  sc_chan :: "gerror option option"      \<comment> \<open>\<open>processExitChan\<close>, of capacity 1\<close>

datatype term_pc = TLock | TClose | TWait | TUnlock | TReturned | TPanicked

text \<open>The mutex; Go keeps no owner, it is recorded here to state the invariant.\<close>

datatype owner = ByStart nat | ByTerm nat

record manager =
  wg :: nat
  killAll :: bool                        \<comment> \<open>the channel is closed\<close>
  lock :: "owner option"
  starts :: "nat \<Rightarrow> start_call"
  terms :: "nat \<Rightarrow> term_pc"

definition fresh_call :: start_call where
  "fresh_call = \<lparr>sc_pc = SLock, sc_child = NotStarted, sc_out = [], sc_waiter = WNone,
     sc_chan = None\<rparr>"

definition newManager :: manager where
  "newManager = \<lparr>wg = 0, killAll = False, lock = None, starts = (\<lambda>_. fresh_call),
     terms = (\<lambda>_. TLock)\<rparr>"

definition isBeingShutdown :: "manager \<Rightarrow> bool" where
  "isBeingShutdown m = killAll m"

definition set_call :: "nat \<Rightarrow> start_call \<Rightarrow> manager \<Rightarrow> manager" where
  "set_call i c m = m\<lparr>starts := (starts m)(i := c)\<rparr>"

definition set_term :: "nat \<Rightarrow> term_pc \<Rightarrow> manager \<Rightarrow> manager" where
  "set_term j p m = m\<lparr>terms := (terms m)(j := p)\<rparr>"

section \<open>The steps\<close>

text \<open>
  The steps of the call \<open>i\<close> of \<open>Start\<close>, of its goroutine and of its child process.  The step
  \<open>s_child_exit\<close> is the point from which \<open>cmd.Wait\<close> can return: the process has exited and,
  since \<open>cmd.Wait\<close> also waits for the copying of the output, no process it left behind holds
  the output pipes.
\<close>

inductive start_step :: "nat \<Rightarrow> manager \<Rightarrow> manager \<Rightarrow> bool" for i :: nat where
  s_lock: "starts m i = c \<Longrightarrow> sc_pc c = SLock \<Longrightarrow> lock m = None \<Longrightarrow>
     start_step i m (set_call i (c\<lparr>sc_pc := SCheck\<rparr>) (m\<lparr>lock := Some (ByStart i)\<rparr>))"
| s_shutdown: "starts m i = c \<Longrightarrow> sc_pc c = SCheck \<Longrightarrow> isBeingShutdown m \<Longrightarrow>
     start_step i m (set_call i (c\<lparr>sc_pc := SReturned ShutdownInProgress\<rparr>) m)"
| s_proceed: "starts m i = c \<Longrightarrow> sc_pc c = SCheck \<Longrightarrow> \<not> isBeingShutdown m \<Longrightarrow>
     start_step i m (set_call i (c\<lparr>sc_pc := SSpawn\<rparr>) m)"
| s_failed: "starts m i = c \<Longrightarrow> sc_pc c = SSpawn \<Longrightarrow>
     start_step i m (set_call i (c\<lparr>sc_pc := SReturned (StartFailed e)\<rparr>) (m\<lparr>lock := None\<rparr>))"
| s_spawn: "starts m i = c \<Longrightarrow> sc_pc c = SSpawn \<Longrightarrow>
     start_step i m (set_call i (c\<lparr>sc_pc := SAdd, sc_child := Running False\<rparr>) m)"
| s_add: "starts m i = c \<Longrightarrow> sc_pc c = SAdd \<Longrightarrow>
     start_step i m (set_call i (c\<lparr>sc_pc := SUnlock\<rparr>) (m\<lparr>wg := Suc (wg m)\<rparr>))"
| s_unlock: "starts m i = c \<Longrightarrow> sc_pc c = SUnlock \<Longrightarrow>
     start_step i m (set_call i (c\<lparr>sc_pc := SGo\<rparr>) (m\<lparr>lock := None\<rparr>))"
| s_go: "starts m i = c \<Longrightarrow> sc_pc c = SGo \<Longrightarrow>
     start_step i m (set_call i (c\<lparr>sc_pc := SSelect, sc_waiter := WWait\<rparr>) m)"
| s_killed: "starts m i = c \<Longrightarrow> sc_pc c = SSelect \<Longrightarrow> killAll m \<Longrightarrow>
     start_step i m (set_call i (c\<lparr>sc_pc := SSignal\<rparr>) m)"
| s_exited: "starts m i = c \<Longrightarrow> sc_pc c = SSelect \<Longrightarrow> sc_chan c = Some r \<Longrightarrow>
     start_step i m (set_call i (c\<lparr>sc_pc := SReturned (Exited (sc_out c) r), sc_chan := None\<rparr>) m)"
| s_signal: "starts m i = c \<Longrightarrow> sc_pc c = SSignal \<Longrightarrow>
     start_step i m (set_call i (c\<lparr>sc_pc := SAwait,
       sc_child := (case sc_child c of Running b \<Rightarrow> Running True | d \<Rightarrow> d)\<rparr>) m)"
| s_awaited: "starts m i = c \<Longrightarrow> sc_pc c = SAwait \<Longrightarrow> sc_chan c = Some r \<Longrightarrow>
     start_step i m (set_call i (c\<lparr>sc_pc := SReturned (SigtermPropagated (sc_out c)), sc_chan := None\<rparr>) m)"
| s_child_exit: "starts m i = c \<Longrightarrow> sc_child c = Running b \<Longrightarrow>
     start_step i m (set_call i (c\<lparr>sc_child := Dead r, sc_out := out\<rparr>) m)"
| s_wait: "starts m i = c \<Longrightarrow> sc_waiter c = WWait \<Longrightarrow> sc_child c = Dead r \<Longrightarrow>
     start_step i m (set_call i (c\<lparr>sc_waiter := WFinish, sc_chan := Some r\<rparr>) m)"
| s_done: "starts m i = c \<Longrightarrow> sc_waiter c = WFinish \<Longrightarrow>
     start_step i m (set_call i (c\<lparr>sc_waiter := WDone\<rparr>) (m\<lparr>wg := wg m - 1\<rparr>))"

text \<open>The steps of the call \<open>j\<close> of \<open>Terminate\<close>; closing a closed channel panics,
  which ends the program (that the other calls may go on in the model only adds runs).\<close>

inductive term_step :: "nat \<Rightarrow> manager \<Rightarrow> manager \<Rightarrow> bool" for j :: nat where
  t_lock: "terms m j = TLock \<Longrightarrow> lock m = None \<Longrightarrow>
     term_step j m (set_term j TClose (m\<lparr>lock := Some (ByTerm j)\<rparr>))"
| t_close: "terms m j = TClose \<Longrightarrow> \<not> killAll m \<Longrightarrow>
     term_step j m (set_term j TWait (m\<lparr>killAll := True\<rparr>))"
| t_panic: "terms m j = TClose \<Longrightarrow> killAll m \<Longrightarrow> term_step j m (set_term j TPanicked m)"
| t_wait: "terms m j = TWait \<Longrightarrow> wg m = 0 \<Longrightarrow> term_step j m (set_term j TUnlock m)"
| t_unlock: "terms m j = TUnlock \<Longrightarrow> term_step j m (set_term j TReturned (m\<lparr>lock := None\<rparr>))"

definition manager_step :: "manager \<Rightarrow> manager \<Rightarrow> bool" where
  "manager_step m n = ((\<exists>i. start_step i m n) \<or> (\<exists>j. term_step j m n))"

abbreviation manager_init :: "manager \<Rightarrow> bool" where
  "manager_init m \<equiv> m = newManager"

lemma set_call_sel [simp]:
  "wg (set_call i c m) = wg m" "killAll (set_call i c m) = killAll m"
  "lock (set_call i c m) = lock m" "terms (set_call i c m) = terms m"
  "starts (set_call i c m) = (starts m)(i := c)"
  by (simp_all add: set_call_def)

lemma set_term_sel [simp]:
  "wg (set_term j p m) = wg m" "killAll (set_term j p m) = killAll m"
  "lock (set_term j p m) = lock m" "starts (set_term j p m) = starts m"
  "terms (set_term j p m) = (terms m)(j := p)"
  by (simp_all add: set_term_def)

section \<open>The invariant\<close>

fun holds_lock :: "start_pc \<Rightarrow> bool" where
  "holds_lock SCheck = True"
| "holds_lock SSpawn = True"
| "holds_lock SAdd = True"
| "holds_lock SUnlock = True"
| "holds_lock (SReturned ShutdownInProgress) = True"
| "holds_lock _ = False"

fun term_holds_lock :: "term_pc \<Rightarrow> bool" where
  "term_holds_lock TClose = True"
| "term_holds_lock TWait = True"
| "term_holds_lock TUnlock = True"
| "term_holds_lock TPanicked = True"
| "term_holds_lock _ = False"

definition lock_inv :: "manager \<Rightarrow> bool" where
  "lock_inv m = ((\<forall>i. holds_lock (sc_pc (starts m i)) \<longleftrightarrow> lock m = Some (ByStart i))
     \<and> (\<forall>j. term_holds_lock (terms m j) \<longleftrightarrow> lock m = Some (ByTerm j)))"

text \<open>The calls the wait group counts, and how the parts of one call fit together.\<close>

definition counted :: "start_call \<Rightarrow> bool" where
  "counted c = (sc_pc c \<in> {SUnlock, SGo} \<or> sc_waiter c \<in> {WWait, WFinish})"

definition is_running :: "child \<Rightarrow> bool" where
  "is_running d = (case d of Running _ \<Rightarrow> True | _ \<Rightarrow> False)"

fun call_phase :: "start_pc \<Rightarrow> child \<Rightarrow> waiter \<Rightarrow> gerror option option \<Rightarrow> bool" where
  "call_phase SLock d w ch = (d = NotStarted \<and> w = WNone \<and> ch = None)"
| "call_phase SCheck d w ch = (d = NotStarted \<and> w = WNone \<and> ch = None)"
| "call_phase SSpawn d w ch = (d = NotStarted \<and> w = WNone \<and> ch = None)"
| "call_phase SAdd d w ch = (d \<noteq> NotStarted \<and> w = WNone \<and> ch = None)"
| "call_phase SUnlock d w ch = (d \<noteq> NotStarted \<and> w = WNone \<and> ch = None)"
| "call_phase SGo d w ch = (d \<noteq> NotStarted \<and> w = WNone \<and> ch = None)"
| "call_phase SSelect d w ch =
     (d \<noteq> NotStarted \<and> w \<noteq> WNone \<and> (if w = WWait then ch = None else \<exists>r. d = Dead r \<and> ch = Some r))"
| "call_phase SSignal d w ch =
     (d \<noteq> NotStarted \<and> w \<noteq> WNone \<and> (if w = WWait then ch = None else \<exists>r. d = Dead r \<and> ch = Some r))"
| "call_phase SAwait d w ch =
     (d \<noteq> NotStarted \<and> w \<noteq> WNone \<and> (if w = WWait then ch = None else \<exists>r. d = Dead r \<and> ch = Some r))"
| "call_phase (SReturned ShutdownInProgress) d w ch = (d = NotStarted \<and> w = WNone \<and> ch = None)"
| "call_phase (SReturned (StartFailed e)) d w ch = (d = NotStarted \<and> w = WNone \<and> ch = None)"
| "call_phase (SReturned (SigtermPropagated out)) d w ch =
     (w \<notin> {WNone, WWait} \<and> ch = None \<and> (\<exists>r. d = Dead r))"
| "call_phase (SReturned (Exited out r)) d w ch = (w \<notin> {WNone, WWait} \<and> ch = None \<and> d = Dead r)"

definition call_ok :: "start_call \<Rightarrow> bool" where
  "call_ok c = call_phase (sc_pc c) (sc_child c) (sc_waiter c) (sc_chan c)"

definition count_inv :: "manager \<Rightarrow> bool" where
  "count_inv m = (finite {i. counted (starts m i)} \<and> wg m = card {i. counted (starts m i)})"

text \<open>Once the shutdown began no call is on its way to a new child, and what \<open>wg.Wait\<close> found stays.\<close>

definition kill_inv :: "manager \<Rightarrow> bool" where
  "kill_inv m = ((\<forall>i. sc_pc (starts m i) \<in> {SSpawn, SAdd, SUnlock} \<longrightarrow> \<not> killAll m)
     \<and> (\<forall>i. sc_pc (starts m i) \<in> {SSignal, SAwait, SReturned ShutdownInProgress} \<longrightarrow> killAll m)
     \<and> (\<forall>i out. sc_pc (starts m i) = SReturned (SigtermPropagated out) \<longrightarrow> killAll m)
     \<and> (\<forall>j. terms m j \<in> {TWait, TUnlock, TReturned, TPanicked} \<longrightarrow> killAll m)
     \<and> (\<forall>j. terms m j \<in> {TUnlock, TReturned} \<longrightarrow> (\<forall>i. \<not> is_running (sc_child (starts m i)))))"

definition manager_inv :: "manager \<Rightarrow> bool" where
  "manager_inv m = (lock_inv m \<and> (\<forall>i. call_ok (starts m i)) \<and> count_inv m \<and> kill_inv m)"

section \<open>Every step keeps the invariant\<close>

text \<open>What one call's step does to the set of counted calls.\<close>

lemma counted_upd_same:
  "counted c = counted (f i) \<Longrightarrow> {k. counted ((f(i := c)) k)} = {k. counted (f k)}"
  by auto

lemma counted_upd_in:
  "counted c \<Longrightarrow> {k. counted ((f(i := c)) k)} = insert i {k. counted (f k)}"
  by auto

lemma counted_upd_out:
  "\<not> counted c \<Longrightarrow> {k. counted ((f(i := c)) k)} = {k. counted (f k)} - {i}"
  by auto

lemma count_inv_same:
  assumes "count_inv m" and "counted c = counted (starts m i)"
    and "starts n = (starts m)(i := c)" and "wg n = wg m"
  shows "count_inv n"
  using assms by (simp add: count_inv_def counted_upd_same del: fun_upd_apply)

lemma count_inv_in:
  assumes "count_inv m" and "counted c" and "\<not> counted (starts m i)"
    and "starts n = (starts m)(i := c)" and "wg n = Suc (wg m)"
  shows "count_inv n"
  using assms by (simp add: count_inv_def counted_upd_in del: fun_upd_apply)

lemma count_inv_out:
  assumes "count_inv m" and "\<not> counted c" and "counted (starts m i)"
    and "starts n = (starts m)(i := c)" and "wg n = wg m - 1"
  shows "count_inv n"
  using assms by (simp add: count_inv_def counted_upd_out del: fun_upd_apply)

lemma lock_inv_call: "lock_inv m \<Longrightarrow> holds_lock (sc_pc (starts m i)) = (lock m = Some (ByStart i))"
  by (simp add: lock_inv_def)

lemma lock_inv_term: "lock_inv m \<Longrightarrow> term_holds_lock (terms m j) = (lock m = Some (ByTerm j))"
  by (simp add: lock_inv_def)

lemma start_step_lock_inv:
  assumes "start_step i m n" and "lock_inv m"
  shows "lock_inv n"
  using assms lock_inv_call [OF assms(2), of i]
  by (cases rule: start_step.cases) (auto simp: lock_inv_def)

lemma term_step_lock_inv:
  assumes "term_step j m n" and "lock_inv m"
  shows "lock_inv n"
  using assms lock_inv_term [OF assms(2), of j]
  by (cases rule: term_step.cases) (auto simp: lock_inv_def)

text \<open>How the parts of a call change together.\<close>

lemma call_phase_child_exit: "call_phase p (Running b) w ch \<Longrightarrow> call_phase p (Dead r) w ch"
  by (induction p "Running b" w ch rule: call_phase.induct) auto

lemma call_phase_wait: "call_phase p (Dead r) WWait ch \<Longrightarrow> call_phase p (Dead r) WFinish (Some r)"
  by (induction p "Dead r" WWait ch rule: call_phase.induct) auto

lemma call_phase_done: "call_phase p d WFinish ch \<Longrightarrow> call_phase p d WDone ch"
  by (induction p d WFinish ch rule: call_phase.induct) auto

lemma call_phase_finish_pc: "call_phase p d WFinish ch \<Longrightarrow> p \<notin> {SUnlock, SGo}"
  by (induction p d WFinish ch rule: call_phase.induct) auto

lemma call_phase_running:
  "call_phase p (Running b) w ch \<Longrightarrow> p = SAdd \<or> p \<in> {SUnlock, SGo} \<or> w = WWait"
  by (induction p "Running b" w ch rule: call_phase.induct) (auto split: if_splits)

lemmas call_phase_laws = call_phase_child_exit call_phase_wait call_phase_done

lemma start_step_call_ok:
  assumes "start_step i m n" and "call_ok (starts m i)"
  shows "call_ok (starts n i)"
  using assms
  by (cases rule: start_step.cases)
    (auto simp: call_ok_def intro: call_phase_laws split: child.splits if_splits)

lemma start_step_other: "start_step i m n \<Longrightarrow> k \<noteq> i \<Longrightarrow> starts n k = starts m k"
  by (induction rule: start_step.induct) auto

lemma start_step_calls_ok:
  "start_step i m n \<Longrightarrow> \<forall>k. call_ok (starts m k) \<Longrightarrow> \<forall>k. call_ok (starts n k)"
  by (metis start_step_call_ok start_step_other)

lemma start_step_count_inv:
  assumes "start_step i m n" and "call_ok (starts m i)" and "count_inv m"
  shows "count_inv n"
  using assms(1)
proof (cases rule: start_step.cases)
  case (s_add c)
  have "\<not> counted (starts m i)"
    using s_add assms(2) by (simp add: counted_def call_ok_def)
  with s_add show ?thesis
    by (intro count_inv_in [OF assms(3), where i = i]) (simp_all add: counted_def)
next
  case (s_done c)
  have "sc_pc c \<notin> {SUnlock, SGo}"
    using s_done assms(2) by (intro call_phase_finish_pc) (simp add: call_ok_def)
  with s_done show ?thesis
    by (intro count_inv_out [OF assms(3), where i = i]) (simp_all add: counted_def)
qed (rule count_inv_same [OF assms(3), where i = i], auto simp: counted_def)+

lemma term_step_count_inv: "term_step j m n \<Longrightarrow> count_inv m \<Longrightarrow> count_inv n"
  by (induction rule: term_step.induct) (auto simp: count_inv_def)

text \<open>A running child is counted, or its call holds the mutex.\<close>

lemma running_counted:
  "call_ok c \<Longrightarrow> is_running (sc_child c) \<Longrightarrow> counted c \<or> sc_pc c = SAdd"
  by (auto simp: call_ok_def counted_def is_running_def dest: call_phase_running split: child.splits)

lemma start_step_kill_inv:
  assumes "start_step i m n" and "kill_inv m"
  shows "kill_inv n"
  using assms
  by (induction rule: start_step.induct)
    (auto simp: kill_inv_def isBeingShutdown_def is_running_def split: child.splits)

lemma term_step_kill_inv:
  assumes "term_step j m n" and "manager_inv m"
  shows "kill_inv n"
  using assms
proof (induction rule: term_step.induct)
  case (t_close m)
  then have li: "lock_inv m" by (simp add: manager_inv_def)
  have "lock m = Some (ByTerm j)" using lock_inv_term [OF li, of j] t_close by simp
  then have "\<not> holds_lock (sc_pc (starts m i))" for i using lock_inv_call [OF li, of i] by simp
  then have "sc_pc (starts m i) \<notin> {SSpawn, SAdd, SUnlock}" for i
    by (metis empty_iff holds_lock.simps(2-4) insert_iff)
  with t_close show ?case by (auto simp: manager_inv_def kill_inv_def)
next
  case (t_wait m)
  then have none: "\<not> counted (starts m i)" for i
    by (auto simp: manager_inv_def count_inv_def)
  have k: "killAll m" using t_wait by (auto simp: manager_inv_def kill_inv_def)
  have "\<not> is_running (sc_child (starts m i))" for i
    using running_counted [of "starts m i"] none [of i] k t_wait
    by (auto simp: manager_inv_def kill_inv_def)
  with t_wait k show ?case by (auto simp: manager_inv_def kill_inv_def)
qed (auto simp: manager_inv_def kill_inv_def)

lemma manager_inv_init: "manager_inv newManager"
  by (simp add: manager_inv_def newManager_def fresh_call_def lock_inv_def call_ok_def
      count_inv_def counted_def kill_inv_def)

lemma term_step_starts: "term_step j m n \<Longrightarrow> starts n = starts m"
  by (induction rule: term_step.induct) auto

lemma manager_inv_step: "manager_inv m \<Longrightarrow> manager_step m n \<Longrightarrow> manager_inv n"
proof -
  assume inv: "manager_inv m" and "manager_step m n"
  then consider (start) i where "start_step i m n" | (terminate) j where "term_step j m n"
    by (auto simp: manager_step_def)
  then show "manager_inv n"
  proof cases
    case start
    with inv show ?thesis
      unfolding manager_inv_def
      by (metis start_step_lock_inv start_step_calls_ok start_step_count_inv start_step_kill_inv)
  next
    case terminate
    from term_step_kill_inv [OF terminate inv] inv show ?thesis
      unfolding manager_inv_def
      by (metis terminate term_step_lock_inv term_step_count_inv term_step_starts)
  qed
qed

interpretation manager: inductive_invariant manager_init manager_step manager_inv
  by unfold_locales (auto simp: manager_inv_init intro: manager_inv_step)

lemmas manager_reach_inv = manager.inv_reach

section \<open>What stays: returned calls, the closed channel, the leaked mutex\<close>

inductive_cases start_step_at: "start_step i m n"
inductive_cases term_step_at: "term_step j m n"

lemma manager_step_cases [consumes 1, case_names start terminate]:
  assumes "manager_step m n"
  obtains i where "start_step i m n" | j where "term_step j m n"
  using assms by (auto simp: manager_step_def)

lemma manager_step_startI: "start_step i m n \<Longrightarrow> manager_step m n"
  by (auto simp: manager_step_def)

lemma manager_step_termI: "term_step j m n \<Longrightarrow> manager_step m n"
  by (auto simp: manager_step_def)

lemma start_step_terms: "start_step i m n \<Longrightarrow> terms n = terms m"
  by (induction rule: start_step.induct) auto

lemma term_returned_step: "terms m j = TReturned \<Longrightarrow> manager_step m n \<Longrightarrow> terms n j = TReturned"
  by (auto elim!: manager_step_cases term_step_at dest: start_step_terms)

lemma killAll_step: "killAll m \<Longrightarrow> manager_step m n \<Longrightarrow> killAll n"
  by (auto elim!: manager_step_cases start_step_at term_step_at)

lemma not_started_step:
  assumes "manager_inv m" and "killAll m" and "sc_child (starts m i) = NotStarted"
    and "manager_step m n"
  shows "sc_child (starts n i) = NotStarted"
  using assms(4)
proof (cases rule: manager_step_cases)
  case (start k)
  show ?thesis
  proof (cases "k = i")
    case True
    with start assms show ?thesis
      by (auto elim!: start_step_at simp: manager_inv_def kill_inv_def)
  next
    case False
    with start assms(3) show ?thesis by (simp add: start_step_other)
  qed
next
  case (terminate j)
  with assms(3) show ?thesis by (simp add: term_step_starts)
qed

text \<open>The state after the shutdown branch of \<open>Start\<close>: the mutex stays locked.\<close>

definition leaked :: "nat \<Rightarrow> manager \<Rightarrow> bool" where
  "leaked i m = (manager_inv m \<and> sc_pc (starts m i) = SReturned ShutdownInProgress)"

lemma leaked_lock: "leaked i m \<Longrightarrow> lock m = Some (ByStart i)"
  using lock_inv_call [of m i] by (auto simp: leaked_def manager_inv_def)

lemma leaked_step:
  assumes "leaked i m" and "manager_step m n"
  shows "leaked i n"
proof -
  have inv: "manager_inv n" using assms manager_inv_step by (auto simp: leaked_def)
  have "sc_child (starts m i) = NotStarted" "sc_waiter (starts m i) = WNone"
    using assms(1) by (auto simp: leaked_def manager_inv_def call_ok_def dest!: spec [of _ i])
  moreover have "sc_pc (starts m i) = SReturned ShutdownInProgress"
    using assms(1) by (simp add: leaked_def)
  ultimately have "sc_pc (starts n i) = SReturned ShutdownInProgress"
    using assms(2)
    by (auto elim!: manager_step_cases start_step_at term_step_at)
  with inv show ?thesis by (simp add: leaked_def)
qed

lemma leaked_blocks_step:
  assumes "leaked i m" and "manager_step m n"
  shows "sc_pc (starts m k) = SLock \<Longrightarrow> starts n k = starts m k"
    and "terms m j = TLock \<Longrightarrow> terms n j = TLock"
proof -
  have l: "lock m = Some (ByStart i)" using assms(1) by (rule leaked_lock)
  have ok: "call_ok (starts m k)" using assms(1) by (simp add: leaked_def manager_inv_def)
  show "starts n k = starts m k" if "sc_pc (starts m k) = SLock"
    using assms(2) that l ok
    by (auto elim!: manager_step_cases start_step_at term_step_at simp: call_ok_def)
  show "terms n j = TLock" if "terms m j = TLock"
    using assms(2) that l
    by (auto elim!: manager_step_cases term_step_at dest: start_step_terms)
qed

lemma leaked_blocks:
  assumes "leaked i m" and "steps manager_step m n"
  shows "leaked i n \<and> (sc_pc (starts m k) = SLock \<longrightarrow> starts n k = starts m k)
    \<and> (terms m j = TLock \<longrightarrow> terms n j = TLock)"
  using assms(2)
proof (induction rule: rtranclp_induct)
  case base
  with assms(1) show ?case by simp
next
  case (step u v)
  then have u: "leaked i u" by simp
  show ?case
    using step.IH leaked_step [OF u step.hyps(2)] leaked_blocks_step [OF u step.hyps(2)] by metis
qed

section \<open>At most one call closes the channel\<close>

definition closer_unique :: "manager \<Rightarrow> bool" where
  "closer_unique m = (\<forall>j k. terms m j \<in> {TWait, TUnlock, TReturned} \<longrightarrow>
     terms m k \<in> {TWait, TUnlock, TReturned} \<longrightarrow> j = k)"

lemma closer_unique_term_step:
  assumes "term_step j m n" and "manager_inv m" and "closer_unique m"
  shows "closer_unique n"
  using assms(1)
proof (cases rule: term_step.cases)
  case t_close
  with assms(2) have "terms m k \<notin> {TWait, TUnlock, TReturned}" for k
    by (auto simp: manager_inv_def kill_inv_def)
  with t_close show ?thesis by (auto simp: closer_unique_def)
qed (use assms(3) in \<open>auto simp: closer_unique_def\<close>)

interpretation closer: inductive_invariant manager_init manager_step
  "\<lambda>m. manager_inv m \<and> closer_unique m"
proof
  show "manager_inv m \<and> closer_unique m" if "m = newManager" for m
    using that manager_inv_init by (auto simp: closer_unique_def newManager_def)
  show "manager_inv n \<and> closer_unique n"
    if "manager_inv m \<and> closer_unique m" "manager_step m n" for m n
    using that(2)
  proof (cases rule: manager_step_cases)
    case (start i)
    then have "closer_unique n = closer_unique m"
      by (simp add: closer_unique_def start_step_terms)
    with that manager_inv_step show ?thesis by blast
  next
    case (terminate j)
    with that manager_inv_step closer_unique_term_step show ?thesis by blast
  qed
qed

section \<open>Progress of Terminate\<close>

text \<open>The steps of calls that have begun: they are steps of the manager and change neither
  \<open>killAll\<close> nor the calls of \<open>Terminate\<close>.\<close>

definition busy_step :: "manager \<Rightarrow> manager \<Rightarrow> bool" where
  "busy_step m n = (\<exists>i. starts m i \<noteq> fresh_call \<and> start_step i m n)"

lemma busy_stepI: "starts m i \<noteq> fresh_call \<Longrightarrow> start_step i m n \<Longrightarrow> busy_step m n"
  by (auto simp: busy_step_def)

lemma start_step_killAll: "start_step i m n \<Longrightarrow> killAll n = killAll m"
  by (cases rule: start_step.cases) auto

lemma busy_steps:
  assumes "steps busy_step m n"
  shows "steps manager_step m n" "terms n = terms m" "killAll n = killAll m"
  using assms
proof (induction rule: rtranclp_induct)
  case (step u v)
  then obtain i where "start_step i u v" by (auto simp: busy_step_def)
  with step show "steps manager_step m v" "terms v = terms m" "killAll v = killAll m"
    using start_step_terms [of i u v] start_step_killAll [of i u v]
    by (auto intro: rtranclp.rtrancl_into_rtrancl manager_step_startI)
qed simp_all

text \<open>Any call the wait group counts can be driven to its \<open>wg.Done\<close>.\<close>

lemma finish_waiter:
  assumes "sc_waiter (starts m i) = WFinish"
  shows "\<exists>n. busy_step m n \<and> wg n = wg m - 1 \<and> terms n = terms m"
  using busy_stepI [OF _ s_done [OF refl assms]] assms by (fastforce simp: fresh_call_def)

lemma finish_dead:
  assumes "sc_waiter (starts m i) = WWait" and "sc_child (starts m i) = Dead r"
  shows "\<exists>n. steps busy_step m n \<and> wg n = wg m - 1 \<and> terms n = terms m"
proof -
  define m1 where "m1 = set_call i ((starts m i)\<lparr>sc_waiter := WFinish, sc_chan := Some r\<rparr>) m"
  have "busy_step m m1"
    unfolding m1_def by (rule busy_stepI [OF _ s_wait [OF refl assms]]) (use assms in \<open>auto simp: fresh_call_def\<close>)
  moreover obtain n where "busy_step m1 n" "wg n = wg m1 - 1" "terms n = terms m1"
    using finish_waiter [of m1 i] by (auto simp: m1_def)
  ultimately show ?thesis
    by (auto simp: m1_def intro!: exI [of _ n] converse_rtranclp_into_rtranclp [of _ m m1])
qed

lemma finish_running:
  assumes "sc_waiter (starts m i) = WWait" and "sc_child (starts m i) \<noteq> NotStarted"
  shows "\<exists>n. steps busy_step m n \<and> wg n = wg m - 1 \<and> terms n = terms m"
proof (cases "sc_child (starts m i)")
  case (Running b)
  define m1 where "m1 = set_call i ((starts m i)\<lparr>sc_child := Dead None, sc_out := []\<rparr>) m"
  have "busy_step m m1"
    unfolding m1_def by (rule busy_stepI [OF _ s_child_exit [OF refl Running]]) (use Running in \<open>auto simp: fresh_call_def\<close>)
  moreover obtain n where "steps busy_step m1 n" "wg n = wg m1 - 1" "terms n = terms m1"
    using finish_dead [of m1 i None] assms(1) by (auto simp: m1_def)
  ultimately show ?thesis
    by (auto simp: m1_def intro!: exI [of _ n] converse_rtranclp_into_rtranclp [of _ m m1])
next
  case (Dead r)
  with finish_dead [OF assms(1)] show ?thesis by blast
qed (use assms(2) in simp)

lemma finish_counted:
  assumes "manager_inv m" and "killAll m" and "counted (starts m i)"
  shows "\<exists>n. steps busy_step m n \<and> wg n = wg m - 1 \<and> terms n = terms m"
proof -
  have ok: "call_ok (starts m i)" and "sc_pc (starts m i) \<noteq> SUnlock"
    using assms(1,2) by (auto simp: manager_inv_def kill_inv_def)
  with assms(3) consider "sc_pc (starts m i) = SGo" | "sc_waiter (starts m i) = WWait"
    | "sc_waiter (starts m i) = WFinish"
    by (auto simp: counted_def)
  then show ?thesis
  proof cases
    case 1
    define m1 where "m1 = set_call i ((starts m i)\<lparr>sc_pc := SSelect, sc_waiter := WWait\<rparr>) m"
    have "busy_step m m1"
      unfolding m1_def by (rule busy_stepI [OF _ s_go [OF refl 1]]) (use 1 in \<open>auto simp: fresh_call_def\<close>)
    moreover obtain n where "steps busy_step m1 n" "wg n = wg m1 - 1" "terms n = terms m1"
      using finish_running [of m1 i] ok 1 by (auto simp: m1_def call_ok_def)
    ultimately show ?thesis
      by (auto simp: m1_def intro!: exI [of _ n] converse_rtranclp_into_rtranclp [of _ m m1])
  next
    case 2
    have "sc_child (starts m i) \<noteq> NotStarted"
      using ok 2 by (auto simp: call_ok_def elim!: call_phase.elims)
    with finish_running [OF 2] show ?thesis by blast
  next
    case 3
    with finish_waiter [OF 3] show ?thesis by blast
  qed
qed

lemma drain_wait_group:
  assumes "manager_inv m" and "killAll m"
  shows "\<exists>n. steps busy_step m n \<and> wg n = 0 \<and> terms n = terms m"
  using assms
proof (induction "wg m" arbitrary: m)
  case 0
  then show ?case by auto
next
  case (Suc k)
  have "card {i. counted (starts m i)} = Suc k"
    using Suc.hyps(2) Suc.prems(1) by (simp add: manager_inv_def count_inv_def)
  then obtain i where "counted (starts m i)" by fastforce
  from finish_counted [OF Suc.prems this] obtain n
    where n: "steps busy_step m n" "wg n = k" "terms n = terms m"
    using Suc.hyps(2) by (metis diff_Suc_1)
  have "manager_inv n" by (rule manager.inv_steps [OF busy_steps(1) [OF n(1)] Suc.prems(1)])
  moreover have "killAll n" using busy_steps(3) [OF n(1)] Suc.prems(2) by simp
  ultimately obtain n' where "steps busy_step n n'" "wg n' = 0" "terms n' = terms n"
    using Suc.hyps(1) [of n] n(2) by auto
  with n show ?case by (metis rtranclp_trans)
qed

text \<open>A call of \<open>Start\<close> that holds the mutex before the shutdown gives it back.\<close>

lemma release_start_lock:
  assumes "manager_inv m" and "\<not> killAll m" and "lock m = Some (ByStart i)"
  shows "\<exists>n. steps busy_step m n \<and> lock n = None"
proof -
  let ?c = "starts m i"
  have unlock: "\<exists>n. busy_step u n \<and> lock n = None" if "sc_pc (starts u i) = SSpawn \<or> sc_pc (starts u i) = SUnlock" for u
    using that
  proof
    assume pc: "sc_pc (starts u i) = SSpawn"
    have "busy_step u (set_call i ((starts u i)\<lparr>sc_pc := SReturned (StartFailed [])\<rparr>) (u\<lparr>lock := None\<rparr>))"
      by (rule busy_stepI [OF _ s_failed [OF refl pc]]) (use pc in \<open>auto simp: fresh_call_def\<close>)
    then show ?thesis by - (rule exI, rule conjI, assumption, simp)
  next
    assume pc: "sc_pc (starts u i) = SUnlock"
    have "busy_step u (set_call i ((starts u i)\<lparr>sc_pc := SGo\<rparr>) (u\<lparr>lock := None\<rparr>))"
      by (rule busy_stepI [OF _ s_unlock [OF refl pc]]) (use pc in \<open>auto simp: fresh_call_def\<close>)
    then show ?thesis by - (rule exI, rule conjI, assumption, simp)
  qed
  have "holds_lock (sc_pc ?c)" using assms(1,3) by (auto simp: manager_inv_def lock_inv_def)
  moreover have "sc_pc ?c \<noteq> SReturned ShutdownInProgress"
    using assms(1,2) by (auto simp: manager_inv_def kill_inv_def)
  ultimately consider "sc_pc ?c = SCheck" | "sc_pc ?c = SAdd" | "sc_pc ?c = SSpawn \<or> sc_pc ?c = SUnlock"
    by (cases "sc_pc ?c" rule: holds_lock.cases) auto
  then show ?thesis
  proof cases
    case 1
    have "busy_step m (set_call i (?c\<lparr>sc_pc := SSpawn\<rparr>) m)"
      by (rule busy_stepI [OF _ s_proceed [OF refl 1]]) (use 1 assms(2) in \<open>auto simp: fresh_call_def isBeingShutdown_def\<close>)
    with unlock [of "set_call i (?c\<lparr>sc_pc := SSpawn\<rparr>) m"] show ?thesis
      by (auto intro: converse_rtranclp_into_rtranclp)
  next
    case 2
    have "busy_step m (set_call i (?c\<lparr>sc_pc := SUnlock\<rparr>) (m\<lparr>wg := Suc (wg m)\<rparr>))"
      by (rule busy_stepI [OF _ s_add [OF refl 2]]) (use 2 in \<open>auto simp: fresh_call_def\<close>)
    with unlock [of "set_call i (?c\<lparr>sc_pc := SUnlock\<rparr>) (m\<lparr>wg := Suc (wg m)\<rparr>)"] show ?thesis
      by (auto intro: converse_rtranclp_into_rtranclp)
  next
    case 3
    with unlock [of m] show ?thesis by blast
  qed
qed

section \<open>The result of Start as its caller sees it\<close>

text \<open>The byte slice and the error a call of \<open>Start\<close> returns.\<close>

fun start_outcome :: "start_result \<Rightarrow> string \<times> gerror option" where
  "start_outcome ShutdownInProgress = ([], Some ''Shutdown in progress'')"
| "start_outcome (StartFailed e) = ([], Some e)"
| "start_outcome (SigtermPropagated out) = (out, Some ''SIGTERM propagated to child process'')"
| "start_outcome (Exited out r) = (out, r)"

section \<open>A run that ends in the shutdown branch\<close>

text \<open>
  \<open>Terminate\<close> by caller 0 on a fresh manager, then \<open>Start\<close> by caller 0: the run that the
  theorems below are instantiated at.
\<close>

definition terminated_manager :: manager where
  "terminated_manager = newManager\<lparr>killAll := True, terms := (\<lambda>_. TLock)(0 := TReturned)\<rparr>"

definition waiting_manager :: manager where
  "waiting_manager = newManager\<lparr>killAll := True, lock := Some (ByTerm 0),
     terms := (\<lambda>_. TLock)(0 := TWait)\<rparr>"

definition leaked_manager :: manager where
  "leaked_manager = set_call 0 (fresh_call\<lparr>sc_pc := SReturned ShutdownInProgress\<rparr>)
     (terminated_manager\<lparr>lock := Some (ByStart 0)\<rparr>)"

lemma reach_waiting_manager: "reach manager_init manager_step waiting_manager"
proof -
  define m1 where "m1 = set_term 0 TClose (newManager\<lparr>lock := Some (ByTerm 0)\<rparr>)"
  have "manager_step newManager m1"
    unfolding m1_def by (rule manager_step_termI, rule t_lock) (simp_all add: newManager_def)
  moreover have "manager_step m1 (set_term 0 TWait (m1\<lparr>killAll := True\<rparr>))"
    by (rule manager_step_termI, rule t_close) (simp_all add: m1_def newManager_def)
  moreover have "set_term 0 TWait (m1\<lparr>killAll := True\<rparr>) = waiting_manager"
    by (simp add: m1_def waiting_manager_def set_term_def newManager_def)
  ultimately show ?thesis
    by (metis (mono_tags, lifting) reach_init reach_step)
qed

lemma steps_terminated_manager: "steps manager_step waiting_manager terminated_manager"
proof -
  define m1 where "m1 = set_term 0 TUnlock waiting_manager"
  have "manager_step waiting_manager m1"
    unfolding m1_def
    by (rule manager_step_termI, rule t_wait) (simp_all add: waiting_manager_def newManager_def)
  moreover have "manager_step m1 (set_term 0 TReturned (m1\<lparr>lock := None\<rparr>))"
    by (rule manager_step_termI, rule t_unlock) (simp add: m1_def)
  moreover have "set_term 0 TReturned (m1\<lparr>lock := None\<rparr>) = terminated_manager"
    by (simp add: m1_def waiting_manager_def terminated_manager_def set_term_def newManager_def)
  ultimately show ?thesis by (metis (no_types) r_into_rtranclp rtranclp.rtrancl_into_rtrancl)
qed

lemma steps_leaked_manager: "steps manager_step terminated_manager leaked_manager"
proof -
  define m1 where "m1 = set_call 0 (fresh_call\<lparr>sc_pc := SCheck\<rparr>)
    (terminated_manager\<lparr>lock := Some (ByStart 0)\<rparr>)"
  have "start_step 0 terminated_manager (set_call 0 (fresh_call\<lparr>sc_pc := SCheck\<rparr>)
      (terminated_manager\<lparr>lock := Some (ByStart 0)\<rparr>))"
    by (rule s_lock) (simp_all add: terminated_manager_def newManager_def fresh_call_def)
  then have "manager_step terminated_manager m1"
    unfolding m1_def by (rule manager_step_startI)
  moreover have "start_step 0 m1 (set_call 0
      (fresh_call\<lparr>sc_pc := SCheck\<rparr>\<lparr>sc_pc := SReturned ShutdownInProgress\<rparr>) m1)"
    by (rule s_shutdown) (simp_all add: m1_def terminated_manager_def isBeingShutdown_def)
  then have "manager_step m1 leaked_manager"
    by (intro manager_step_startI) (simp add: m1_def leaked_manager_def set_call_def)
  ultimately show ?thesis by (metis (no_types) r_into_rtranclp rtranclp.rtrancl_into_rtrancl)
qed

lemma reach_terminated_manager: "reach manager_init manager_step terminated_manager"
  by (rule reach_steps [OF steps_terminated_manager reach_waiting_manager])

lemma reach_leaked_manager: "reach manager_init manager_step leaked_manager"
  by (rule reach_steps [OF steps_leaked_manager reach_terminated_manager])

section \<open>Properties\<close>

text \<open>C1: Once a call of \<open>Terminate\<close> has returned, no child process that was started through
  the manager is alive, neither then nor at any later time.\<close>

theorem terminate_leaves_no_child:
  assumes "reach manager_init manager_step m" and "terms m j = TReturned"
    and "steps manager_step m n"
  shows "\<not> is_running (sc_child (starts n i))"
proof -
  have "manager_inv n"
    by (rule manager_reach_inv) (rule reach_steps [OF assms(3,1)])
  moreover have "terms n j = TReturned"
    by (rule steps_preserve [OF assms(3), where P = "\<lambda>m. terms m j = TReturned"])
      (use assms(2) term_returned_step in auto)
  ultimately show ?thesis by (auto simp: manager_inv_def kill_inv_def)
qed

theorem terminate_leaves_no_child_witness:
  "terms terminated_manager 0 = TReturned \<and> \<not> is_running (sc_child (starts leaked_manager 5))"
  using terminate_leaves_no_child [OF reach_terminated_manager _ steps_leaked_manager, of 0 5]
  by (simp add: terminated_manager_def)

text \<open>C9: Once the shutdown has begun (\<open>killAll\<close> is closed), a call of \<open>Start\<close> that has no child
  process yet never gets one.\<close>

theorem no_start_after_shutdown:
  assumes "reach manager_init manager_step m" and "killAll m"
    and "sc_child (starts m i) = NotStarted" and "steps manager_step m n"
  shows "sc_child (starts n i) = NotStarted"
proof -
  have "manager_inv n \<and> killAll n \<and> sc_child (starts n i) = NotStarted"
    by (rule steps_preserve [OF assms(4),
          where P = "\<lambda>m. manager_inv m \<and> killAll m \<and> sc_child (starts m i) = NotStarted"])
      (use assms manager_reach_inv manager_inv_step killAll_step not_started_step in blast)+
  then show ?thesis by simp
qed

theorem no_start_after_shutdown_witness:
  "killAll waiting_manager \<and> sc_child (starts terminated_manager 3) = NotStarted"
  using no_start_after_shutdown [OF reach_waiting_manager _ _ steps_terminated_manager, of 3]
  by (simp add: waiting_manager_def newManager_def fresh_call_def)

text \<open>A call of \<open>Terminate\<close> that waits for the wait group is never stuck: from every
  reachable state in which it waits there is a run in which it returns (each child being
  free to exit).\<close>

lemma terminate_can_return:
  assumes "reach manager_init manager_step m" and "terms m j = TWait"
  shows "\<exists>n. steps manager_step m n \<and> terms n j = TReturned"
proof -
  have inv: "manager_inv m" by (rule manager_reach_inv [OF assms(1)])
  then have "killAll m" using assms(2) by (auto simp: manager_inv_def kill_inv_def)
  from drain_wait_group [OF inv this] obtain u
    where "steps busy_step m u" and u0: "wg u = 0" "terms u = terms m" by blast
  with busy_steps(1) have u: "steps manager_step m u" by blast
  have "manager_step u (set_term j TUnlock u)"
    by (rule manager_step_termI, rule t_wait) (use u0 assms(2) in simp_all)
  moreover have "manager_step (set_term j TUnlock u)
      (set_term j TReturned ((set_term j TUnlock u)\<lparr>lock := None\<rparr>))"
    by (rule manager_step_termI, rule t_unlock) simp
  ultimately have "steps manager_step m (set_term j TReturned ((set_term j TUnlock u)\<lparr>lock := None\<rparr>))"
    using u by (meson rtranclp.rtrancl_into_rtrancl)
  then show ?thesis by (intro exI conjI) auto
qed

text \<open>C23: After one call of \<open>Start\<close> has returned \<open>Shutdown in progress\<close> the mutex is locked for
  ever: every later call of \<open>Start\<close> stays at its \<open>Lock()\<close>, and so does every later call of
  \<open>Terminate\<close> (line 40 returns without unlocking).\<close>

theorem shutdown_branch_leaks_lock:
  assumes "reach manager_init manager_step m"
    and "sc_pc (starts m i) = SReturned ShutdownInProgress" and "steps manager_step m n"
  shows "lock n = Some (ByStart i)
    \<and> (sc_pc (starts m k) = SLock \<longrightarrow> sc_pc (starts n k) = SLock)
    \<and> (terms m j = TLock \<longrightarrow> terms n j = TLock)"
proof -
  have "leaked i m" using assms(1,2) by (simp add: leaked_def manager_reach_inv)
  from leaked_blocks [OF this assms(3), of k j] show ?thesis by (auto dest: leaked_lock)
qed

theorem shutdown_branch_leaks_lock_witness:
  "sc_pc (starts leaked_manager 0) = SReturned ShutdownInProgress
   \<and> lock leaked_manager = Some (ByStart 0) \<and> sc_pc (starts leaked_manager 1) = SLock"
  using shutdown_branch_leaks_lock [OF reach_leaked_manager _ rtranclp.rtrancl_refl, of 0 1 1]
  by (simp add: leaked_manager_def terminated_manager_def newManager_def fresh_call_def)

text \<open>C24: A call of \<open>Start\<close> reports no error only when its child ran and exited without one;
  it says that the signal was propagated or that a shutdown is in progress only when
  \<open>Terminate\<close> has closed \<open>killAll\<close>.\<close>

theorem start_result_meaning:
  assumes "reach manager_init manager_step m" and "sc_pc (starts m i) = SReturned r"
  shows "(snd (start_outcome r) = None \<longrightarrow> sc_child (starts m i) = Dead None)
    \<and> (r = ShutdownInProgress \<or> (\<exists>out. r = SigtermPropagated out) \<longrightarrow> killAll m)
    \<and> \<not> is_running (sc_child (starts m i))"
proof -
  have "manager_inv m" by (rule manager_reach_inv [OF assms(1)])
  then have "call_ok (starts m i)" and "kill_inv m" by (simp_all add: manager_inv_def)
  with assms(2) show ?thesis
    by (cases r) (auto simp: call_ok_def kill_inv_def is_running_def)
qed

theorem start_result_meaning_witness:
  "sc_pc (starts leaked_manager 0) = SReturned ShutdownInProgress \<and> killAll leaked_manager"
  using start_result_meaning [OF reach_leaked_manager, of 0 ShutdownInProgress]
  by (simp add: leaked_manager_def)

text \<open>C37: Only the first \<open>Terminate\<close> returns: once a call of it has returned no other call ever has, and
  another call that finds the mutex free takes it, can then go on, and whatever it does next
  is the panic on the channel that is already closed.\<close>

theorem terminate_returns_once:
  assumes "reach manager_init manager_step m" and "terms m j = TReturned" and "k \<noteq> j"
  shows "terms m k \<noteq> TReturned
    \<and> (terms m k = TLock \<and> lock m = None \<longrightarrow>
         (\<exists>n. term_step k m n \<and> manager_step m n \<and> terms n k = TClose \<and> terms n j = TReturned))
    \<and> (terms m k = TClose \<longrightarrow>
         (\<exists>n. term_step k m n) \<and> (\<forall>n. term_step k m n \<longrightarrow> terms n k = TPanicked))"
proof -
  have "terms m k \<noteq> TReturned"
    using closer.inv_reach [OF assms(1)] assms(2,3) by (auto simp: closer_unique_def)
  moreover have "\<exists>n. term_step k m n \<and> manager_step m n \<and> terms n k = TClose \<and> terms n j = TReturned"
    if "terms m k = TLock" "lock m = None"
    using t_lock [OF that] manager_step_termI [OF t_lock [OF that]] assms(2,3)
    by (intro exI [of _ "set_term k TClose (m\<lparr>lock := Some (ByTerm k)\<rparr>)"]) simp
  moreover have "killAll m"
    using manager_reach_inv [OF assms(1)] assms(2) by (auto simp: manager_inv_def kill_inv_def)
  then have "(\<exists>n. term_step k m n) \<and> (\<forall>n. term_step k m n \<longrightarrow> terms n k = TPanicked)"
    if "terms m k = TClose"
    using t_panic [OF that] that by (auto elim: term_step.cases)
  ultimately show ?thesis by blast
qed

theorem terminate_returns_once_witness:
  "\<exists>n p. term_step 1 terminated_manager n \<and> term_step 1 n p \<and> terms p 1 = TPanicked"
proof -
  have "terms terminated_manager 0 = TReturned" "terms terminated_manager 1 = TLock" "lock terminated_manager = None"
    by (simp_all add: terminated_manager_def newManager_def)
  with terminate_returns_once [OF reach_terminated_manager, of 0 1]
  obtain n where n: "term_step 1 terminated_manager n" "manager_step terminated_manager n" "terms n 1 = TClose"
    "terms n 0 = TReturned" by auto
  have "reach manager_init manager_step n" by (rule reach_step [OF reach_terminated_manager n(2)])
  from terminate_returns_once [OF this n(4), of 1] n(1,3) show ?thesis by auto
qed

text \<open>C40: The wait group counts exactly the calls whose goroutine has not finished, so its
  counter is positive whenever \<open>wg.Done\<close> runs.\<close>

theorem wait_group_exact:
  assumes "reach manager_init manager_step m"
  shows "wg m = card {i. counted (starts m i)} \<and> (sc_waiter (starts m i) = WFinish \<longrightarrow> 0 < wg m)"
proof -
  have c: "finite {i. counted (starts m i)}" "wg m = card {i. counted (starts m i)}"
    using manager_reach_inv [OF assms] by (simp_all add: manager_inv_def count_inv_def)
  moreover have "0 < wg m" if "sc_waiter (starts m i) = WFinish"
    using that c by (auto simp: card_gt_0_iff counted_def)
  ultimately show ?thesis by simp
qed

theorem wait_group_exact_witness:
  "wg waiting_manager = card {i. counted (starts waiting_manager i)}"
  using wait_group_exact [OF reach_waiting_manager] by blast

end
