(* ===== verification/Terminate_Progress.thy ===== *)
theory Terminate_Progress
  imports Process_Manager
begin

text \<open>
  Termination of the process manager (\<open>src/process/manager.go\<close>).  Every step of a call of
  \<open>Start\<close>, of its goroutine and of its child lowers a weight of the call, so a call makes at
  most twelve steps; and while a \<open>Terminate\<close> waits only calls that have begun can make one.
  So \<open>Terminate\<close> cannot wait for ever, whatever the schedule, as long as children exit.
\<close>

section \<open>The weight of a call\<close>

text \<open>An upper bound of the steps that are left, by program counter, child and goroutine.\<close>

fun pc_weight :: "start_pc \<Rightarrow> nat" where
  "pc_weight SLock = 12"
| "pc_weight SCheck = 11"
| "pc_weight SSpawn = 10"
| "pc_weight SAdd = 8"
| "pc_weight SUnlock = 7"
| "pc_weight SGo = 6"
| "pc_weight SSelect = 3"
| "pc_weight SSignal = 2"
| "pc_weight SAwait = 1"
| "pc_weight (SReturned r) = 0"

fun child_weight :: "child \<Rightarrow> nat" where
  "child_weight (Running b) = 1"
| "child_weight d = 0"

fun waiter_weight :: "waiter \<Rightarrow> nat" where
  "waiter_weight WWait = 2"
| "waiter_weight WFinish = 1"
| "waiter_weight w = 0"

definition call_weight :: "start_call \<Rightarrow> nat" where
  "call_weight c = pc_weight (sc_pc c) + child_weight (sc_child c) + waiter_weight (sc_waiter c)"

lemma start_step_weight:
  assumes "call_ok (starts m i)" and "start_step i m n"
  shows "call_weight (starts n i) < call_weight (starts m i)"
  using assms(2,1)
  by (cases rule: start_step.cases)
    (auto simp: call_weight_def call_ok_def split: child.splits)

lemma call_weight_le: "call_ok c \<Longrightarrow> call_weight c \<le> 12"
  by (cases "sc_pc c"; cases "sc_child c"; cases "sc_waiter c")
    (auto simp: call_weight_def call_ok_def split: if_splits elim!: call_phase.elims)

section \<open>Finitely many calls have begun\<close>

definition begun_calls :: "manager \<Rightarrow> nat set" where
  "begun_calls m = {i. starts m i \<noteq> fresh_call}"

definition begun_finite :: "manager \<Rightarrow> bool" where
  "begun_finite m = finite (begun_calls m)"

lemma begun_calls_start_step: "start_step i m n \<Longrightarrow> begun_calls n \<subseteq> insert i (begun_calls m)"
  using start_step_other [of i m n] by (auto simp: begun_calls_def)

interpretation begun: inductive_invariant manager_init manager_step begun_finite
proof
  show "begun_finite m" if "m = newManager" for m
    using that by (simp add: begun_finite_def begun_calls_def newManager_def)
  show "begun_finite n" if "begun_finite m" "manager_step m n" for m n
    using that(2)
  proof (cases rule: manager_step_cases)
    case (start i)
    with that(1) show ?thesis
      unfolding begun_finite_def by (meson begun_calls_start_step finite_insert finite_subset)
  next
    case (terminate j)
    with that(1) show ?thesis by (simp add: begun_finite_def begun_calls_def term_step_starts)
  qed
qed

section \<open>While Terminate waits\<close>

lemma waiting_step:
  assumes "manager_inv m" and "terms m j = TWait" and "manager_step m n" and "terms n j = TWait"
  shows "\<exists>i \<in> begun_calls m. start_step i m n"
  using assms(3)
proof (cases rule: manager_step_cases)
  case (start i)
  have lock: "lock m = Some (ByTerm j)"
    using assms(1,2) by (auto simp: manager_inv_def lock_inv_def)
  from start have "sc_pc (starts m i) \<noteq> SLock \<or> sc_child (starts m i) \<noteq> NotStarted \<or> sc_waiter (starts m i) \<noteq> WNone"
    using lock by (cases rule: start_step.cases) auto
  then have "i \<in> begun_calls m" by (auto simp: begun_calls_def fresh_call_def)
  with start show ?thesis by blast
next
  case (terminate k)
  have only: "term_holds_lock (terms m k) \<longleftrightarrow> k = j" and lock: "lock m = Some (ByTerm j)"
    using assms(1,2) by (auto simp: manager_inv_def lock_inv_def)
  from terminate have False
    using only lock assms(2,4) by (cases rule: term_step.cases) auto
  then show ?thesis ..
qed

text \<open>The weight of a finite set of calls that holds all that have begun.\<close>

definition total_weight :: "nat set \<Rightarrow> manager \<Rightarrow> nat" where
  "total_weight A m = (\<Sum>i\<in>A. call_weight (starts m i))"

lemma waiting_step_weight:
  assumes "manager_inv m" and "terms m j = TWait" and "manager_step m n" and "terms n j = TWait"
    and "finite A" and "begun_calls m \<subseteq> A"
  shows "total_weight A n < total_weight A m \<and> begun_calls n \<subseteq> A"
proof -
  obtain i where i: "i \<in> begun_calls m" "start_step i m n" using waiting_step [OF assms(1-4)] by blast
  have ok: "call_ok (starts m i)" using assms(1) by (simp add: manager_inv_def)
  have "total_weight A n < total_weight A m"
    unfolding total_weight_def
  proof (rule sum_strict_mono_ex1)
    show "\<forall>k\<in>A. call_weight (starts n k) \<le> call_weight (starts m k)"
      using start_step_other [OF i(2)] start_step_weight [OF ok i(2)] by (metis le_refl less_imp_le)
    show "\<exists>k\<in>A. call_weight (starts n k) < call_weight (starts m k)"
      using i assms(6) start_step_weight [OF ok i(2)] by blast
  qed (fact assms(5))
  moreover have "begun_calls n \<subseteq> A" using begun_calls_start_step [OF i(2)] i(1) assms(6) by blast
  ultimately show ?thesis ..
qed

text \<open>A run of \<open>k\<close> steps in which the call \<open>j\<close> waits all the time.\<close>

inductive waits :: "nat \<Rightarrow> manager \<Rightarrow> nat \<Rightarrow> manager \<Rightarrow> bool" for j :: nat and m :: manager where
  waits_start: "terms m j = TWait \<Longrightarrow> waits j m 0 m"
| waits_step: "waits j m k n \<Longrightarrow> manager_step n p \<Longrightarrow> terms p j = TWait \<Longrightarrow> waits j m (Suc k) p"

lemma waits_bound:
  assumes "waits j m k n" and "manager_inv m" and "finite (begun_calls m)"
  shows "manager_inv n \<and> terms n j = TWait \<and> begun_calls n \<subseteq> begun_calls m
    \<and> k + total_weight (begun_calls m) n \<le> total_weight (begun_calls m) m"
  using assms(1)
proof (induction rule: waits.induct)
  case waits_start
  with assms(2) show ?case by simp
next
  case (waits_step k n p)
  have "manager_inv p" using waits_step.IH waits_step.hyps(2) manager_inv_step by blast
  moreover have "total_weight (begun_calls m) p < total_weight (begun_calls m) n \<and> begun_calls p \<subseteq> begun_calls m"
    using waiting_step_weight [OF _ _ waits_step.hyps(2,3) assms(3)] waits_step.IH by blast
  ultimately show ?case using waits_step.IH waits_step.hyps(3) by linarith
qed

lemma total_weight_le:
  assumes "manager_inv m"
  shows "total_weight A m \<le> 12 * card A"
proof -
  have "total_weight A m \<le> of_nat (card A) * 12"
    unfolding total_weight_def
    by (rule sum_bounded_above) (use assms call_weight_le in \<open>auto simp: manager_inv_def\<close>)
  then show ?thesis by simp
qed

section \<open>A run with a child\<close>

lemma reach_running_child:
  "\<exists>m. reach manager_init manager_step m \<and> sc_child (starts m 0) = Running False
     \<and> lock m = None \<and> \<not> killAll m \<and> terms m 0 = TLock"
proof -
  let ?c = "fresh_call\<lparr>sc_pc := SAdd, sc_child := Running False\<rparr>"
  define m1 where "m1 = set_call 0 (fresh_call\<lparr>sc_pc := SCheck\<rparr>) (newManager\<lparr>lock := Some (ByStart 0)\<rparr>)"
  define m2 where "m2 = set_call 0 (fresh_call\<lparr>sc_pc := SSpawn\<rparr>) m1"
  define m3 where "m3 = set_call 0 ?c m2"
  define m4 where "m4 = set_call 0 (?c\<lparr>sc_pc := SUnlock\<rparr>) (m3\<lparr>wg := Suc (wg m3)\<rparr>)"
  define m5 where "m5 = set_call 0 (?c\<lparr>sc_pc := SGo\<rparr>) (m4\<lparr>lock := None\<rparr>)"
  have st: "starts m1 0 = fresh_call\<lparr>sc_pc := SCheck\<rparr>" "starts m2 0 = fresh_call\<lparr>sc_pc := SSpawn\<rparr>"
    "starts m3 0 = ?c" "starts m4 0 = ?c\<lparr>sc_pc := SUnlock\<rparr>"
    by (simp_all add: m1_def m2_def m3_def m4_def)
  have "start_step 0 newManager m1"
    using s_lock [of newManager 0 fresh_call] by (simp add: m1_def newManager_def fresh_call_def)
  moreover have "start_step 0 m1 m2"
    using s_proceed [OF st(1)] by (simp add: m2_def) (simp add: m1_def newManager_def isBeingShutdown_def)
  moreover have "start_step 0 m2 m3" using s_spawn [OF st(2)] by (simp add: m3_def)
  moreover have "start_step 0 m3 m4" using s_add [OF st(3)] by (simp add: m4_def)
  moreover have "start_step 0 m4 m5" using s_unlock [OF st(4)] by (simp add: m5_def)
  ultimately have "steps manager_step newManager m5"
    by (meson converse_rtranclp_into_rtranclp manager_step_startI rtranclp.rtrancl_refl)
  then have "reach manager_init manager_step m5"
    by (rule reach_steps) (rule reach.reach_init, rule refl)
  then show ?thesis
    by (intro exI [of _ m5]) (simp add: m5_def m4_def m3_def m2_def m1_def newManager_def)
qed

lemma reach_waiting_with_child:
  "\<exists>m. reach manager_init manager_step m \<and> terms m 0 = TWait \<and> sc_child (starts m 0) = Running False"
proof -
  obtain m where m: "reach manager_init manager_step m" "sc_child (starts m 0) = Running False"
    "lock m = None" "\<not> killAll m" "terms m 0 = TLock" using reach_running_child by blast
  define m1 where "m1 = set_term 0 TClose (m\<lparr>lock := Some (ByTerm 0)\<rparr>)"
  have "manager_step m m1"
    unfolding m1_def by (rule manager_step_termI, rule t_lock [OF m(5,3)])
  moreover have "manager_step m1 (set_term 0 TWait (m1\<lparr>killAll := True\<rparr>))"
    by (rule manager_step_termI, rule t_close) (simp_all add: m1_def m(4))
  ultimately have "reach manager_init manager_step (set_term 0 TWait (m1\<lparr>killAll := True\<rparr>))"
    using m(1) by (meson reach.reach_step)
  then show ?thesis by - (rule exI, rule conjI, assumption, simp add: m1_def m(2))
qed

section \<open>Properties\<close>

text \<open>C7: \<open>Terminate\<close> terminates under every schedule: while it waits for the wait group at most
  twelve steps are made per call of \<open>Start\<close> that has begun, in any order and by anyone, and
  at no time is it deadlocked, so every run that goes on leads to its return.\<close>

theorem terminate_terminates:
  assumes "reach manager_init manager_step m" and "waits j m k n"
  shows "finite (begun_calls m) \<and> k \<le> 12 * card (begun_calls m) \<and> (\<exists>p. manager_step n p)"
proof -
  have inv: "manager_inv m" by (rule manager_reach_inv [OF assms(1)])
  have fin: "finite (begun_calls m)" using begun.inv_reach [OF assms(1)] by (simp add: begun_finite_def)
  note b = waits_bound [OF assms(2) inv fin]
  have "k \<le> 12 * card (begun_calls m)" using b total_weight_le [OF inv, of "begun_calls m"] by linarith
  moreover have "reach manager_init manager_step n"
    using assms(2,1) by (induction rule: waits.induct) (auto intro: reach.reach_step)
  from terminate_can_return [OF this] b obtain p where "steps manager_step n p" "terms p j = TReturned" by blast
  then have "\<exists>p. manager_step n p" using b by (cases rule: converse_rtranclpE) auto
  ultimately show ?thesis using fin by blast
qed

theorem terminate_terminates_witness:
  "\<exists>m n. waits 0 m 1 n \<and> is_running (sc_child (starts m 0)) \<and> 1 \<le> 12 * card (begun_calls m)"
proof -
  obtain m where m: "reach manager_init manager_step m" "terms m 0 = TWait" "sc_child (starts m 0) = Running False"
    using reach_waiting_with_child by blast
  define n where "n = set_call 0 ((starts m 0)\<lparr>sc_child := Dead None, sc_out := []\<rparr>) m"
  have "manager_step m n"
    unfolding n_def by (rule manager_step_startI, rule s_child_exit [OF refl m(3)])
  then have w: "waits 0 m (Suc 0) n"
    by (rule waits_step [OF waits_start [OF m(2)]]) (simp add: n_def m(2))
  with terminate_terminates [OF m(1) w] m(3) show ?thesis by (auto simp: is_running_def)
qed

end
