(* ===== verification/Shutdown.thy ===== *)
theory Shutdown
  imports Process_Manager
begin

text \<open>
  The two programs while they run (\<open>src/main.go\<close> lines 75--84, \<open>src/cmd/manual-backup/main.go\<close>
  lines 42--48 and 70--74): the jobs, the handler of the termination signal and the process
  manager they share, interleaved step by step.  A job is seen through the commands it
  starts: it is between two calls of the manager's \<open>Start\<close> or inside one, whose steps are
  those of \<open>Process_Manager\<close>.  The states of the manager that a program reaches are
  reachable in \<open>Process_Manager\<close> (\<open>service_manager\<close> and \<open>manual_manager\<close>).
\<close>

section \<open>The state\<close>

datatype job_pc =
    JNone          \<comment> \<open>not triggered\<close>
  | JRun           \<comment> \<open>in \<open>Execute\<close>, outside of \<open>Start\<close>\<close>
  | JCall nat      \<comment> \<open>in the call of \<open>Start\<close> with this number\<close>
  | JEnded

text \<open>The goroutine of the handler, by what comes next.\<close>

datatype handler_pc =
    HSignal        \<comment> \<open>\<open><-sigterms\<close>\<close>
  | HStop          \<comment> \<open>\<open>scheduler.Stop()\<close>, in the service only\<close>
  | HTerminate     \<comment> \<open>\<open>manager.Terminate()\<close>\<close>
  | HLog           \<comment> \<open>\<open>logger.Info\<close>\<close>
  | HExit          \<comment> \<open>\<open>os.Exit(1)\<close>\<close>

record program =
  pg_manager :: manager
  pg_jobs :: "nat \<Rightarrow> job_pc"
  pg_started :: bool                     \<comment> \<open>\<open>scheduler.Run\<close> has started cron\<close>
  pg_cron :: bool                        \<comment> \<open>cron triggers jobs\<close>
  pg_handler :: handler_pc
  pg_exit :: "nat option"                \<comment> \<open>the exit code once the process has ended\<close>

definition service_program :: program where
  "service_program = \<lparr>pg_manager = newManager, pg_jobs = (\<lambda>k. JNone), pg_started = False, pg_cron = False,
     pg_handler = HSignal, pg_exit = None\<rparr>"

text \<open>The manual backup has one job, which its \<open>main\<close> runs itself.\<close>

definition manual_program :: program where
  "manual_program = service_program\<lparr>pg_jobs := (\<lambda>k. JNone)(0 := JRun)\<rparr>"

definition set_job :: "nat \<Rightarrow> job_pc \<Rightarrow> program \<Rightarrow> program" where
  "set_job k p s = s\<lparr>pg_jobs := (pg_jobs s)(k := p)\<rparr>"

text \<open>The call of \<open>Start\<close> with number \<open>i\<close> has been made.\<close>

definition begun :: "program \<Rightarrow> nat \<Rightarrow> bool" where
  "begun s i = (starts (pg_manager s) i \<noteq> fresh_call \<or> (\<exists>k. pg_jobs s k = JCall i))"

section \<open>The steps\<close>

text \<open>A job calls \<open>Start\<close>, a call makes a step, and a job goes on after its call has returned.\<close>

inductive call_step :: "program \<Rightarrow> program \<Rightarrow> bool" where
  c_begin: "pg_jobs s k = JRun \<Longrightarrow> \<not> begun s i \<Longrightarrow> call_step s (set_job k (JCall i) s)"
| c_start: "begun s i \<Longrightarrow> start_step i (pg_manager s) m \<Longrightarrow> call_step s (s\<lparr>pg_manager := m\<rparr>)"
| c_return: "pg_jobs s k = JCall i \<Longrightarrow> sc_pc (starts (pg_manager s) i) = SReturned r \<Longrightarrow>
    call_step s (set_job k JRun s)"

inductive handler_step :: "program \<Rightarrow> program \<Rightarrow> bool" where
  h_terminate: "pg_handler s = HTerminate \<Longrightarrow> term_step 0 (pg_manager s) m \<Longrightarrow>
    handler_step s (s\<lparr>pg_manager := m\<rparr>)"
| h_terminated: "pg_handler s = HTerminate \<Longrightarrow> terms (pg_manager s) 0 = TReturned \<Longrightarrow>
    handler_step s (s\<lparr>pg_handler := HLog\<rparr>)"
| h_log: "pg_handler s = HLog \<Longrightarrow> handler_step s (s\<lparr>pg_handler := HExit\<rparr>)"
| h_exit: "pg_handler s = HExit \<Longrightarrow> handler_step s (s\<lparr>pg_exit := Some 1\<rparr>)"

definition live_step :: "program \<Rightarrow> program \<Rightarrow> bool" where
  "live_step s t = (pg_exit s = None \<and> (call_step s t \<or> handler_step s t))"

text \<open>The service: cron is started once, triggers jobs while it runs, and is stopped by the handler.
  A job that panics ends the process with code 2.\<close>

inductive service_step :: "program \<Rightarrow> program \<Rightarrow> bool" where
  v_live: "live_step s t \<Longrightarrow> service_step s t"
| v_run: "pg_exit s = None \<Longrightarrow> \<not> pg_started s \<Longrightarrow>
    service_step s (s\<lparr>pg_started := True, pg_cron := True\<rparr>)"
| v_trigger: "pg_exit s = None \<Longrightarrow> pg_cron s \<Longrightarrow> pg_jobs s k = JNone \<Longrightarrow>
    service_step s (set_job k JRun s)"
| v_end: "pg_exit s = None \<Longrightarrow> pg_jobs s k = JRun \<Longrightarrow> service_step s (set_job k JEnded s)"
| v_panic: "pg_exit s = None \<Longrightarrow> pg_jobs s k = JRun \<Longrightarrow> service_step s (s\<lparr>pg_exit := Some 2\<rparr>)"
| v_signal: "pg_exit s = None \<Longrightarrow> pg_handler s = HSignal \<Longrightarrow> service_step s (s\<lparr>pg_handler := HStop\<rparr>)"
| v_stop: "pg_exit s = None \<Longrightarrow> pg_handler s = HStop \<Longrightarrow>
    service_step s (s\<lparr>pg_handler := HTerminate, pg_cron := False\<rparr>)"

text \<open>The manual backup: its \<open>main\<close> ends the process, with code 0, or 2 after an error or a panic.\<close>

inductive manual_step :: "program \<Rightarrow> program \<Rightarrow> bool" where
  m_live: "live_step s t \<Longrightarrow> manual_step s t"
| m_exit: "pg_exit s = None \<Longrightarrow> pg_jobs s 0 = JRun \<Longrightarrow> code = 0 \<or> code = 2 \<Longrightarrow>
    manual_step s (s\<lparr>pg_exit := Some code\<rparr>)"
| m_signal: "pg_exit s = None \<Longrightarrow> pg_handler s = HSignal \<Longrightarrow>
    manual_step s (s\<lparr>pg_handler := HTerminate\<rparr>)"

abbreviation service_init :: "program \<Rightarrow> bool" where
  "service_init s \<equiv> s = service_program"

abbreviation manual_init :: "program \<Rightarrow> bool" where
  "manual_init s \<equiv> s = manual_program"

inductive_cases call_stepE: "call_step s t"
inductive_cases handler_stepE: "handler_step s t"
inductive_cases service_stepE: "service_step s t"
inductive_cases manual_stepE: "manual_step s t"

lemma set_job_sel [simp]:
  "pg_manager (set_job k p s) = pg_manager s" "pg_started (set_job k p s) = pg_started s"
  "pg_cron (set_job k p s) = pg_cron s" "pg_handler (set_job k p s) = pg_handler s"
  "pg_exit (set_job k p s) = pg_exit s" "pg_jobs (set_job k p s) = (pg_jobs s)(k := p)"
  by (simp_all add: set_job_def)

section \<open>The programs refine the manager\<close>

lemma live_step_manager:
  "live_step s t \<Longrightarrow> manager_step (pg_manager s) (pg_manager t) \<or> pg_manager t = pg_manager s"
  by (auto simp: live_step_def elim!: call_stepE handler_stepE intro: manager_step_startI manager_step_termI)

interpretation service_manager:
  stutter_refinement service_init service_step pg_manager manager_init manager_step
proof
  show "pg_manager s = newManager" if "s = service_program" for s
    using that by (simp add: service_program_def)
  show "manager_step (pg_manager s) (pg_manager t) \<or> pg_manager t = pg_manager s" if "service_step s t" for s t
    using that by (cases rule: service_step.cases) (auto dest: live_step_manager)
qed

interpretation manual_manager:
  stutter_refinement manual_init manual_step pg_manager manager_init manager_step
proof
  show "pg_manager s = newManager" if "s = manual_program" for s
    using that by (simp add: manual_program_def service_program_def)
  show "manager_step (pg_manager s) (pg_manager t) \<or> pg_manager t = pg_manager s" if "manual_step s t" for s t
    using that by (cases rule: manual_step.cases) (auto dest: live_step_manager)
qed

section \<open>The handler is the only caller of Terminate\<close>

definition handler_inv :: "program \<Rightarrow> bool" where
  "handler_inv s = (let m = pg_manager s in
     (\<forall>j. j \<noteq> 0 \<longrightarrow> terms m j = TLock) \<and> terms m 0 \<noteq> TPanicked
     \<and> (terms m 0 \<in> {TLock, TClose} \<longrightarrow> \<not> killAll m)
     \<and> (pg_handler s \<in> {HSignal, HStop} \<longrightarrow> terms m 0 = TLock)
     \<and> (pg_handler s \<in> {HLog, HExit} \<or> pg_exit s = Some 1 \<longrightarrow> terms m 0 = TReturned))"

lemma handler_inv_same:
  assumes "handler_inv s" and "terms (pg_manager t) = terms (pg_manager s)"
    and "killAll (pg_manager t) = killAll (pg_manager s)" and "pg_handler t = pg_handler s"
    and "pg_exit t = Some 1 \<longrightarrow> pg_exit s = Some 1"
  shows "handler_inv t"
  using assms by (auto simp: handler_inv_def Let_def)

lemma live_step_handler_inv:
  assumes "handler_inv s" and "live_step s t"
  shows "handler_inv t"
proof -
  from assms(2) have "call_step s t \<or> handler_step s t" and ex: "pg_exit s = None"
    by (auto simp: live_step_def)
  then show ?thesis
  proof (elim disjE)
    assume "call_step s t"
    then show ?thesis
    proof (cases rule: call_step.cases)
      case (c_start i m)
      then show ?thesis
        by (intro handler_inv_same [OF assms(1)]) (auto simp: start_step_terms start_step_killAll)
    qed (auto intro: handler_inv_same [OF assms(1)])
  next
    assume "handler_step s t"
    then show ?thesis
    proof (cases rule: handler_step.cases)
      case (h_terminate m)
      from h_terminate(3) show ?thesis
        using assms(1) ex h_terminate(1,2)
        by (cases rule: term_step.cases) (auto simp: handler_inv_def Let_def)
    qed (use assms(1) ex in \<open>auto simp: handler_inv_def Let_def\<close>)
  qed
qed

interpretation service_handler: inductive_invariant service_init service_step handler_inv
proof
  show "handler_inv s" if "s = service_program" for s
    using that by (simp add: handler_inv_def service_program_def newManager_def)
  show "handler_inv t" if "handler_inv s" "service_step s t" for s t
    using that(2)
  proof (cases rule: service_step.cases)
    case v_live
    with that(1) show ?thesis by (rule live_step_handler_inv)
  qed (use that(1) in \<open>auto simp: handler_inv_def Let_def\<close>)
qed

interpretation manual_handler: inductive_invariant manual_init manual_step handler_inv
proof
  show "handler_inv s" if "s = manual_program" for s
    using that by (simp add: handler_inv_def manual_program_def service_program_def newManager_def)
  show "handler_inv t" if "handler_inv s" "manual_step s t" for s t
    using that(2)
  proof (cases rule: manual_step.cases)
    case m_live
    with that(1) show ?thesis by (rule live_step_handler_inv)
  qed (use that(1) in \<open>auto simp: handler_inv_def Let_def\<close>)
qed

section \<open>The shutdown can always be completed\<close>

text \<open>The steps of the manager that a shutdown needs: those of calls that have begun and of the
  handler's call of \<open>Terminate\<close>.\<close>

definition drive_step :: "manager \<Rightarrow> manager \<Rightarrow> bool" where
  "drive_step m n = (busy_step m n \<or> term_step 0 m n)"

lemma drive_busy: "steps busy_step m n \<Longrightarrow> steps drive_step m n"
  by (induction rule: rtranclp_induct) (auto simp: drive_step_def intro: rtranclp.rtrancl_into_rtrancl)

lemma drive_term: "term_step 0 m n \<Longrightarrow> \<exists>u. steps drive_step n u \<and> P u \<Longrightarrow> \<exists>u. steps drive_step m u \<and> P u"
  by (meson converse_rtranclp_into_rtranclp drive_step_def)

lemma drive_unlock:
  assumes "terms m 0 = TUnlock"
  shows "\<exists>n. steps drive_step m n \<and> terms n 0 = TReturned"
  by (rule drive_term [OF t_unlock [OF assms]], rule exI, rule conjI, rule rtranclp.rtrancl_refl) simp

lemma drive_wait:
  assumes "manager_inv m" and "terms m 0 = TWait"
  shows "\<exists>n. steps drive_step m n \<and> terms n 0 = TReturned"
proof -
  have "killAll m" using assms by (auto simp: manager_inv_def kill_inv_def)
  with drain_wait_group [OF assms(1)] obtain u where u: "steps busy_step m u" "wg u = 0" "terms u = terms m"
    by blast
  have "\<exists>n. steps drive_step u n \<and> terms n 0 = TReturned"
    by (rule drive_term [OF t_wait]) (use u assms(2) in \<open>simp_all add: drive_unlock\<close>)
  with drive_busy [OF u(1)] show ?thesis by (meson rtranclp_trans)
qed

lemma drive_close:
  assumes "manager_inv m" and "terms m 0 = TClose" and "\<not> killAll m"
  shows "\<exists>n. steps drive_step m n \<and> terms n 0 = TReturned"
proof (rule drive_term [OF t_close [OF assms(2,3)]], rule drive_wait)
  show "manager_inv (set_term 0 TWait (m\<lparr>killAll := True\<rparr>))"
    by (rule manager_inv_step [OF assms(1) manager_step_termI [OF t_close [OF assms(2,3)]]])
qed simp

lemma drive_free:
  assumes "manager_inv m" and "terms m 0 = TLock" and "\<not> killAll m" and "lock m = None"
  shows "\<exists>n. steps drive_step m n \<and> terms n 0 = TReturned"
proof (rule drive_term [OF t_lock [OF assms(2,4)]], rule drive_close)
  show "manager_inv (set_term 0 TClose (m\<lparr>lock := Some (ByTerm 0)\<rparr>))"
    by (rule manager_inv_step [OF assms(1) manager_step_termI [OF t_lock [OF assms(2,4)]]])
qed (use assms(3) in simp_all)

lemma drive_lock:
  assumes "manager_inv m" and "\<forall>j. terms m j = TLock" and "\<not> killAll m"
  shows "\<exists>n. steps drive_step m n \<and> terms n 0 = TReturned"
proof (cases "lock m")
  case None
  with assms drive_free show ?thesis by blast
next
  case (Some owner)
  have "owner \<noteq> ByTerm j" for j
    using assms(1,2) Some by (auto simp: manager_inv_def lock_inv_def)
  then obtain i where "owner = ByStart i" by (cases owner) auto
  with release_start_lock [OF assms(1,3)] Some obtain u where u: "steps busy_step m u" "lock u = None" by blast
  have "manager_inv u" by (rule manager.inv_steps [OF busy_steps(1) [OF u(1)] assms(1)])
  moreover have "terms u 0 = TLock" "\<not> killAll u" using busy_steps(2,3) [OF u(1)] assms(2,3) by simp_all
  ultimately have "\<exists>n. steps drive_step u n \<and> terms n 0 = TReturned" using drive_free u(2) by blast
  with drive_busy [OF u(1)] show ?thesis by (meson rtranclp_trans)
qed

lemma live_drive:
  assumes "steps drive_step (pg_manager s) m" and "pg_exit s = None" and "pg_handler s = HTerminate"
  shows "steps live_step s (s\<lparr>pg_manager := m\<rparr>)"
  using assms(1)
proof (induction rule: rtranclp_induct)
  case (step u v)
  let ?s = "s\<lparr>pg_manager := u\<rparr>"
  have "live_step ?s (?s\<lparr>pg_manager := v\<rparr>)"
    using step.hyps(2) assms(2,3) c_start [of ?s _ v] h_terminate [of ?s v]
    by (auto simp: live_step_def drive_step_def busy_step_def begun_def)
  with step.IH show ?case by (auto intro: rtranclp.rtrancl_into_rtrancl)
qed simp

lemma live_exit:
  assumes "terms (pg_manager s) 0 = TReturned" and "pg_exit s = None" and "pg_handler s \<in> {HTerminate, HLog, HExit}"
  shows "\<exists>t. steps live_step s t \<and> pg_exit t = Some 1"
proof -
  have e: "\<exists>t. steps live_step u t \<and> pg_exit t = Some 1" if "pg_handler u = HExit" "pg_exit u = None" for u
    using h_exit [of u] that by (intro exI [of _ "u\<lparr>pg_exit := Some 1\<rparr>"]) (auto simp: live_step_def)
  have l: "\<exists>t. steps live_step u t \<and> pg_exit t = Some 1" if "pg_handler u = HLog" "pg_exit u = None" for u
  proof -
    have "live_step u (u\<lparr>pg_handler := HExit\<rparr>)" using h_log [of u] that by (auto simp: live_step_def)
    with e [of "u\<lparr>pg_handler := HExit\<rparr>"] that show ?thesis by (auto intro: converse_rtranclp_into_rtranclp)
  qed
  have "live_step s (s\<lparr>pg_handler := HLog\<rparr>)" if "pg_handler s = HTerminate"
    using h_terminated [of s] that assms by (auto simp: live_step_def)
  with e [of s] l [of s] l [of "s\<lparr>pg_handler := HLog\<rparr>"] assms show ?thesis
    by (auto intro: converse_rtranclp_into_rtranclp)
qed

lemma live_shutdown:
  assumes "manager_inv (pg_manager s)" and "handler_inv s" and "pg_exit s = None"
    and "pg_handler s \<in> {HTerminate, HLog, HExit}"
  shows "\<exists>t. steps live_step s t \<and> pg_exit t = Some 1"
proof (cases "pg_handler s = HTerminate")
  case True
  let ?m = "pg_manager s"
  have tm: "\<forall>j. j \<noteq> 0 \<longrightarrow> terms ?m j = TLock" "terms ?m 0 \<noteq> TPanicked"
    "terms ?m 0 \<in> {TLock, TClose} \<Longrightarrow> \<not> killAll ?m"
    using assms(2) by (auto simp: handler_inv_def Let_def)
  have "\<exists>n. steps drive_step ?m n \<and> terms n 0 = TReturned"
  proof (cases "terms ?m 0")
    case TLock
    with tm have "\<forall>j. terms ?m j = TLock" by metis
    with drive_lock [OF assms(1)] tm(3) TLock show ?thesis by blast
  next
    case TClose
    with drive_close [OF assms(1)] tm(3) show ?thesis by blast
  qed (use drive_wait [OF assms(1)] drive_unlock tm(2) in auto)
  then obtain n where n: "steps drive_step ?m n" "terms n 0 = TReturned" by blast
  let ?s = "s\<lparr>pg_manager := n\<rparr>"
  obtain t where "steps live_step ?s t" "pg_exit t = Some 1"
    using live_exit [of ?s] n(2) assms(3) True by auto
  with live_drive [OF n(1) assms(3) True] show ?thesis by (meson rtranclp_trans)
next
  case False
  with assms show ?thesis by (intro live_exit) (auto simp: handler_inv_def Let_def)
qed

lemma steps_mono: "steps r s t \<Longrightarrow> (\<And>u v. r u v \<Longrightarrow> q u v) \<Longrightarrow> steps q s t"
  by (induction rule: rtranclp_induct) (auto intro: rtranclp.rtrancl_into_rtrancl)

section \<open>The single job of the manual backup\<close>

definition manual_inv :: "program \<Rightarrow> bool" where
  "manual_inv s =
     ((\<forall>k. k \<noteq> 0 \<longrightarrow> pg_jobs s k = JNone)
      \<and> (\<forall>i. pg_jobs s 0 = JCall i
           \<or> starts (pg_manager s) i = fresh_call \<or> (\<exists>r. sc_pc (starts (pg_manager s) i) = SReturned r))
      \<and> (\<forall>code. pg_exit s = Some code \<longrightarrow> code = 1 \<or> pg_jobs s 0 = JRun))"

lemma start_step_returned:
  "start_step i m n \<Longrightarrow> sc_pc (starts m k) = SReturned r \<Longrightarrow> sc_pc (starts n k) = SReturned r"
  by (cases "k = i"; cases rule: start_step.cases) (auto simp: set_call_def)

lemma manual_caller: "manual_inv s \<Longrightarrow> pg_jobs s k = JCall i \<Longrightarrow> k = 0"
  by (metis job_pc.distinct(3) manual_inv_def)

lemma manual_inv_call:
  assumes "manual_inv s" and "call_step s t" and "pg_exit s = None"
  shows "manual_inv t"
  using assms(2)
proof (cases rule: call_step.cases)
  case (c_begin k i)
  with assms(1) have "k = 0" by (auto simp: manual_inv_def)
  with assms c_begin show ?thesis by (auto simp: manual_inv_def)
next
  case (c_start i m)
  have "pg_jobs s 0 = JCall j \<or> starts m j = fresh_call \<or> (\<exists>r. sc_pc (starts m j) = SReturned r)" for j
  proof (cases "j = i")
    case True
    have "pg_jobs s 0 = JCall i \<or> (\<exists>r. sc_pc (starts (pg_manager s) i) = SReturned r)"
      using assms(1) c_start(2) manual_caller [OF assms(1)] unfolding begun_def manual_inv_def by metis
    with start_step_returned [OF c_start(3)] True show ?thesis by blast
  next
    case False
    with assms(1) start_step_other [OF c_start(3)] show ?thesis by (auto simp: manual_inv_def)
  qed
  with assms(1,3) c_start(1) show ?thesis by (auto simp: manual_inv_def)
next
  case (c_return k i r)
  with assms(1) have "k = 0" by (auto simp: manual_inv_def)
  with assms c_return show ?thesis by (auto simp: manual_inv_def)
qed

lemma manual_inv_handler:
  assumes "manual_inv s" and "handler_step s t" and "pg_exit s = None"
  shows "manual_inv t"
  using assms(2)
proof (cases rule: handler_step.cases)
  case (h_terminate m)
  with assms show ?thesis by (simp add: manual_inv_def term_step_starts)
qed (use assms in \<open>auto simp: manual_inv_def\<close>)

interpretation manual_job: inductive_invariant manual_init manual_step manual_inv
proof
  show "manual_inv s" if "s = manual_program" for s
    using that by (simp add: manual_inv_def manual_program_def service_program_def newManager_def)
  show "manual_inv t" if "manual_inv s" "manual_step s t" for s t
    using that(2)
  proof (cases rule: manual_step.cases)
    case m_live
    then show ?thesis using manual_inv_call [OF that(1)] manual_inv_handler [OF that(1)]
      unfolding live_step_def by blast
  qed (use that(1) in \<open>auto simp: manual_inv_def\<close>)
qed

section \<open>The end of scheduling\<close>

definition stopped :: "program \<Rightarrow> bool" where
  "stopped s = (pg_started s \<and> \<not> pg_cron s \<and> pg_handler s \<notin> {HSignal, HStop})"

lemma live_step_frame:
  "live_step s t \<Longrightarrow> pg_started t = pg_started s \<and> pg_cron t = pg_cron s
     \<and> (pg_handler s \<notin> {HSignal, HStop} \<longrightarrow> pg_handler t \<notin> {HSignal, HStop})
     \<and> (pg_handler t \<notin> {HSignal, HStop} \<longrightarrow> pg_handler s \<notin> {HSignal, HStop})
     \<and> (pg_jobs s k = JNone \<longrightarrow> pg_jobs t k = JNone)"
  by (auto simp: live_step_def elim!: call_stepE handler_stepE)

lemma stopped_step: "stopped s \<Longrightarrow> service_step s t \<Longrightarrow> stopped t \<and> (pg_jobs s k = JNone \<longrightarrow> pg_jobs t k = JNone)"
  by (erule service_stepE) (auto simp: stopped_def dest: live_step_frame)

lemma stopped_steps:
  assumes "steps service_step s t" and "stopped s" and "pg_jobs s k = JNone"
  shows "pg_jobs t k = JNone"
proof -
  have "stopped t \<and> pg_jobs t k = JNone"
    by (rule steps_preserve [OF assms(1), where P = "\<lambda>s. stopped s \<and> pg_jobs s k = JNone"])
      (use assms(2,3) stopped_step in blast)+
  then show ?thesis ..
qed

lemma service_leave_stop:
  "service_step s t \<Longrightarrow> pg_handler s = HStop \<Longrightarrow> pg_handler t \<noteq> HStop \<Longrightarrow> t = s\<lparr>pg_handler := HTerminate, pg_cron := False\<rparr>"
  by (erule service_stepE) (auto simp: live_step_def elim!: call_stepE handler_stepE)

section \<open>Sample runs\<close>

text \<open>The service with one triggered job and a signal that has just been received, and the manual
  backup after its signal.\<close>

definition signalled_service :: program where
  "signalled_service = service_program\<lparr>pg_started := True, pg_cron := True, pg_jobs := (\<lambda>k. JNone)(0 := JRun),
     pg_handler := HStop\<rparr>"

lemma reach_signalled_service: "reach service_init service_step signalled_service"
proof -
  define s1 where "s1 = service_program\<lparr>pg_started := True, pg_cron := True\<rparr>"
  have "service_step service_program s1"
    unfolding s1_def by (rule v_run) (simp_all add: service_program_def)
  moreover have "service_step s1 (set_job 0 JRun s1)"
    by (rule v_trigger) (simp_all add: s1_def service_program_def)
  moreover have "service_step (set_job 0 JRun s1) ((set_job 0 JRun s1)\<lparr>pg_handler := HStop\<rparr>)"
    by (rule v_signal) (simp_all add: s1_def service_program_def)
  moreover have "(set_job 0 JRun s1)\<lparr>pg_handler := HStop\<rparr> = signalled_service"
    by (simp add: s1_def signalled_service_def set_job_def service_program_def)
  ultimately show ?thesis
    by (metis (mono_tags, lifting) reach.reach_init reach.reach_step)
qed

lemma signalled_stop:
  "service_step signalled_service (signalled_service\<lparr>pg_handler := HTerminate, pg_cron := False\<rparr>)"
  by (rule v_stop) (simp_all add: signalled_service_def service_program_def)

definition signalled_manual :: program where
  "signalled_manual = manual_program\<lparr>pg_handler := HTerminate\<rparr>"

lemma reach_signalled_manual: "reach manual_init manual_step signalled_manual"
proof -
  have "manual_step manual_program signalled_manual"
    unfolding signalled_manual_def
    by (rule m_signal) (simp_all add: manual_program_def service_program_def)
  then show ?thesis by (metis (mono_tags, lifting) reach.reach_init reach.reach_step)
qed

lemma service_completes:
  assumes "reach service_init service_step s" and "pg_exit s = None" and "pg_handler s \<noteq> HSignal"
  shows "\<exists>t. steps service_step s t \<and> pg_exit t = Some 1"
proof -
  define u where "u = (if pg_handler s = HStop then s\<lparr>pg_handler := HTerminate, pg_cron := False\<rparr> else s)"
  have su: "steps service_step s u" using v_stop [of s] assms(2) by (auto simp: u_def)
  have ru: "reach service_init service_step u" by (rule reach_steps [OF su assms(1)])
  have "manager_inv (pg_manager u)" by (rule manager_reach_inv [OF service_manager.abs_reach [OF ru]])
  moreover have "handler_inv u" by (rule service_handler.inv_reach [OF ru])
  moreover have "pg_exit u = None" "pg_handler u \<in> {HTerminate, HLog, HExit}"
    using assms(2,3) by (cases "pg_handler s"; simp add: u_def)+
  ultimately obtain t where "steps live_step u t" "pg_exit t = Some 1" using live_shutdown by blast
  then show ?thesis using su steps_mono [of live_step u t service_step] v_live by (meson rtranclp_trans)
qed

lemma manual_completes:
  assumes "reach manual_init manual_step s" and "pg_exit s = None" and "pg_handler s \<noteq> HSignal"
    and "pg_handler s \<noteq> HStop"
  shows "\<exists>t. steps manual_step s t \<and> pg_exit t = Some 1"
proof -
  have "manager_inv (pg_manager s)" by (rule manager_reach_inv [OF manual_manager.abs_reach [OF assms(1)]])
  moreover have "handler_inv s" by (rule manual_handler.inv_reach [OF assms(1)])
  moreover have "pg_handler s \<in> {HTerminate, HLog, HExit}" using assms(3,4) by (cases "pg_handler s") simp_all
  ultimately obtain t where "steps live_step s t" "pg_exit t = Some 1" using live_shutdown assms(2) by blast
  then show ?thesis using steps_mono [of live_step s t manual_step] m_live by blast
qed

section \<open>Properties\<close>

text \<open>C11: When the service has exited with code 1, after a termination signal, no command that a backup
  started through the process manager is running any more.\<close>

theorem service_exit_leaves_no_child:
  assumes "reach service_init service_step s" and "pg_exit s = Some 1"
  shows "\<not> is_running (sc_child (starts (pg_manager s) i))"
proof -
  have "kill_inv (pg_manager s)"
    using manager_reach_inv [OF service_manager.abs_reach [OF assms(1)]] by (simp add: manager_inv_def)
  moreover have "terms (pg_manager s) 0 = TReturned"
    using service_handler.inv_reach [OF assms(1)] assms(2) by (simp add: handler_inv_def Let_def)
  ultimately show ?thesis by (auto simp: kill_inv_def)
qed

theorem service_exit_leaves_no_child_witness:
  "\<exists>t. steps service_step signalled_service t \<and> pg_exit t = Some 1 \<and> \<not> is_running (sc_child (starts (pg_manager t) 0))"
proof -
  obtain t where t: "steps service_step signalled_service t" "pg_exit t = Some 1"
    using service_completes [OF reach_signalled_service] by (auto simp: signalled_service_def service_program_def)
  from service_exit_leaves_no_child [OF reach_steps [OF t(1) reach_signalled_service] t(2)] t show ?thesis by blast
qed

text \<open>C12: Whenever the manual backup has exited, with whatever code, no command that it started through
  the process manager is running any more: after a signal, an error, a panic or a success.\<close>

theorem manual_exit_leaves_no_child:
  assumes "reach manual_init manual_step s" and "pg_exit s = Some code"
  shows "\<not> is_running (sc_child (starts (pg_manager s) i))"
proof (cases "code = 1")
  case True
  have "kill_inv (pg_manager s)"
    using manager_reach_inv [OF manual_manager.abs_reach [OF assms(1)]] by (simp add: manager_inv_def)
  moreover have "terms (pg_manager s) 0 = TReturned"
    using manual_handler.inv_reach [OF assms(1)] assms(2) True by (simp add: handler_inv_def Let_def)
  ultimately show ?thesis by (auto simp: kill_inv_def)
next
  case False
  let ?c = "starts (pg_manager s) i"
  have "?c = fresh_call \<or> (\<exists>r. sc_pc ?c = SReturned r)"
    using manual_job.inv_reach [OF assms(1)] assms(2) False by (auto simp: manual_inv_def)
  moreover have "call_ok ?c"
    using manager_reach_inv [OF manual_manager.abs_reach [OF assms(1)]] by (simp add: manager_inv_def)
  ultimately show ?thesis
    by (auto simp: call_ok_def is_running_def fresh_call_def elim!: call_phase.elims)
qed

theorem manual_exit_leaves_no_child_witness:
  "\<exists>t. steps manual_step signalled_manual t \<and> pg_exit t = Some 1 \<and> \<not> is_running (sc_child (starts (pg_manager t) 0))"
proof -
  obtain t where t: "steps manual_step signalled_manual t" "pg_exit t = Some 1"
    using manual_completes [OF reach_signalled_manual]
    by (auto simp: signalled_manual_def manual_program_def service_program_def)
  from manual_exit_leaves_no_child [OF reach_steps [OF t(1) reach_signalled_manual] t(2)] t show ?thesis by blast
qed

text \<open>C13: A termination signal is never stuck: from every state that the service reaches after it has
  received the signal there is a continuation in which it exits with code 1, whatever its
  jobs are doing and whoever holds the manager's mutex.\<close>

theorem service_shutdown_completes:
  assumes "reach service_init service_step s" and "pg_exit s = None" and "pg_handler s \<noteq> HSignal"
  shows "\<exists>t. steps service_step s t \<and> pg_exit t = Some 1"
  by (rule service_completes [OF assms])

theorem service_shutdown_completes_witness:
  "\<exists>t. steps service_step signalled_service t \<and> pg_exit t = Some 1"
  by (rule service_shutdown_completes [OF reach_signalled_service])
    (simp_all add: signalled_service_def service_program_def)

text \<open>C14: No backup is started after the termination signal was handled: once the handler has stopped
  the scheduler, which was running, a job that had not been triggered is never triggered.\<close>

theorem no_new_backup_after_stop:
  assumes "pg_started s" and "pg_handler s = HStop" and "service_step s u" and "pg_handler u \<noteq> HStop"
    and "pg_jobs u k = JNone" and "steps service_step u t"
  shows "pg_jobs t k = JNone"
proof -
  have "stopped u" using service_leave_stop [OF assms(3,2,4)] assms(1) by (simp add: stopped_def)
  from stopped_steps [OF assms(6) this assms(5)] show ?thesis .
qed

theorem no_new_backup_after_stop_witness:
  "\<exists>t. steps service_step signalled_service t \<and> pg_exit t = Some 1 \<and> pg_jobs t 1 = JNone"
proof -
  let ?u = "signalled_service\<lparr>pg_handler := HTerminate, pg_cron := False\<rparr>"
  have r: "reach service_init service_step ?u" by (rule reach.reach_step [OF reach_signalled_service signalled_stop])
  obtain t where t: "steps service_step ?u t" "pg_exit t = Some 1"
    using service_completes [OF r] by (auto simp: signalled_service_def service_program_def)
  have "pg_jobs t 1 = JNone"
    by (rule no_new_backup_after_stop [OF _ _ signalled_stop _ _ t(1)])
      (simp_all add: signalled_service_def)
  with t signalled_stop show ?thesis by (blast intro: converse_rtranclp_into_rtranclp)
qed

text \<open>A signal that is handled before \<open>scheduler.Run\<close> stops nothing: cron is started afterwards and
  jobs are triggered until the process exits.\<close>

lemma early_signal_triggers:
  "\<exists>s t. reach service_init service_step s \<and> pg_handler s = HTerminate \<and> pg_jobs s 0 = JNone
     \<and> steps service_step s t \<and> pg_jobs t 0 = JRun"
proof -
  define s1 where "s1 = service_program\<lparr>pg_handler := HStop\<rparr>"
  define s2 where "s2 = s1\<lparr>pg_handler := HTerminate, pg_cron := False\<rparr>"
  define s3 where "s3 = s2\<lparr>pg_started := True, pg_cron := True\<rparr>"
  have "service_step service_program s1"
    unfolding s1_def by (rule v_signal) (simp_all add: service_program_def)
  moreover have "service_step s1 s2"
    unfolding s2_def by (rule v_stop) (simp_all add: s1_def service_program_def)
  moreover have 3: "service_step s2 s3"
    unfolding s3_def by (rule v_run) (simp_all add: s2_def s1_def service_program_def)
  moreover have 4: "service_step s3 (set_job 0 JRun s3)"
    by (rule v_trigger) (simp_all add: s3_def s2_def s1_def service_program_def)
  ultimately have "reach service_init service_step s2"
    by (metis (mono_tags, lifting) reach.reach_init reach.reach_step)
  moreover have "steps service_step s2 (set_job 0 JRun s3)" using 3 4 by auto
  ultimately show ?thesis
    by (intro exI [of _ s2] exI [of _ "set_job 0 JRun s3"]) (simp add: s2_def s1_def service_program_def)
qed

end
