(* ===== verification/Config.thy ===== *)
theory Config
  imports Backup_World
begin

text \<open>
  The configuration (\<open>src/config/parse.go\<close>): its data, \<open>Parse\<close> and \<open>NoDestinations\<close>.
  The YAML decoder is a parameter: a function from the bytes of the file to an error or
  to the structure it fills in.
\<close>

section \<open>Data\<close>

text \<open>A value of a destination's \<open>config\<close> map (\<open>interface{}\<close>), by its dynamic type.\<close>

datatype iface =
    IString string
  | IInt int
  | IBool bool
  | IList "iface list"
  | IMap "(iface \<times> iface) list"
  | IOther string                        \<comment> \<open>any other dynamic type, by its name\<close>

record destination =
  dest_Type :: string
  dest_Name :: string
  dest_Config :: "string \<rightharpoonup> iface"

text \<open>\<open>alerts.Config\<close> of the service alerts client.\<close>

record cloud_controller =
  cc_URL :: string
  cc_User :: string
  cc_Password :: string

record notifications =
  nt_ServiceURL :: string
  nt_CFOrg :: string
  nt_CFSpace :: string
  nt_ReplyTo :: string
  nt_ClientID :: string
  nt_ClientSecret :: string

record alerts_config =
  ac_CloudController :: cloud_controller
  ac_Notifications :: notifications
  ac_GlobalTimeoutSeconds :: int
  ac_SkipSSLValidation :: "bool option"

record alerts =
  al_ProductName :: string
  al_Config :: alerts_config

record backup_config =
  bc_Destinations :: "destination list"
  bc_SourceFolder :: string
  bc_SourceExecutable :: string
  bc_CronSchedule :: string
  bc_CleanupExecutable :: string
  bc_MissingPropertiesMessage :: string
  bc_ExitIfInProgress :: bool
  bc_ServiceIdentifierExecutable :: string
  bc_DeploymentName :: string
  bc_AddDeploymentName :: bool
  bc_AwsCliPath :: string
  bc_Alerts :: "alerts option"

text \<open>\<open>BackupConfig{}\<close>, the zero value.\<close>

definition zero_BackupConfig :: backup_config where
  "zero_BackupConfig = \<lparr>bc_Destinations = [], bc_SourceFolder = [], bc_SourceExecutable = [],
     bc_CronSchedule = [], bc_CleanupExecutable = [], bc_MissingPropertiesMessage = [],
     bc_ExitIfInProgress = False, bc_ServiceIdentifierExecutable = [], bc_DeploymentName = [],
     bc_AddDeploymentName = False, bc_AwsCliPath = [], bc_Alerts = None\<rparr>"

definition NoDestinations :: "backup_config \<Rightarrow> bool" where
  "NoDestinations b = (length (bc_Destinations b) = 0)"

section \<open>Parse\<close>

text \<open>The pair \<open>(BackupConfig, error)\<close> of the source is kept: on an error the zero value.\<close>

definition Parse ::
  "'x env \<Rightarrow> (string \<Rightarrow> gerror + backup_config) \<Rightarrow> string \<Rightarrow> logger \<Rightarrow> 'x world
   \<Rightarrow> (backup_config \<times> gerror option) \<times> 'x world" where
  "Parse E unmarshal path lg w =
     (case os_ReadFile (e_open E) path of
        Inl e \<Rightarrow> ((zero_BackupConfig, Some e), log_error lg ''error reading config file'' e w)
      | Inr yaml \<Rightarrow>
          (case unmarshal yaml of
             Inl e \<Rightarrow> ((zero_BackupConfig, Some e), log_error lg ''error unmarshalling config file'' e w)
           | Inr c \<Rightarrow>
               ((if \<not> bc_AddDeploymentName c then c\<lparr>bc_DeploymentName := []\<rparr> else c, None), w)))"

text \<open>The two ways in which \<open>Parse\<close> ends.\<close>

lemma Parse_None:
  "Parse E unmarshal path lg w = ((c, None), w') \<Longrightarrow>
   \<exists>yaml d. os_ReadFile (e_open E) path = Inr yaml \<and> unmarshal yaml = Inr d \<and> w' = w
     \<and> c = d\<lparr>bc_DeploymentName := if bc_AddDeploymentName d then bc_DeploymentName d else []\<rparr>"
  by (auto simp: Parse_def split: sum.splits if_splits)

lemma Parse_Some:
  "Parse E unmarshal path lg w = ((c, Some e), w') \<Longrightarrow>
   c = zero_BackupConfig \<and> (\<exists>msg. w' = log_error lg msg e w)
     \<and> (os_ReadFile (e_open E) path = Inl e
        \<or> (\<exists>yaml. os_ReadFile (e_open E) path = Inr yaml \<and> unmarshal yaml = Inl e))"
  by (auto simp: Parse_def split: sum.splits if_splits)

end
