(* ===== verification/Tree_Upload.thy ===== *)
theory Tree_Upload
  imports Backup_World
begin

text \<open>
  What the S3 and the Azure client share: the walk over the local folder that uploads
  every file to the remote path obtained by removing the folder's name from the file's
  path (the callbacks of \<open>src/s3/s3.go\<close> lines 230--239 and \<open>src/azure/azure.go\<close> lines
  112--121 are this one, with their own upload of a file).  The lemmas say where a file
  goes, when the remote paths are all different, what a walk that succeeds has stored,
  and how the callback treats directories that cannot be listed.
\<close>

section \<open>The remote path of a file\<close>

definition remote_file_path :: "string \<Rightarrow> string \<Rightarrow> string \<Rightarrow> string" where
  "remote_file_path remoteRoot localDir filePath =
     filepath_Join [remoteRoot, str_remove_all localDir filePath]"

text \<open>
  A local folder in the form the configuration gives it: absolute, not the root, and
  already cleaned.
\<close>

definition plain_folder :: "string \<Rightarrow> bool" where
  "plain_folder p = (is_rooted p \<and> filepath_Clean p = p \<and> path_elems p \<noteq> [])"

text \<open>The names on the way to the file, with the separators: \<open>/a/b\<close>.\<close>

definition below :: "string list \<Rightarrow> string" where
  "below ns = slash # str_join [slash] ns"

lemma plain_folder_text:
  "plain_folder p \<Longrightarrow> p = slash # str_join [slash] (path_elems p)"
  by (metis filepath_Clean_def mk_path_def plain_folder_def)

lemma entry_path_plain:
  assumes "plain_folder p" and "ns \<noteq> []"
  shows "entry_path p ns = p @ below ns"
proof -
  have ne: "path_elems p \<noteq> []" and r: "is_rooted p" using assms(1) by (simp_all add: plain_folder_def)
  have "entry_path p ns = slash # str_join [slash] (path_elems p @ ns)"
    using assms(2) r by (simp add: entry_path_def mk_path_def)
  also have "\<dots> = (slash # str_join [slash] (path_elems p)) @ below ns"
    using ne assms(2) by (simp add: str_join_append below_def)
  finally show ?thesis using plain_folder_text [OF assms(1)] by metis
qed

text \<open>The intended remote path: the remote root extended by the names.\<close>

lemma remote_file_path_intended:
  assumes "plain_folder p" and "ns \<noteq> []" and "\<forall>n \<in> set ns. valid_name n"
    and "\<not> str_contains (below ns) p" and "root \<noteq> []"
  shows "remote_file_path root p (entry_path p ns) = mk_path (is_rooted root) (path_elems root @ ns)"
proof -
  have "p \<noteq> []" using assms(1) by (auto simp: plain_folder_def is_rooted_def)
  then have "str_remove_all p (entry_path p ns) = below ns"
    using assms by (simp add: entry_path_plain str_remove_all_strip)
  then show ?thesis
    using assms by (simp add: remote_file_path_def below_def filepath_Join_slash_names)
qed

lemma remote_file_path_inj:
  assumes "plain_folder p" and "root \<noteq> []"
    and "ns \<noteq> []" "\<forall>n \<in> set ns. valid_name n" "\<not> str_contains (below ns) p"
    and "ms \<noteq> []" "\<forall>n \<in> set ms. valid_name n" "\<not> str_contains (below ms) p"
  shows "remote_file_path root p (entry_path p ns) = remote_file_path root p (entry_path p ms)
         \<longleftrightarrow> ns = ms"
  using assms
  by (simp add: remote_file_path_intended mk_path_inj normal_elems_append_names normal_path_elems)

text \<open>
  Where it fails: \<open>strings.Replace\<close> removes the folder's path wherever it stands, so a file below
  the folder whose names repeat the folder's own path goes where the file without them goes.
\<close>

lemma remote_file_path_repeated:
  assumes "plain_folder p" and "ns \<noteq> []"
  shows "remote_file_path root p (entry_path p (path_elems p @ ns)) = remote_file_path root p (entry_path p ns)"
proof -
  have ne: "p \<noteq> []" "path_elems p \<noteq> []" using assms(1) by (auto simp: plain_folder_def is_rooted_def)
  have "below (path_elems p @ ns) = (slash # str_join [slash] (path_elems p)) @ below ns"
    using ne(2) assms(2) by (simp add: below_def str_join_append)
  also have "\<dots> = p @ below ns" using plain_folder_text [OF assms(1)] by simp
  finally have "below (path_elems p @ ns) = p @ below ns" .
  then show ?thesis
    using ne(1) assms by (simp add: remote_file_path_def entry_path_plain str_remove_all_prefix)
qed

section \<open>The callback\<close>

definition upload_callback ::
  "(string \<Rightarrow> string \<Rightarrow> 's \<Rightarrow> unit res \<times> 's) \<Rightarrow> string \<Rightarrow> string \<Rightarrow> 's walk_fn" where
  "upload_callback put remoteRoot localDir filePath d err s =
     (case d of
        None \<Rightarrow> (Panic ''nil pointer dereference'', s)
      | Some info \<Rightarrow>
          if isDir info then (Ok (), s)
          else put filePath (remote_file_path remoteRoot localDir filePath) s)"

text \<open>The files among the visits of a walk, by their names below the root.\<close>

definition file_names :: "fsnode \<Rightarrow> string list list" where
  "file_names node =
     map fst (filter (\<lambda>(ns, d, err). \<exists>n. d = Some (FileInfo n)) (name_visits node))"

definition no_gone :: "fsnode \<Rightarrow> bool" where
  "no_gone node = (\<forall>(ns, d, err) \<in> set (name_visits node). d \<noteq> None)"

lemma file_names_distinct: "wf_tree node \<Longrightarrow> distinct (file_names node)"
  unfolding file_names_def by (rule distinct_map_filter) (rule distinct_name_visits)

lemma file_names_valid: "wf_tree node \<Longrightarrow> ns \<in> set (file_names node) \<Longrightarrow> \<forall>n \<in> set ns. valid_name n"
  by (auto simp: file_names_def dest: name_visits_valid(1))

text \<open>Without vanished entries the walk is the loop over the files.\<close>

lemma each_until_callback:
  assumes "\<forall>v \<in> set vs. fst (snd v) \<noteq> None"
  shows "each_until (at_visit (upload_callback put root p)) (map (\<lambda>(ns, v). (f ns, v)) vs) s =
     each_until (\<lambda>ns. put (f ns) (remote_file_path root p (f ns)))
       (map fst (filter (\<lambda>(ns, d, err). \<exists>n. d = Some (FileInfo n)) vs)) s"
  using assms
proof (induction vs arbitrary: s)
  case Nil
  then show ?case by simp
next
  case (Cons v vs)
  obtain ns d err where v: "v = (ns, d, err)" by (cases v) auto
  with Cons.prems obtain i where d: "d = Some i" by auto
  show ?case
    using Cons by (cases i) (auto simp: v d at_visit_def upload_callback_def split: prod.splits res.splits)
qed

lemma walk_uploads_files:
  assumes "wf_tree (lstat p)" and "no_gone (lstat p)"
  shows "filepath_Walk lstat (upload_callback put root p) p s =
     each_until (\<lambda>ns. put (entry_path p ns) (remote_file_path root p (entry_path p ns)))
       (file_names (lstat p)) s"
  unfolding filepath_Walk_visits visits_name_visits(1) [OF assms(1)] file_names_def
  by (rule each_until_callback) (use assms(2) in \<open>auto simp: no_gone_def\<close>)

lemma each_until_Ok_all:
  "each_until f xs s = (Ok u, s') \<Longrightarrow> x \<in> set xs \<Longrightarrow> \<exists>t t' v. f x t = (Ok v, t')"
  by (induction xs arbitrary: s) (auto split: prod.splits res.splits)

lemma walk_Ok_no_gone:
  assumes "wf_tree (lstat p)" and "filepath_Walk lstat (upload_callback put root p) p s = (Ok u, s')"
  shows "no_gone (lstat p)"
proof -
  have "d \<noteq> None" if v: "(ns, d, err) \<in> set (name_visits (lstat p))" for ns d err
  proof -
    have "(entry_path p ns, d, err) \<in> set (visits p (lstat p))"
      using v by (force simp: visits_name_visits(1) [OF assms(1)])
    from each_until_Ok_all [OF assms(2) [unfolded filepath_Walk_visits] this]
    show ?thesis by (auto simp: at_visit_def upload_callback_def split: option.splits)
  qed
  then show ?thesis by (auto simp: no_gone_def)
qed

text \<open>
  A loop of uploads that ends well: each successful \<open>put\<close> stores the content of its local file
  under its remote path and changes no other object, so what is added is what was sent, the
  last one under each name.
\<close>

lemma each_until_stores:
  assumes "each_until (\<lambda>x. put (loc x) (rem x)) xs s = (Ok u, s')"
    and put: "\<And>l r t t' v. put l r t = (Ok v, t') \<Longrightarrow>
        \<exists>d. content l = Some d \<and> stored t' = (stored t)(key r \<mapsto> d)"
  shows "stored s' = stored s ++ map_of (rev (map (\<lambda>x. (key (rem x), the (content (loc x)))) xs))"
  using assms(1)
proof (induction xs arbitrary: s)
  case (Cons y ys)
  then obtain v t where y: "put (loc y) (rem y) s = (Ok v, t)"
    and ys: "each_until (\<lambda>x. put (loc x) (rem x)) ys t = (Ok u, s')"
    by (auto split: prod.splits res.splits)
  from put [OF y] have t: "stored t = stored s ++ map_of [(key (rem y), the (content (loc y)))]" by auto
  show ?case
    unfolding Cons.IH [OF ys] t list.map rev.simps map_of_append map_add_assoc ..
qed simp

text \<open>
  The folder's own path does not occur again in the path of any of its files; then the
  remote paths are the intended ones, all different.
\<close>

definition folder_once :: "string \<Rightarrow> fsnode \<Rightarrow> bool" where
  "folder_once p node = (\<forall>ns \<in> set (file_names node). ns \<noteq> [] \<and> \<not> str_contains (below ns) p)"

definition file_content :: "(string \<Rightarrow> gerror + os_file) \<Rightarrow> string \<Rightarrow> string" where
  "file_content open_file p = (case open_file p of Inr f \<Rightarrow> f_data f | Inl e \<Rightarrow> [])"

definition all_readable :: "(string \<Rightarrow> gerror + os_file) \<Rightarrow> string \<Rightarrow> fsnode \<Rightarrow> bool" where
  "all_readable open_file p node =
     (\<forall>ns \<in> set (file_names node). \<not> isl (open_file (entry_path p ns)))"

text \<open>What a successful walk sends, in order: the key and the content of every file it lists.\<close>

definition sent ::
  "(string \<Rightarrow> 'k) \<Rightarrow> (string \<Rightarrow> gerror + os_file) \<Rightarrow> string \<Rightarrow> string \<Rightarrow> fsnode \<Rightarrow> ('k \<times> string) list" where
  "sent key opn root p node =
     map (\<lambda>ns. (key (remote_file_path root p (entry_path p ns)), file_content opn (entry_path p ns)))
       (file_names node)"

lemma walk_stores_sent:
  assumes walk: "filepath_Walk lstat (upload_callback put root p) p s = (Ok u, s')"
    and wf: "wf_tree (lstat p)"
    and put: "\<And>l r t t' v. put l r t = (Ok v, t') \<Longrightarrow>
        \<exists>f. opn l = Inr f \<and> stored t' = (stored t)(key r \<mapsto> f_data f)"
  shows "all_readable opn p (lstat p) \<and> stored s' = stored s ++ map_of (rev (sent key opn root p (lstat p)))"
proof -
  let ?rem = "\<lambda>ns. remote_file_path root p (entry_path p ns)"
  let ?content = "\<lambda>l. case opn l of Inr f \<Rightarrow> Some (f_data f) | Inl e \<Rightarrow> None"
  have loop: "each_until (\<lambda>ns. put (entry_path p ns) (?rem ns)) (file_names (lstat p)) s = (Ok u, s')"
    using walk walk_uploads_files [of lstat p put root s]
      walk_Ok_no_gone [of lstat p put root s u s'] wf by simp
  have put': "\<exists>d. ?content l = Some d \<and> stored t' = (stored t)(key r \<mapsto> d)"
    if "put l r t = (Ok v, t')" for l r t t' v using put [OF that] by auto
  have readable: "\<exists>f. opn (entry_path p ns) = Inr f" if "ns \<in> set (file_names (lstat p))" for ns
    using each_until_Ok_all [OF loop that] put by blast
  then have "map (\<lambda>ns. (key (?rem ns), the (?content (entry_path p ns)))) (file_names (lstat p))
      = sent key opn root p (lstat p)"
    unfolding sent_def by (intro map_cong) (fastforce simp: file_content_def)+
  with each_until_stores [where rem = ?rem and loc = "entry_path p" and put = put
      and content = ?content and stored = stored and key = key, OF loop put'] readable
  show ?thesis by (fastforce simp: all_readable_def)
qed

lemma walk_stores_files:
  assumes walk: "filepath_Walk lstat (upload_callback put root p) p s = (Ok u, s')"
    and wf: "wf_tree (lstat p)" and plain: "plain_folder p" and root: "root \<noteq> []"
    and once: "folder_once p (lstat p)"
    and put: "\<And>l r t t' v. put l r t = (Ok v, t') \<Longrightarrow>
        \<exists>f. opn l = Inr f \<and> stored t' = (stored t)(key r \<mapsto> f_data f)"
    and key: "\<And>es fs. normal_elems (is_rooted root) es \<Longrightarrow> normal_elems (is_rooted root) fs \<Longrightarrow>
        es \<noteq> [] \<Longrightarrow> fs \<noteq> [] \<Longrightarrow>
        key (mk_path (is_rooted root) es) = key (mk_path (is_rooted root) fs) \<Longrightarrow> es = fs"
  shows "all_readable opn p (lstat p) \<and> stored s' = stored s ++ map_of (map (\<lambda>ns.
      (key (mk_path (is_rooted root) (path_elems root @ ns)), file_content opn (entry_path p ns)))
      (file_names (lstat p)))"
proof -
  let ?rem = "\<lambda>ns. remote_file_path root p (entry_path p ns)"
  let ?files = "file_names (lstat p)"
  have files: "\<forall>n \<in> set ms. valid_name n" "ms \<noteq> []" "\<not> str_contains (below ms) p"
    if "ms \<in> set ?files" for ms
    using that wf once by (auto simp: folder_once_def dest: file_names_valid)
  have rem: "?rem ms = mk_path (is_rooted root) (path_elems root @ ms)"
    "normal_elems (is_rooted root) (path_elems root @ ms)" if "ms \<in> set ?files" for ms
    using remote_file_path_intended [OF plain files(2,1,3) [OF that] root]
      normal_elems_append_names [OF normal_path_elems] files(1) [OF that] by auto
  have "inj_on (\<lambda>ns. key (?rem ns)) (set ?files)"
  proof (rule inj_onI)
    fix a b assume "a \<in> set ?files" "b \<in> set ?files" "key (?rem a) = key (?rem b)"
    then have "path_elems root @ a = path_elems root @ b"
      by (intro key) (use rem files(2) in auto)
    then show "a = b" by simp
  qed
  then have "distinct (map fst (sent key opn root p (lstat p)))"
    using file_names_distinct [OF wf] by (simp add: sent_def distinct_map comp_def)
  moreover have "sent key opn root p (lstat p) = map (\<lambda>ns.
      (key (mk_path (is_rooted root) (path_elems root @ ns)), file_content opn (entry_path p ns))) ?files"
    unfolding sent_def by (rule map_cong) (auto simp: rem)
  ultimately show ?thesis
    using walk_stores_sent [where stored = stored and key = key and opn = opn, OF walk wf put]
    by (simp add: map_of_rev_distinct)
qed

text \<open>When every upload of a file succeeds the walk succeeds.\<close>

lemma walk_succeeds:
  assumes "wf_tree (lstat p)" and "no_gone (lstat p)"
    and "\<And>ns r t. ns \<in> set (file_names (lstat p)) \<Longrightarrow> fst (put (entry_path p ns) r t) = Ok ()"
  shows "fst (filepath_Walk lstat (upload_callback put root p) p s) = Ok ()"
  unfolding walk_uploads_files [where lstat = lstat and p = p, OF assms(1,2)]
  by (rule each_until_all_Ok) (rule assms(3))

text \<open>The files whose reads never fail.\<close>

definition all_sound :: "(string \<Rightarrow> gerror + os_file) \<Rightarrow> string \<Rightarrow> fsnode \<Rightarrow> bool" where
  "all_sound open_file p node =
     (\<forall>ns \<in> set (file_names node).
        case open_file (entry_path p ns) of Inr f \<Rightarrow> f_fault f = None | Inl e \<Rightarrow> False)"

lemma all_soundE:
  assumes "all_sound open_file p node" and "ns \<in> set (file_names node)"
  obtains f where "open_file (entry_path p ns) = Inr f" "f_fault f = None"
  using assms unfolding all_sound_def
  by (cases "open_file (entry_path p ns)") (force dest: bspec)+

section \<open>Directories that cannot be listed\<close>

text \<open>The tree in which a directory whose listing fails is an empty directory.\<close>

fun forget_errors :: "fsnode \<Rightarrow> fsnode"
  and forget_errors_entries :: "(string \<times> fsnode) list \<Rightarrow> (string \<times> fsnode) list"
where
  "forget_errors (FDirErr e) = FDir []"
| "forget_errors (FDir es) = FDir (forget_errors_entries es)"
| "forget_errors (FFile n) = FFile n"
| "forget_errors (FGone e) = FGone e"
| "forget_errors_entries [] = []"
| "forget_errors_entries ((name, node) # es) = (name, forget_errors node) # forget_errors_entries es"

lemma walk_forget_errors:
  assumes "\<And>path e s. fn path (Some DirInfo) (Some e) s = fn path (Some DirInfo) None s"
    and "\<And>path s. fn path (Some DirInfo) None s = (Ok (), s)"
  shows "walk fn path (forget_errors node) s = walk fn path node s"
    and "walk_entries fn path (forget_errors_entries es) s = walk_entries fn path es s"
  using assms
  by (induction fn path node s and fn path es s rule: walk_walk_entries.induct)
    (auto split: prod.splits res.splits)

lemma upload_walk_forget_errors:
  "walk (upload_callback put root p) path (forget_errors node) s
   = walk (upload_callback put root p) path node s"
  by (rule walk_forget_errors) (simp_all add: upload_callback_def)

lemma upload_walk_missing:
  "lstat p = FGone e \<Longrightarrow>
     filepath_Walk lstat (upload_callback put root p) p s = (Panic ''nil pointer dereference'', s)"
  by (simp add: filepath_Walk_def upload_callback_def)

section \<open>Callbacks that stop at errors\<close>

text \<open>A tree in which every entry and every listing could be read.\<close>

definition clean_tree :: "fsnode \<Rightarrow> bool" where
  "clean_tree node = (\<forall>(ns, d, err) \<in> set (name_visits node). d \<noteq> None \<and> err = None)"

lemma each_until_files:
  assumes "\<And>p s. fn p (Some DirInfo) None s = (Ok (), s)"
    and "\<And>p n s. fn p (Some (FileInfo n)) None s = put p s"
    and "\<forall>(ns, d, err) \<in> set vs. d \<noteq> None \<and> err = None"
  shows "each_until (at_visit fn) (map (\<lambda>(ns, v). (f ns, v)) vs) s =
     each_until (\<lambda>ns. put (f ns)) (map fst (filter (\<lambda>(ns, d, err). \<exists>n. d = Some (FileInfo n)) vs)) s"
  using assms(3)
proof (induction vs arbitrary: s)
  case (Cons v vs)
  obtain ns d err where v: "v = (ns, d, err)" by (cases v) auto
  with Cons.prems obtain i where d: "d = Some i" "err = None" by auto
  show ?case
    using Cons by (cases i) (auto simp: v d at_visit_def assms(1,2) split: prod.splits res.splits)
qed simp

lemma walk_files:
  assumes "\<And>p s. fn p (Some DirInfo) None s = (Ok (), s)"
    and "\<And>p n s. fn p (Some (FileInfo n)) None s = put p s"
    and "wf_tree (lstat p)" and "clean_tree (lstat p)"
  shows "filepath_Walk lstat fn p s = each_until (\<lambda>ns. put (entry_path p ns)) (file_names (lstat p)) s"
  unfolding filepath_Walk_visits visits_name_visits(1) [OF assms(3)] file_names_def
  by (rule each_until_files) (use assms in \<open>auto simp: clean_tree_def\<close>)

lemma walk_Ok_clean:
  assumes "wf_tree (lstat p)" and "filepath_Walk lstat fn p s = (Ok u, s')"
    and "\<And>q d e s. fst (fn q d (Some e) s) \<noteq> Ok ()" and "\<And>q e s. fst (fn q None e s) \<noteq> Ok ()"
  shows "clean_tree (lstat p)"
proof -
  have "d \<noteq> None \<and> err = None" if v: "(ns, d, err) \<in> set (name_visits (lstat p))" for ns d err
  proof -
    have "(entry_path p ns, d, err) \<in> set (visits p (lstat p))"
      using v by (force simp: visits_name_visits(1) [OF assms(1)])
    from each_until_Ok_all [OF assms(2) [unfolded filepath_Walk_visits] this]
    obtain t t' where "fn (entry_path p ns) d err t = (Ok (), t')" by (auto simp: at_visit_def)
    then have "fst (fn (entry_path p ns) d err t) = Ok ()" by simp
    then show ?thesis using assms(3,4) by (cases d; cases err) metis+
  qed
  then show ?thesis by (auto simp: clean_tree_def)
qed

section \<open>A sample folder\<close>

definition sample_tree :: fsnode where
  "sample_tree = FDir [(''a'', FFile 3), (''logs'', FDir [(''b'', FFile 4)])]"

lemma sample_tree_ok:
  "wf_tree sample_tree" "plain_folder ''/var/db''" "folder_once ''/var/db'' sample_tree"
  "file_names sample_tree = [[''a''], [''logs'', ''b'']]" "no_gone sample_tree"
  "clean_tree sample_tree" "all_sound path_file p sample_tree"
  by (simp_all add: sample_tree_def valid_name_def plain_folder_def folder_once_def file_names_def
      below_def no_gone_def clean_tree_def all_sound_def path_file_def path_eval sublist_Cons_right)

end
