(* ===== verification/Remote_Path.thy ===== *)
theory Remote_Path
  imports Backup_World
begin

text \<open>
  The remote path of a backup (\<open>src/upload/remote_path.go\<close>): the closure that
  \<open>RemotePathFunc\<close> returns reads the clock each time it is called.  The lemmas say that the
  path of a day is the base path, the deployment name and the date as path elements, that
  different days have different paths, and that the paths sort chronologically.
\<close>

type_synonym 'x path_fn = "'x world \<Rightarrow> string \<times> 'x world"

section \<open>The path of a date\<close>

definition datePath :: "date \<Rightarrow> string" where
  "datePath d = int_dec (year d) @ ''/'' @ pad0 2 (nat_dec (month d)) @ ''/'' @ pad0 2 (nat_dec (day d))"

definition pathPrefix :: "string \<Rightarrow> string \<Rightarrow> string" where
  "pathPrefix basePath deploymentName =
     (if basePath \<noteq> [] then basePath @ ''/'' else [])
     @ (if deploymentName \<noteq> [] then deploymentName @ ''/'' else [])"

definition remotePathOn :: "string \<Rightarrow> string \<Rightarrow> date \<Rightarrow> string" where
  "remotePathOn basePath deploymentName d = pathPrefix basePath deploymentName @ datePath d"

definition RemotePathFunc :: "'x env \<Rightarrow> string \<Rightarrow> string \<Rightarrow> 'x path_fn" where
  "RemotePathFunc E basePath deploymentName w =
     (case time_Now E w of
        (today, w') \<Rightarrow> (remotePathOn basePath deploymentName (t_date today), w'))"

lemma RemotePathFunc_frame [simp, frame]:
  "fst (RemotePathFunc E b n w) = remotePathOn b n (t_date (e_clock E (w_now w)))"
  "snd (RemotePathFunc E b n w) = w\<lparr>w_now := Suc (w_now w)\<rparr>"
  by (simp_all add: RemotePathFunc_def time_Now_def)

section \<open>Elements, order and injectivity\<close>

lemma int_dec_no_slash [simp]: "slash \<notin> set (int_dec y)"
  by (auto simp: int_dec_def dest: no_slash_digits [OF is_digits_nat_dec, THEN notE])

lemma int_dec_inj: "int_dec y = int_dec z \<longleftrightarrow> y = z"
proof
  have d: "CHR ''-'' \<notin> set (nat_dec n)" for n
    by (rule no_char_is_digits [OF is_digits_nat_dec]) auto
  assume eq: "int_dec y = int_dec z"
  then have "(y < 0) = (z < 0)"
    using d by (auto simp: int_dec_def split: if_splits) (metis list.set_intros(1))+
  with eq show "y = z" by (auto simp: int_dec_def nat_dec_inj split: if_splits)
qed simp

lemma two_digits: "n \<le> 31 \<Longrightarrow> length (pad0 2 (nat_dec n)) = 2"
  by (rule length_pad0_nat_dec) auto

lemma four_digits: "1000 \<le> n \<Longrightarrow> n \<le> 9999 \<Longrightarrow> length (nat_dec n) = 4"
proof -
  assume "1000 \<le> n" "n \<le> 9999"
  then have n: "length (nat_dec n) \<le> 4" using length_nat_dec_le [of n 4] by simp
  have "n < 10 ^ length (nat_dec n)"
    using dec_val_bound [of "nat_dec n"] by (simp add: dec_val_nat_dec)
  moreover have "(10::nat) ^ length (nat_dec n) \<le> 10 ^ 3" if "length (nat_dec n) \<le> 3"
    using that by (intro power_increasing) auto
  ultimately have "\<not> length (nat_dec n) \<le> 3" using \<open>1000 \<le> n\<close> by force
  with n show ?thesis by simp
qed

definition plain_date :: "date \<Rightarrow> bool" where
  "plain_date d = (valid_date d \<and> 1000 \<le> year d \<and> year d \<le> 9999)"

lemma pad0_less_iff:
  "m \<le> 31 \<Longrightarrow> n \<le> 31 \<Longrightarrow> pad0 2 (nat_dec m) < pad0 2 (nat_dec n) \<longleftrightarrow> m < n"
  by (simp add: digits_less_iff two_digits dec_val_pad0 dec_val_nat_dec del: length_pad0)

lemma year_less_iff:
  assumes "1000 \<le> y" "y \<le> 9999" "1000 \<le> z" "z \<le> 9999"
  shows "int_dec y < int_dec z \<longleftrightarrow> y < z" "int_dec y = int_dec z \<longleftrightarrow> y = z"
    "length (int_dec y) = 4"
proof -
  have "1000 \<le> nat y" "nat y \<le> 9999" "1000 \<le> nat z" "nat z \<le> 9999"
    using assms by (auto simp: nat_le_eq_zle)
  then show "length (int_dec y) = 4" using assms by (simp add: int_dec_def four_digits)
  show "int_dec y < int_dec z \<longleftrightarrow> y < z"
    using assms \<open>1000 \<le> nat y\<close> \<open>nat y \<le> 9999\<close> \<open>1000 \<le> nat z\<close> \<open>nat z \<le> 9999\<close>
    by (simp add: int_dec_def digits_less_iff four_digits dec_val_nat_dec)
  show "int_dec y = int_dec z \<longleftrightarrow> y = z"
    by (rule int_dec_inj)
qed

lemma datePath_less_iff:
  assumes "plain_date a" and "plain_date b"
  shows "datePath a < datePath b \<longleftrightarrow> a < b"
proof -
  have m: "month a \<le> 31" "month b \<le> 31" "day a \<le> 31" "day b \<le> 31"
    using assms by (auto simp: plain_date_def valid_date_def)
  have ys: "1000 \<le> year a" "year a \<le> 9999" "1000 \<le> year b" "year b \<le> 9999"
    using assms by (auto simp: plain_date_def)
  show ?thesis
    using m year_less_iff [OF ys] year_less_iff [OF ys(3,4,1,2)]
    by (simp add: datePath_def less_date_def append_less_iff_equal_length two_digits
        pad0_less_iff pad0_nat_dec_inj del: length_pad0)
qed

lemma append_less_same: "(s :: string) @ u < s @ v \<longleftrightarrow> u < v"
  by (induction s) auto

lemma str_split_datePath:
  "str_split slash (datePath d) =
     [int_dec (year d), pad0 2 (nat_dec (month d)), pad0 2 (nat_dec (day d))]"
  by (simp add: datePath_def str_split_append_sep str_split_no_sep)

lemma datePath_inj: "datePath a = datePath b \<longleftrightarrow> a = b"
proof
  assume "datePath a = datePath b"
  then have "str_split slash (datePath a) = str_split slash (datePath b)" by simp
  then show "a = b"
    by (simp add: str_split_datePath int_dec_inj pad0_nat_dec_inj date.expand)
qed simp

lemma digits_valid_name: "is_digits s \<Longrightarrow> s \<noteq> [] \<Longrightarrow> valid_name s"
  by (auto simp: valid_name_def is_digits_def)

lemma remotePathOn_elems: "path_elems (remotePathOn b n d) \<noteq> []"
proof -
  have "valid_name (pad0 2 (nat_dec (day d)))"
    by (rule digits_valid_name) (auto simp flip: length_0_conv)
  then show ?thesis unfolding path_elems_def
    by (intro clean_elems_last_name)
      (simp_all add: remotePathOn_def pathPrefix_def str_split_append str_split_datePath)
qed

section \<open>Properties\<close>

text \<open>C35: For one base path and deployment name, different days have different remote paths: a
  backup never goes to the path of another day.\<close>

theorem remotePathOn_inj: "remotePathOn b n d = remotePathOn b n d' \<longleftrightarrow> d = d'"
  by (simp add: remotePathOn_def datePath_inj)

text \<open>Remote paths sort by date: with four-digit years the byte order of two remote paths
  below one base path and deployment name is the order of their days.\<close>

lemma remotePathOn_chronological:
  assumes "plain_date a" and "plain_date b"
  shows "remotePathOn base dep a < remotePathOn base dep b \<longleftrightarrow> a < b"
  using datePath_less_iff [OF assms] by (simp add: remotePathOn_def append_less_same)

text \<open>The elements of the remote path are those of the base path, those of the deployment name
  and the year, the two-digit month and the two-digit day of the clock reading at the call,
  an empty base path or deployment name adding nothing.\<close>

lemma RemotePathFunc_elements:
  "str_split slash (fst (RemotePathFunc E base dep w)) =
     (if base = [] then [] else str_split slash base)
     @ (if dep = [] then [] else str_split slash dep)
     @ (let d = t_date (e_clock E (w_now w)) in
        [int_dec (year d), pad0 2 (nat_dec (month d)), pad0 2 (nat_dec (day d))])"
  by (simp add: remotePathOn_def pathPrefix_def str_split_append str_split_datePath Let_def)

end
