(* ===== verification/S3_Client.thy ===== *)
theory S3_Client
  imports Tree_Upload Remote_Path
begin

text \<open>
  The S3 client (\<open>src/s3/s3.go\<close>): the command line of the AWS CLI, the creation of the
  SDK client, the check and the creation of the bucket, the upload of a file and of a
  folder.  The AWS SDK is a parameter (\<open>s3_api\<close>).  The field \<open>ProcessMgr\<close> is left out:
  \<open>Upload\<close> sets it and no function of this file reads it; the test client, which does, has it
  as a field of its own (\<open>S3_Test_Client\<close>).
\<close>

section \<open>The SDK as a parameter\<close>

text \<open>The settings of an SDK client; \<open>None\<close> is the default endpoint.\<close>

record sdk_client =
  sdk_region :: string
  sdk_accessKey :: string
  sdk_secretKey :: string
  sdk_endpoint :: "string option"

text \<open>The error of \<open>HeadBucket\<close> by what \<open>errors.As\<close> and the type switch make of it.\<close>

datatype head_error = HeadNotFound gerror | HeadAPIError gerror | HeadOther gerror

record 'x s3_api =
  api_loadConfig :: "sdk_client \<Rightarrow> 'x \<Rightarrow> gerror option \<times> 'x"
  api_headBucket :: "sdk_client \<Rightarrow> string \<Rightarrow> 'x \<Rightarrow> head_error option \<times> 'x"
  api_createBucket :: "sdk_client \<Rightarrow> string \<Rightarrow> string \<Rightarrow> 'x \<Rightarrow> gerror option \<times> 'x"
  api_putObject :: "sdk_client \<Rightarrow> string \<Rightarrow> string \<Rightarrow> string \<Rightarrow> 'x \<Rightarrow> gerror option \<times> 'x"

section \<open>The client\<close>

record 'x s3_client =
  s3_name :: string
  s3_awsCmdPath :: string
  s3_accessKey :: string
  s3_secretKey :: string
  s3_endpointURL :: string
  s3_region :: string
  s3_caCertPath :: string
  s3_remotePathFn :: "'x path_fn"

definition S3_New ::
  "string \<Rightarrow> string \<Rightarrow> string \<Rightarrow> string \<Rightarrow> string \<Rightarrow> string \<Rightarrow> string \<Rightarrow> 'x path_fn \<Rightarrow> 'x s3_client" where
  "S3_New name awsCmdPath endpointURL region accessKey secretKey caCertPath remotePathFn =
     \<lparr>s3_name = name, s3_awsCmdPath = awsCmdPath, s3_accessKey = accessKey,
      s3_secretKey = secretKey, s3_endpointURL = endpointURL, s3_region = region,
      s3_caCertPath = caCertPath, s3_remotePathFn = remotePathFn\<rparr>"

definition S3Cmd :: "'x s3_client \<Rightarrow> string list \<Rightarrow> cmd" where
  "S3Cmd c args =
     (exec_Command (s3_awsCmdPath c)
       ((if s3_endpointURL c \<noteq> [] then [''--endpoint-url'', s3_endpointURL c] else [])
        @ (if s3_region c \<noteq> [] then [''--region'', s3_region c] else [])
        @ [''s3''] @ args))
     \<lparr>cmd_env := [''AWS_ACCESS_KEY_ID='' @ s3_accessKey c, ''AWS_SECRET_ACCESS_KEY='' @ s3_secretKey c]\<rparr>"

text \<open>\<open>strings.Split(path, "/")[0]\<close> and the rest joined again.\<close>

definition bucketOf :: "string \<Rightarrow> string" where
  "bucketOf path = hd (str_split slash path)"

definition keyOf :: "string \<Rightarrow> string" where
  "keyOf path = str_join [slash] (tl (str_split slash path))"

definition bucketExists ::
  "'x s3_api \<Rightarrow> sdk_client \<Rightarrow> string \<Rightarrow> 'x world \<Rightarrow> bool res \<times> 'x world" where
  "bucketExists A client fullRemoteFilePath w =
     (case on_ext (api_headBucket A client (bucketOf fullRemoteFilePath)) w of
        (None, w1) \<Rightarrow> (Ok True, w1)
      | (Some (HeadNotFound e), w1) \<Rightarrow> (Ok False, w1)
      | (Some (HeadAPIError e), w1) \<Rightarrow> (Err (''bucketExists: api error, '' @ e), w1)
      | (Some (HeadOther e), w1) \<Rightarrow> (Err (''bucketExists: error listing objects, '' @ e), w1))"

definition createBucket ::
  "'x s3_api \<Rightarrow> 'x s3_client \<Rightarrow> sdk_client \<Rightarrow> string \<Rightarrow> 'x world \<Rightarrow> unit res \<times> 'x world" where
  "createBucket A c client remotePath w =
     (case on_ext (api_createBucket A client (bucketOf remotePath) (s3_region c)) w of
        (err, w1) \<Rightarrow> (res_of_error err, w1))"

definition CreateBucketIfNeeded ::
  "'x s3_api \<Rightarrow> 'x s3_client \<Rightarrow> sdk_client \<Rightarrow> string \<Rightarrow> logger \<Rightarrow> 'x world \<Rightarrow> unit res \<times> 'x world" where
  "CreateBucketIfNeeded A c client remotePath lg w =
     (case bucketExists A client remotePath
             (log_info lg ''Checking for remote path'' [(''remotePath'', LText remotePath)] w) of
        (Panic m, w1) \<Rightarrow> (Panic m, w1)
      | (Err e, w1) \<Rightarrow> (Err e, w1)
      | (Ok True, w1) \<Rightarrow> (Ok (), w1)
      | (Ok False, w1) \<Rightarrow>
          (case createBucket A c client remotePath
                  (log_info lg ''Checking for remote path - remote path does not exist - making it now'' [] w1) of
             (Panic m, w2) \<Rightarrow> (Panic m, w2)
           | (Err e, w2) \<Rightarrow>
               (Err e, if str_contains e ''AccessDenied''
                       then log_error lg ''Configured S3 user unable to create buckets'' e w2 else w2)
           | (Ok _, w2) \<Rightarrow>
               (Ok (), log_info lg ''Checking for remote path - remote path created ok'' [] w2)))"

definition CreateS3Client ::
  "'x s3_api \<Rightarrow> logger \<Rightarrow> string \<Rightarrow> string \<Rightarrow> string \<Rightarrow> string \<Rightarrow> 'x world \<Rightarrow> sdk_client res \<times> 'x world" where
  "CreateS3Client A lg accessKey secretKey endpointURL region w =
     (let w1 = (if length region = 0
                then log_info lg ''CreateS3Client: ===warning=== region is empty. therefore using default region us-west-2'' [] w
                else w);
          region' = (if length region = 0 then ''us-west-2'' else region);
          w2 = (if length endpointURL = 0 then w1
                else log_info lg ''using a custom endpoint is deprecated with the aws sdk'' [] w1);
          client = \<lparr>sdk_region = region', sdk_accessKey = accessKey, sdk_secretKey = secretKey,
                    sdk_endpoint = (if length endpointURL = 0 then None else Some endpointURL)\<rparr>
      in case on_ext (api_loadConfig A client) w2 of
           (Some e, w3) \<Rightarrow> (Err (''UploadDir: failed to load SDK configuration, '' @ e), w3)
         | (None, w3) \<Rightarrow> (Ok client, w3))"

definition S3_UploadFile ::
  "'x env \<Rightarrow> 'x s3_api \<Rightarrow> logger \<Rightarrow> sdk_client \<Rightarrow> string \<Rightarrow> string \<Rightarrow> 'x world \<Rightarrow> unit res \<times> 'x world" where
  "S3_UploadFile E A lg client localFilePath fullRemoteFilePath w =
     (let bucketName = bucketOf fullRemoteFilePath;
          remotePath = keyOf fullRemoteFilePath;
          w1 = log_info lg (''S3 putting local file: '' @ localFilePath @ '' into bucket '' @ bucketName
                 @ '' with remote file: '' @ remotePath @ '' '') [] w
      in case os_ReadFile (e_open E) localFilePath of
           Inl e \<Rightarrow> (Err (''UploadFile: failed to read local file path: '' @ e), w1)
         | Inr body \<Rightarrow>
             (case on_ext (api_putObject A client bucketName remotePath body) w1 of
                (Some e, w2) \<Rightarrow> (Err (''UploadFile: failed to put object: '' @ e), w2)
              | (None, w2) \<Rightarrow> (Ok (), w2)))"

definition S3_UploadDir ::
  "'x env \<Rightarrow> 'x s3_api \<Rightarrow> sdk_client \<Rightarrow> logger \<Rightarrow> string \<Rightarrow> string \<Rightarrow> 'x world \<Rightarrow> unit res \<times> 'x world" where
  "S3_UploadDir E A client lg localDir remotePath w =
     (case filepath_Walk (e_lstat E)
             (\<lambda>filePath d err w.
                case d of
                  None \<Rightarrow> (Panic ''nil pointer dereference'', w)
                | Some info \<Rightarrow>
                    if isDir info then (Ok (), w)
                    else let relativeFilePath = str_remove_all localDir filePath;
                             remoteFilePath = filepath_Join [remotePath, relativeFilePath]
                         in S3_UploadFile E A lg client filePath remoteFilePath w)
             localDir w of
        (r, w1) \<Rightarrow> (map_err (\<lambda>e. ''UploadDir: failed to walk dir, '' @ e) r, w1))"

text \<open>\<open>Upload\<close>; the deferred log line is written last, on every way out.\<close>

definition S3_Upload_body ::
  "'x env \<Rightarrow> 'x s3_api \<Rightarrow> 'x s3_client \<Rightarrow> string \<Rightarrow> logger \<Rightarrow> 'x world \<Rightarrow> unit res \<times> 'x world" where
  "S3_Upload_body E A c localPath lg w =
     (case s3_remotePathFn c w of
        (remotePath, w1) \<Rightarrow>
          (case CreateS3Client A lg (s3_accessKey c) (s3_secretKey c) (s3_endpointURL c) (s3_region c)
                  (log_info lg (''about to upload '' @ localPath @ '' to S3 remote path '' @ remotePath) [] w1) of
             (Panic m, w2) \<Rightarrow> (Panic m, w2)
           | (Err e, w2) \<Rightarrow> (Err (''upload: couldn't create client: '' @ e), w2)
           | (Ok client, w2) \<Rightarrow>
               (case CreateBucketIfNeeded A c client remotePath lg w2 of
                  (Panic m, w3) \<Rightarrow> (Panic m, w3)
                | (Err e, w3) \<Rightarrow> (Err e, w3)
                | (Ok _, w3) \<Rightarrow> S3_UploadDir E A client lg localPath remotePath w3)))"

definition S3_Upload :: "'x env \<Rightarrow> 'x s3_api \<Rightarrow> 'x s3_client \<Rightarrow> 'x upload_fn" where
  "S3_Upload E A c localPath lg pm w =
     (case S3_Upload_body E A c localPath lg w of
        (r, w1) \<Rightarrow> (r, log_info lg ''s3 completed'' [] w1))"

definition S3_Name :: "'x s3_client \<Rightarrow> string" where
  "S3_Name c = s3_name c"

section \<open>The callback is the shared one\<close>

lemma S3_UploadDir_callback:
  "S3_UploadDir E A client lg localDir remotePath w =
     (case filepath_Walk (e_lstat E)
             (upload_callback (S3_UploadFile E A lg client) remotePath localDir) localDir w of
        (r, w1) \<Rightarrow> (map_err (\<lambda>e. ''UploadDir: failed to walk dir, '' @ e) r, w1))"
proof -
  have "(\<lambda>filePath d err w.
      case d of
        None \<Rightarrow> (Panic ''nil pointer dereference'', w)
      | Some info \<Rightarrow>
          if isDir info then (Ok (), w)
          else let relativeFilePath = str_remove_all localDir filePath;
                   remoteFilePath = filepath_Join [remotePath, relativeFilePath]
               in S3_UploadFile E A lg client filePath remoteFilePath w)
      = upload_callback (S3_UploadFile E A lg client) remotePath localDir"
    by (intro ext) (simp add: upload_callback_def remote_file_path_def Let_def split: option.splits)
  then show ?thesis by (simp add: S3_UploadDir_def)
qed

section \<open>The client only extends the histories\<close>

lemma bucketExists_grows: "world_grows w (snd (bucketExists A client p w))"
  by (auto simp: bucketExists_def split: prod.splits option.splits head_error.splits
      dest: world_grows_result(4))

lemma createBucket_grows: "world_grows w (snd (createBucket A c client p w))"
  by (auto simp: createBucket_def split: prod.splits dest: world_grows_result(4))

lemma S3_UploadFile_grows: "world_grows w (snd (S3_UploadFile E A lg client l r w))"
  by (auto simp: S3_UploadFile_def Let_def split: prod.splits option.splits sum.splits
      intro: grows_intros dest: world_grows_result(4) [OF _ world_grows_log(1) [OF world_grows_refl]])

lemma CreateBucketIfNeeded_grows: "world_grows w (snd (CreateBucketIfNeeded A c client p lg w))"
  by (auto simp: CreateBucketIfNeeded_def split: prod.splits res.splits bool.splits
      elim!: world_grows_via [OF bucketExists_grows] world_grows_via [OF createBucket_grows]
      intro!: grows_intros)

lemma CreateS3Client_grows: "world_grows w (snd (CreateS3Client A lg a s e r w))"
  by (auto simp: CreateS3Client_def Let_def split: prod.splits option.splits
      elim!: world_grows_result(4) intro!: grows_intros)

lemma S3_UploadDir_grows: "world_grows w (snd (S3_UploadDir E A client lg l r w))"
proof -
  have "world_grows w (snd (filepath_Walk (e_lstat E)
      (upload_callback (S3_UploadFile E A lg client) r l) l w))"
    by (rule walk_grows) (auto simp: upload_callback_def S3_UploadFile_grows split: option.splits)
  then show ?thesis by (auto simp: S3_UploadDir_callback split: prod.splits)
qed

lemma S3_Upload_body_grows:
  assumes "\<And>v. world_grows v (snd (s3_remotePathFn c v))"
  shows "world_grows w (snd (S3_Upload_body E A c l lg w))"
  by (auto simp: S3_Upload_body_def split: prod.splits res.splits
      elim!: world_grows_via [OF CreateS3Client_grows] world_grows_via [OF CreateBucketIfNeeded_grows]
        world_grows_via [OF assms]
      intro!: grows_intros world_grows_then [OF S3_UploadDir_grows])

lemma S3_Upload_grows:
  assumes "\<And>v. world_grows v (snd (s3_remotePathFn c v))"
  shows "world_grows w (snd (S3_Upload E A c l lg pm w))"
  by (auto simp: S3_Upload_def split: prod.splits
      elim!: world_grows_via [OF S3_Upload_body_grows [OF assms]] intro!: grows_intros)

section \<open>Where the objects go\<close>

text \<open>
  The hypothesis on the SDK, its documented behaviour: an upload that reports no error has
  stored the body under the bucket and the key and has changed no other object.
\<close>

definition s3_stores :: "'x s3_api \<Rightarrow> ('x \<Rightarrow> string \<times> string \<rightharpoonup> string) \<Rightarrow> bool" where
  "s3_stores A objs =
     (\<forall>client b k body x x'. api_putObject A client b k body x = (None, x') \<longrightarrow>
        objs x' = (objs x)((b, k) \<mapsto> body))"

text \<open>The other calls change no object: they look at a bucket or make an empty one.\<close>

definition s3_keeps :: "'x s3_api \<Rightarrow> ('x \<Rightarrow> string \<times> string \<rightharpoonup> string) \<Rightarrow> bool" where
  "s3_keeps A objs =
     ((\<forall>client x. objs (snd (api_loadConfig A client x)) = objs x)
      \<and> (\<forall>client b x. objs (snd (api_headBucket A client b x)) = objs x)
      \<and> (\<forall>client b r x. objs (snd (api_createBucket A client b r x)) = objs x))"

text \<open>An SDK that never fails.\<close>

definition s3_reliable :: "'x s3_api \<Rightarrow> bool" where
  "s3_reliable A =
     ((\<forall>client x. fst (api_loadConfig A client x) = None)
      \<and> (\<forall>client b x. \<forall>e. fst (api_headBucket A client b x) \<noteq> Some (HeadAPIError e)
            \<and> fst (api_headBucket A client b x) \<noteq> Some (HeadOther e))
      \<and> (\<forall>client b r x. fst (api_createBucket A client b r x) = None)
      \<and> (\<forall>client b k body x. fst (api_putObject A client b k body x) = None))"

lemma S3_UploadFile_stores:
  assumes "s3_stores A objs" and "S3_UploadFile E A lg client l r w = (Ok v, w')"
  shows "\<exists>f. e_open E l = Inr f
    \<and> objs (w_ext w') = (objs (w_ext w))((bucketOf r, keyOf r) \<mapsto> f_data f)"
proof -
  from assms(2) obtain body where body: "os_ReadFile (e_open E) l = Inr body"
    by (auto simp: S3_UploadFile_def Let_def split: sum.splits)
  with assms(2) have "fst (api_putObject A client (bucketOf r) (keyOf r) body (w_ext w)) = None"
    and "w_ext w' = snd (api_putObject A client (bucketOf r) (keyOf r) body (w_ext w))"
    by (auto simp: S3_UploadFile_def Let_def on_ext_def split: prod.splits option.splits)
  then have "objs (w_ext w') = (objs (w_ext w))((bucketOf r, keyOf r) \<mapsto> body)"
    using assms(1) by (auto simp: s3_stores_def prod_eq_iff)
  with os_ReadFile_Inr [OF body] show ?thesis by auto
qed

lemma bucketOf_mk_path:
  "normal_elems False es \<Longrightarrow> es \<noteq> [] \<Longrightarrow> bucketOf (mk_path False es) = hd es"
  by (simp add: bucketOf_def mk_path_def str_split_join_normal)

lemma keyOf_mk_path:
  "normal_elems False es \<Longrightarrow> es \<noteq> [] \<Longrightarrow> keyOf (mk_path False es) = str_join [slash] (tl es)"
  by (simp add: keyOf_def mk_path_def str_split_join_normal)

lemma normal_elems_tl_nonempty:
  assumes "normal_elems r es" and "tl es \<noteq> []"
  shows "str_join [slash] (tl es) \<noteq> []"
proof (rule str_join_nonempty)
  have "hd (tl es) \<in> set es" using assms(2) by (cases es; cases "tl es") auto
  then show "hd (tl es) \<noteq> []" using normal_elems_elem [OF assms(1)] by blast
qed (fact assms(2))

lemma bucket_key_inj:
  assumes "normal_elems False es" "normal_elems False fs" "es \<noteq> []" "fs \<noteq> []"
    and "(bucketOf (mk_path False es), keyOf (mk_path False es))
       = (bucketOf (mk_path False fs), keyOf (mk_path False fs))"
  shows "es = fs"
proof -
  have sp: "str_split slash (str_join [slash] (tl xs)) = tl xs"
    if "normal_elems False xs" "tl xs \<noteq> []" for xs
    using that by (intro str_split_join) (auto dest: normal_elems_elem [OF _ list.set_sel(2)])
  have k: "str_join [slash] (tl es) = str_join [slash] (tl fs)" and h: "hd es = hd fs"
    using assms by (simp_all add: bucketOf_mk_path keyOf_mk_path)
  have "tl es = tl fs"
  proof (cases "tl es = [] \<or> tl fs = []")
    case True
    with k show ?thesis
      using normal_elems_tl_nonempty [OF assms(1)] normal_elems_tl_nonempty [OF assms(2)] by fastforce
  next
    case False
    then show ?thesis using k sp [OF assms(1)] sp [OF assms(2)] by metis
  qed
  with h assms(3,4) show ?thesis by (metis list.collapse)
qed

text \<open>
  The specification of an upload: the folder as a list of objects, each file under the
  bucket (the first element of the remote path) and the key (the other elements and the
  names below the folder).
\<close>

definition s3_objects :: "'x env \<Rightarrow> string \<Rightarrow> string \<Rightarrow> ((string \<times> string) \<times> string) list" where
  "s3_objects E localDir remotePath =
     map (\<lambda>ns. ((hd (path_elems remotePath), str_join [slash] (tl (path_elems remotePath) @ ns)),
                file_content (e_open E) (entry_path localDir ns)))
       (file_names (e_lstat E localDir))"

lemma S3_UploadDir_stores:
  assumes "s3_stores A objs" and up: "S3_UploadDir E A client lg localDir remotePath w = (Ok u, w')"
    and wf: "wf_tree (e_lstat E localDir)" and "plain_folder localDir"
    and "folder_once localDir (e_lstat E localDir)"
    and rel: "\<not> is_rooted remotePath" "path_elems remotePath \<noteq> []"
  shows "all_readable (e_open E) localDir (e_lstat E localDir)
    \<and> objs (w_ext w') = objs (w_ext w) ++ map_of (s3_objects E localDir remotePath)"
proof -
  let ?put = "S3_UploadFile E A lg client"
  let ?key = "\<lambda>r. (bucketOf r, keyOf r)"
  have walk: "filepath_Walk (e_lstat E) (upload_callback ?put remotePath localDir) localDir w = (Ok u, w')"
    using up by (auto simp: S3_UploadDir_callback split: prod.splits)
  have root: "remotePath \<noteq> []"
    using rel(2) by (auto simp: path_elems_def clean_elems_def clean_step_def)
  have "?key (mk_path False (path_elems remotePath @ ns))
      = (hd (path_elems remotePath), str_join [slash] (tl (path_elems remotePath) @ ns))"
    if "ns \<in> set (file_names (e_lstat E localDir))" for ns
    using normal_elems_append_names [OF normal_path_elems, of ns remotePath] rel
      file_names_valid [OF wf that] by (simp add: bucketOf_mk_path keyOf_mk_path)
  then have objs: "s3_objects E localDir remotePath =
      map (\<lambda>ns. (?key (mk_path (is_rooted remotePath) (path_elems remotePath @ ns)),
        file_content (e_open E) (entry_path localDir ns))) (file_names (e_lstat E localDir))"
    using rel(1) by (simp add: s3_objects_def)
  show ?thesis
    unfolding objs
    by (rule walk_stores_files [where stored = "\<lambda>t. objs (w_ext t)" and key = ?key,
          OF walk wf assms(4) root assms(5) S3_UploadFile_stores [OF assms(1)]])
      (use rel(1) bucket_key_inj in auto)
qed

lemma CreateS3Client_keeps:
  "s3_keeps A objs \<Longrightarrow> objs (w_ext (snd (CreateS3Client A lg a k e r w))) = objs (w_ext w)"
  by (simp add: CreateS3Client_def s3_keeps_def case_prod_beta Let_def split: option.split)

lemma bucketExists_keeps:
  "s3_keeps A objs \<Longrightarrow> objs (w_ext (snd (bucketExists A client p w))) = objs (w_ext w)"
  by (auto simp: bucketExists_def s3_keeps_def on_ext_def prod_eq_iff
      split: prod.splits option.splits head_error.splits)

lemma createBucket_keeps:
  "s3_keeps A objs \<Longrightarrow> objs (w_ext (snd (createBucket A c client p w))) = objs (w_ext w)"
  by (auto simp: createBucket_def s3_keeps_def on_ext_def prod_eq_iff split: prod.splits)

lemma CreateBucketIfNeeded_keeps:
  "s3_keeps A objs \<Longrightarrow> objs (w_ext (snd (CreateBucketIfNeeded A c client p lg w))) = objs (w_ext w)"
  by (simp add: CreateBucketIfNeeded_def case_prod_beta bucketExists_keeps createBucket_keeps
      split: res.split bool.split)

section \<open>The client as an uploader\<close>

lemma RemotePathFunc_grows: "world_grows w (snd (RemotePathFunc E b n w))"
  by (simp add: grows_intros)

definition s3_uploader :: "'x env \<Rightarrow> 'x s3_api \<Rightarrow> 'x s3_client \<Rightarrow> 'x uploader" where
  "s3_uploader E A c = \<lparr>upl_Upload = S3_Upload E A c, upl_Name = S3_Name c\<rparr>"

interpretation s3: uploader_contract
  "S3_Upload E A (S3_New name cmd url region key secret cert (RemotePathFunc E base dep))"
  for E A name cmd url region key secret cert base dep
  by unfold_locales (rule S3_Upload_grows, simp add: S3_New_def grows_intros)

section \<open>An object store in memory\<close>

definition mem_s3 :: "(string \<times> string \<rightharpoonup> string) s3_api" where
  "mem_s3 =
     \<lparr>api_loadConfig = (\<lambda>client x. (None, x)), api_headBucket = (\<lambda>client b x. (None, x)),
      api_createBucket = (\<lambda>client b r x. (None, x)),
      api_putObject = (\<lambda>client b k body x. (None, x((b, k) \<mapsto> body)))\<rparr>"

lemma mem_s3_laws: "s3_stores mem_s3 (\<lambda>x. x)" "s3_keeps mem_s3 (\<lambda>x. x)" "s3_reliable mem_s3"
  by (simp_all add: s3_reliable_def s3_stores_def s3_keeps_def mem_s3_def)

definition sample_s3 :: "'x env \<Rightarrow> 'x s3_client" where
  "sample_s3 E = S3_New ''s3'' ''aws'' [] ''eu-west-1'' ''AKIA'' ''secret'' ''/ca.pem''
     (RemotePathFunc E ''backups/db'' ''prod'')"

lemma S3_UploadFile_Ok:
  assumes "\<And>b k body x. fst (api_putObject A client b k body x) = None"
    and "e_open E l = Inr f" and "f_fault f = None"
  shows "fst (S3_UploadFile E A lg client l r w) = Ok ()"
  using assms(1) [of "bucketOf r" "keyOf r" "f_data f" "w_ext w"] assms(2,3)
  by (auto simp: S3_UploadFile_def os_ReadFile_def read_all_def on_ext_def Let_def split: prod.splits)

lemma CreateS3Client_Ok: "s3_reliable A \<Longrightarrow> \<exists>client. fst (CreateS3Client A lg a k e r w) = Ok client"
  by (auto simp: CreateS3Client_def s3_reliable_def on_ext_def Let_def prod_eq_iff
      split: prod.splits option.splits)

lemma CreateBucketIfNeeded_Ok: "s3_reliable A \<Longrightarrow> fst (CreateBucketIfNeeded A c client p lg w) = Ok ()"
  by (auto simp: CreateBucketIfNeeded_def bucketExists_def createBucket_def s3_reliable_def on_ext_def
      prod_eq_iff split: prod.splits res.splits bool.splits option.splits head_error.splits)

lemma S3_UploadDir_Ok:
  assumes "s3_reliable A" and "wf_tree (e_lstat E l)" and "no_gone (e_lstat E l)"
    and "all_sound (e_open E) l (e_lstat E l)"
  shows "fst (S3_UploadDir E A client lg l r w) = Ok ()"
proof -
  have "fst (filepath_Walk (e_lstat E) (upload_callback (S3_UploadFile E A lg client) r l) l w) = Ok ()"
  proof (rule walk_succeeds [where lstat = "e_lstat E" and p = l, OF assms(2,3)])
    fix ns r t assume "ns \<in> set (file_names (e_lstat E l))"
    from all_soundE [OF assms(4) this]
    obtain f where "e_open E (entry_path l ns) = Inr f" "f_fault f = None" .
    then show "fst (S3_UploadFile E A lg client (entry_path l ns) r t) = Ok ()"
      using assms(1) by (intro S3_UploadFile_Ok) (auto simp: s3_reliable_def)
  qed
  then show ?thesis by (auto simp: S3_UploadDir_callback split: prod.splits)
qed

text \<open>
  When the SDK reports no error, no entry vanishes during the walk and every file can be
  read to its end, the upload succeeds.
\<close>

lemma S3_Upload_Ok:
  assumes "s3_reliable A" and "wf_tree (e_lstat E l)" and "no_gone (e_lstat E l)"
    and "all_sound (e_open E) l (e_lstat E l)"
  shows "fst (S3_Upload E A c l lg pm w) = Ok ()"
proof -
  obtain p w1 where p: "s3_remotePathFn c w = (p, w1)" by fastforce
  obtain client w2 where client: "CreateS3Client A lg (s3_accessKey c) (s3_secretKey c)
      (s3_endpointURL c) (s3_region c)
      (log_info lg (''about to upload '' @ l @ '' to S3 remote path '' @ p) [] w1) = (Ok client, w2)"
    using CreateS3Client_Ok [OF assms(1)] by (metis prod.collapse)
  obtain w3 where bucket: "CreateBucketIfNeeded A c client p lg w2 = (Ok (), w3)"
    using CreateBucketIfNeeded_Ok [OF assms(1)] by (metis prod.collapse)
  show ?thesis
    using S3_UploadDir_Ok [OF assms, of client lg p w3]
    by (auto simp: S3_Upload_def S3_Upload_body_def p client [simplified] bucket split: prod.splits)
qed

lemma sample_s3_path [simp]:
  "s3_remotePathFn (sample_s3 E) = RemotePathFunc E ''backups/db'' ''prod''"
  by (simp add: sample_s3_def S3_New_def)

lemma sample_remote_path:
  "remotePathOn ''backups/db'' ''prod'' (Date 2024 9 30) = ''backups/db/prod/2024/09/30''"
  by (simp add: remotePathOn_def pathPrefix_def datePath_def int_dec_def pad0_def nat_dec.simps
      digit_char_eval)

text \<open>The whole upload against the specification.\<close>

lemma S3_Upload_stores:
  assumes "s3_stores A objs" and "s3_keeps A objs"
    and fn: "s3_remotePathFn c = RemotePathFunc E base dep"
    and up: "S3_Upload E A c localPath lg pm w = (Ok u, w')"
    and "wf_tree (e_lstat E localPath)" and "plain_folder localPath"
    and "folder_once localPath (e_lstat E localPath)"
    and "\<not> is_rooted (remotePathOn base dep (t_date (e_clock E (w_now w))))"
  shows "all_readable (e_open E) localPath (e_lstat E localPath)
    \<and> objs (w_ext w') = objs (w_ext w)
        ++ map_of (s3_objects E localPath (remotePathOn base dep (t_date (e_clock E (w_now w)))))"
proof -
  let ?remote = "remotePathOn base dep (t_date (e_clock E (w_now w)))"
  obtain w1 where up1: "S3_Upload_body E A c localPath lg w = (Ok u, w1)" and w': "w_ext w' = w_ext w1"
    using up by (auto simp: S3_Upload_def split: prod.splits)
  obtain client w2 w3 where client: "CreateS3Client A lg (s3_accessKey c) (s3_secretKey c)
        (s3_endpointURL c) (s3_region c)
        (log_info lg (''about to upload '' @ localPath @ '' to S3 remote path '' @ ?remote) []
          (w\<lparr>w_now := Suc (w_now w)\<rparr>)) = (Ok client, w2)"
    and bucket: "CreateBucketIfNeeded A c client ?remote lg w2 = (Ok (), w3)"
    and dir: "S3_UploadDir E A client lg localPath ?remote w3 = (Ok u, w1)"
    using up1 by (auto simp: S3_Upload_body_def fn RemotePathFunc_def time_Now_def
        split: prod.splits res.splits)
  have "objs (w_ext w3) = objs (w_ext w)"
    using arg_cong [OF client, of "\<lambda>r. objs (w_ext (snd r))"]
      arg_cong [OF bucket, of "\<lambda>r. objs (w_ext (snd r))"]
    by (simp add: CreateS3Client_keeps [OF assms(2)] CreateBucketIfNeeded_keeps [OF assms(2)])
  then show ?thesis
    using S3_UploadDir_stores [OF assms(1) dir assms(5-8) remotePathOn_elems] w' by simp
qed

section \<open>Properties\<close>

text \<open>C2: Under the conditions below, an S3 upload that reports success has stored every file of the
  folder that the walk lists: each could be opened, and the object store afterwards is the one
  before, extended by exactly one object per listed file, with the file's whole content, under
  the bucket and key given by the remote path of the day and the names below the folder.  A
  directory that cannot be listed counts as empty: its files are not stored and the upload
  still reports success (\<open>S3_UploadDir_ignores_unlisted\<close>).  The conditions: the SDK's calls do
  what they document; names in a listing are proper and different; the local folder has an
  absolute clean path that does not occur again inside the paths of its files (without this
  two files can have one key, \<open>S3_UploadDir_collision\<close>); and the remote path is relative.\<close>

theorem S3_Upload_stores_folder:
  assumes "s3_stores A objs" and "s3_keeps A objs"
    and "s3_remotePathFn c = RemotePathFunc E base dep"
    and "S3_Upload E A c localPath lg pm w = (Ok u, w')"
    and "wf_tree (e_lstat E localPath)" and "plain_folder localPath"
    and "folder_once localPath (e_lstat E localPath)"
    and "\<not> is_rooted (remotePathOn base dep (t_date (e_clock E (w_now w))))"
  shows "all_readable (e_open E) localPath (e_lstat E localPath)
    \<and> objs (w_ext w') = objs (w_ext w)
        ++ map_of (s3_objects E localPath (remotePathOn base dep (t_date (e_clock E (w_now w)))))"
  by (rule S3_Upload_stores [OF assms])

theorem S3_Upload_stores_folder_witness:
  "w_ext (snd (S3_Upload (still_env sample_tree) mem_s3 (sample_s3 (still_env sample_tree))
      ''/var/db'' root_logger (\<lambda>c x. (([], None), x)) (start_world Map.empty)))
   = [(''backups'', ''db/prod/2024/09/30/a'') \<mapsto> ''/var/db/a'',
      (''backups'', ''db/prod/2024/09/30/logs/b'') \<mapsto> ''/var/db/logs/b'']"
proof -
  let ?E = "still_env sample_tree :: (string \<times> string \<rightharpoonup> string) env"
  let ?pm = "(\<lambda>c x. (([], None), x)) :: (string \<times> string \<rightharpoonup> string) process_manager"
  let ?up = "S3_Upload ?E mem_s3 (sample_s3 ?E) ''/var/db'' root_logger ?pm (start_world Map.empty)"
  have "fst ?up = Ok ()" by (rule S3_Upload_Ok) (simp_all add: mem_s3_laws sample_tree_ok)
  then have "?up = (Ok (), snd ?up)" by (metis prod.collapse)
  from S3_Upload_stores_folder [OF mem_s3_laws(1,2) sample_s3_path this]
  show ?thesis
    by (simp add: sample_tree_ok sample_remote_path s3_objects_def path_eval file_content_def path_file_def
        entry_path_def fun_upd_twist)
qed

text \<open>The bucket that the client looks for and creates is the bucket it uploads into: when the
  first element of the remote path is a name and no element of the remote path or of the
  file's path below the folder is \<open>..\<close>, the bucket of the remote file path is the bucket of
  the remote path.\<close>

lemma S3_bucket_agrees:
  assumes "str_split slash remotePath = b # es" and "valid_name b" and "''..'' \<notin> set es"
    and "''..'' \<notin> set (str_split slash (str_remove_all localDir filePath))"
  shows "bucketOf (filepath_Join [remotePath, str_remove_all localDir filePath]) = bucketOf remotePath"
proof -
  let ?rel = "str_remove_all localDir filePath"
  let ?full = "remotePath @ slash # ?rel"
  have b: "b \<noteq> []" "hd b \<noteq> slash" "b \<noteq> ''.''" "b \<noteq> ''..''"
    using assms(2) by (auto simp: valid_name_def dest: list.set_sel(1))
  have split: "str_split slash ?full = b # es @ str_split slash ?rel"
    by (simp add: str_split_append assms(1))
  have first: "remotePath = str_join [slash] (b # es)" by (metis assms(1) str_join_split)
  then have "remotePath \<noteq> []" "hd remotePath \<noteq> slash"
    using b by (cases es; simp)+
  then have rel: "\<not> is_rooted ?full" by (simp add: is_rooted_def)
  have "path_elems ?full = b # filter (\<lambda>c. c \<noteq> [] \<and> c \<noteq> ''.'') (es @ str_split slash ?rel)"
    using assms(3,4) b rel by (subst path_elems_def, subst split, subst clean_elems_no_up) auto
  moreover have "filepath_Join [remotePath, ?rel] = mk_path False (path_elems ?full)"
    using \<open>remotePath \<noteq> []\<close> rel by (simp add: filepath_Join_def filepath_Clean_def)
  ultimately show ?thesis
    using bucketOf_mk_path [of "path_elems ?full"] normal_path_elems [of ?full] rel
    by (simp add: bucketOf_def assms(1))
qed

text \<open>C33: A directory below the folder that cannot be listed is treated as an empty one: the result,
  the stored objects and the log of the upload are those of the tree in which every such
  directory is empty, so its files are missing from a backup that reports success.\<close>

theorem S3_UploadDir_ignores_unlisted:
  "S3_UploadDir E A client lg localDir remotePath w =
     S3_UploadDir (E\<lparr>e_lstat := \<lambda>p. forget_errors (e_lstat E p)\<rparr>) A client lg localDir remotePath w"
proof -
  have put: "S3_UploadFile (E\<lparr>e_lstat := g\<rparr>) A lg client = S3_UploadFile E A lg client" for g
    by (intro ext) (simp add: S3_UploadFile_def)
  show ?thesis
    by (simp add: S3_UploadDir_callback put filepath_Walk_def upload_walk_forget_errors)
qed

text \<open>A folder that does not exist is not reported as an error: the callback dereferences the nil
  \<open>FileInfo\<close> that the walk passes it and the upload panics.\<close>

lemma S3_UploadDir_missing_folder_panics:
  assumes "e_lstat E localDir = FGone e"
  shows "fst (S3_UploadDir E A client lg localDir remotePath w) = Panic ''nil pointer dereference''"
  by (simp add: S3_UploadDir_callback upload_walk_missing [where lstat = "e_lstat E" and p = localDir, OF assms])

text \<open>C34: The upload of a folder can lose files and still report success: below any folder \<open>p\<close>, the file
  whose names repeat the folder's own path, \<open>p\<close>\<open>p\<close>\<open>/x\<close>, is sent to the same object as the file
  \<open>p\<close>\<open>/x\<close>, because \<open>strings.Replace\<close> removes every occurrence of the folder's path.  When both
  exist, a successful upload has sent two files to one bucket and key, and in the store is,
  under every key, the content of the last file sent to it only.\<close>

theorem S3_UploadDir_collision:
  assumes "s3_stores A objs" and "S3_UploadDir E A client lg p remotePath w = (Ok u, w')"
    and "wf_tree (e_lstat E p)" and "plain_folder p" and "ns \<noteq> []"
    and "ns \<in> set (file_names (e_lstat E p))" and "path_elems p @ ns \<in> set (file_names (e_lstat E p))"
  shows "remote_file_path remotePath p (entry_path p (path_elems p @ ns))
      = remote_file_path remotePath p (entry_path p ns)
    \<and> \<not> distinct (map fst (sent (\<lambda>r. (bucketOf r, keyOf r)) (e_open E) remotePath p (e_lstat E p)))
    \<and> objs (w_ext w') = objs (w_ext w)
        ++ map_of (rev (sent (\<lambda>r. (bucketOf r, keyOf r)) (e_open E) remotePath p (e_lstat E p)))"
proof -
  let ?rem = "\<lambda>ns. remote_file_path remotePath p (entry_path p ns)"
  have walk: "filepath_Walk (e_lstat E) (upload_callback (S3_UploadFile E A lg client) remotePath p) p w = (Ok u, w')"
    using assms(2) by (auto simp: S3_UploadDir_callback split: prod.splits)
  have same: "?rem (path_elems p @ ns) = ?rem ns" by (rule remote_file_path_repeated [OF assms(4,5)])
  moreover have "path_elems p @ ns \<noteq> ns" using assms(4) by (simp add: plain_folder_def)
  then have "\<not> inj_on (\<lambda>ns. (bucketOf (?rem ns), keyOf (?rem ns))) (set (file_names (e_lstat E p)))"
    using assms(6,7) same unfolding inj_on_def by metis
  then have "\<not> distinct (map fst (sent (\<lambda>r. (bucketOf r, keyOf r)) (e_open E) remotePath p (e_lstat E p)))"
    by (simp add: sent_def distinct_map comp_def)
  moreover have "objs (w_ext w') = objs (w_ext w)
      ++ map_of (rev (sent (\<lambda>r. (bucketOf r, keyOf r)) (e_open E) remotePath p (e_lstat E p)))"
    by (rule walk_stores_sent [where stored = "\<lambda>t. objs (w_ext t)" and opn = "e_open E",
          OF walk assms(3), THEN conjunct2])
      (rule S3_UploadFile_stores [OF assms(1)])
  ultimately show ?thesis by blast
qed

text \<open>Below \<open>/d\<close> the files \<open>/d/d/f\<close> and \<open>/d/f\<close>: only the content of the second is stored.\<close>

definition nested_tree :: fsnode where
  "nested_tree = FDir [(''d'', FDir [(''f'', FFile 6)]), (''f'', FFile 4)]"

theorem S3_UploadDir_collision_witness:
  "w_ext (snd (S3_UploadDir (still_env nested_tree) mem_s3
      \<lparr>sdk_region = ''r'', sdk_accessKey = ''k'', sdk_secretKey = ''s'', sdk_endpoint = None\<rparr>
      root_logger ''/d'' ''b/p'' (start_world Map.empty))) = [(''b'', ''p/f'') \<mapsto> ''/d/f'']"
proof -
  let ?c = "\<lparr>sdk_region = ''r'', sdk_accessKey = ''k'', sdk_secretKey = ''s'', sdk_endpoint = None\<rparr>"
  let ?up = "S3_UploadDir (still_env nested_tree) mem_s3 ?c root_logger ''/d'' ''b/p'' (start_world Map.empty)"
  have tree: "wf_tree nested_tree" "no_gone nested_tree" "file_names nested_tree = [[''d'', ''f''], [''f'']]"
    by (simp_all add: nested_tree_def valid_name_def no_gone_def file_names_def)
  have plain: "plain_folder ''/d''" "path_elems ''/d'' = [''d'']" by (simp_all add: plain_folder_def path_eval)
  have "fst ?up = Ok ()"
    by (rule S3_UploadDir_Ok) (simp_all add: mem_s3_laws tree all_sound_def path_file_def)
  then have up: "?up = (Ok (), snd ?up)" by (metis prod.collapse)
  have "w_ext (snd ?up) = map_of (rev (sent (\<lambda>r. (bucketOf r, keyOf r)) path_file ''b/p'' ''/d'' nested_tree))"
    using S3_UploadDir_collision [OF mem_s3_laws(1) up, of "[''f'']"] by (simp add: tree plain)
  moreover have "entry_path ''/d'' [''d'', ''f''] = ''/d/d/f''" "entry_path ''/d'' [''f''] = ''/d/f''"
    by (simp_all add: entry_path_def path_eval)
  moreover have "str_remove_all ''/d'' ''/d/d/f'' = ''/f''" "str_remove_all ''/d'' ''/d/f'' = ''/f''"
    by (simp_all add: str_remove_all.simps)
  ultimately show ?thesis
    by (simp add: sent_def tree remote_file_path_def path_eval bucketOf_def keyOf_def file_content_def path_file_def)
qed

end
