(* ===== verification/Base64.thy ===== *)
theory Base64
  imports Go_Text
begin

text \<open>
  \<open>base64.StdEncoding.EncodeToString\<close> of the Go standard library, which the Azure client
  uses for its block identifiers: the text is a list of bytes, three bytes make four
  characters, the rest is padded.  The lemmas: the decoder inverts the encoder, so the
  encoding is injective, and the length of the result depends on the length of the text
  only.
\<close>

definition b64_alphabet :: string where
  "b64_alphabet = ''ABCDEFGHIJKLMNOPQRSTUVWXYZabcdefghijklmnopqrstuvwxyz0123456789+/''"

definition b64_char :: "nat \<Rightarrow> char" where
  "b64_char n = b64_alphabet ! n"

definition byte :: "char \<Rightarrow> nat" where
  "byte c = of_char c"

fun b64_encode :: "string \<Rightarrow> string" where
  "b64_encode [] = []"
| "b64_encode [a] =
     [b64_char (byte a div 4), b64_char (byte a mod 4 * 16), CHR ''='', CHR ''='']"
| "b64_encode [a, b] =
     [b64_char (byte a div 4), b64_char (byte a mod 4 * 16 + byte b div 16),
      b64_char (byte b mod 16 * 4), CHR ''='']"
| "b64_encode (a # b # c # rest) =
     [b64_char (byte a div 4), b64_char (byte a mod 4 * 16 + byte b div 16),
      b64_char (byte b mod 16 * 4 + byte c div 64), b64_char (byte c mod 64)] @ b64_encode rest"

text \<open>The decoder.\<close>

definition b64_val :: "char \<Rightarrow> nat" where
  "b64_val c = length (takeWhile (\<lambda>d. d \<noteq> c) b64_alphabet)"

fun b64_decode :: "string \<Rightarrow> string" where
  "b64_decode (p # q # r # s # rest) =
     (if r = CHR ''='' then [char_of (b64_val p * 4 + b64_val q div 16)]
      else if s = CHR ''='' then
        [char_of (b64_val p * 4 + b64_val q div 16), char_of (b64_val q mod 16 * 16 + b64_val r div 4)]
      else
        [char_of (b64_val p * 4 + b64_val q div 16), char_of (b64_val q mod 16 * 16 + b64_val r div 4),
         char_of (b64_val r mod 4 * 64 + b64_val s)] @ b64_decode rest)"
| "b64_decode _ = []"

lemma b64_alphabet_facts:
  "length b64_alphabet = 64" "distinct b64_alphabet" "CHR ''='' \<notin> set b64_alphabet"
  by (simp_all add: b64_alphabet_def)

lemma length_takeWhile_nth:
  assumes "distinct xs" and "n < length xs"
  shows "length (takeWhile (\<lambda>y. y \<noteq> xs ! n) xs) = n"
proof -
  have "takeWhile (\<lambda>y. y \<noteq> xs ! n) xs = take n xs"
    by (rule takeWhile_eq_take_P_nth) (use assms in \<open>auto simp: nth_eq_iff_index_eq\<close>)
  with assms show ?thesis by simp
qed

lemma b64_val_char [simp]: "n < 64 \<Longrightarrow> b64_val (b64_char n) = n"
  using b64_alphabet_facts(1,2)
  by (simp add: b64_val_def b64_char_def length_takeWhile_nth)

lemma b64_char_not_pad [simp]: "n < 64 \<Longrightarrow> b64_char n \<noteq> CHR ''=''"
  using b64_alphabet_facts by (metis b64_char_def nth_mem)

lemma byte_bound [simp]: "byte c < 256"
  by (simp add: byte_def)

lemma char_of_byte [simp]: "char_of (byte c) = c"
  by (simp add: byte_def)

lemma byte_parts [simp]: "byte c div 4 < 64" "byte c div 16 < 16" "byte c div 64 < 4"
  using byte_bound [of c] by (auto intro!: less_mult_imp_div_less)

lemma six_bits [simp]:
  "byte a mod 4 * 16 + byte b div 16 < 64" "byte b mod 16 * 4 + byte c div 64 < 64"
  "byte c mod 64 < 64" "byte a mod 4 * 16 < 64" "byte b mod 16 * 4 < 64"
proof -
  have "byte a mod 4 < 4" "byte b mod 16 < 16" by auto
  then show "byte a mod 4 * 16 + byte b div 16 < 64" "byte b mod 16 * 4 + byte c div 64 < 64"
    "byte a mod 4 * 16 < 64" "byte b mod 16 * 4 < 64"
    using byte_parts [of b] byte_parts [of c] by linarith+
qed simp

text \<open>Decoding what was encoded gives the text back.\<close>

lemma b64_decode_encode: "b64_decode (b64_encode s) = s"
  by (induction s rule: b64_encode.induct) simp_all

lemma b64_encode_inj: "b64_encode s = b64_encode t \<longleftrightarrow> s = t"
  by (metis b64_decode_encode)

lemma length_b64_encode: "length (b64_encode s) = 4 * ((length s + 2) div 3)"
proof (induction s rule: b64_encode.induct)
  case (4 a b c rest)
  have "(length rest + 3 + 2) div 3 = Suc ((length rest + 2) div 3)"
    using div_add_self2 [of 3 "length rest + 2"] by simp
  with 4 show ?case by simp
qed auto

end
