(* ===== verification/Azure_Client.thy ===== *)
theory Azure_Client
  imports Tree_Upload Remote_Path Base64
begin

text \<open>
  The Azure client (\<open>src/azure/azure.go\<close>): a folder is walked and every file becomes a
  block blob, sent in chunks of at most 8 MiB whose block identifiers are then committed as
  a list.  The storage SDK is a parameter (\<open>azure_api\<close>).
\<close>

section \<open>The SDK as a parameter\<close>

record az_sdk =
  az_account :: string
  az_key :: string
  az_endpoint :: string
  az_version :: string
  az_https :: bool

text \<open>
  \<open>NewClient\<close> makes no request; the container and blob references are names.  The lists of
  \<open>PutBlockList\<close> hold identifiers of uncommitted blocks.
\<close>

record 'x azure_api =
  az_newClient :: "az_sdk \<Rightarrow> gerror option"
  az_createIfNotExists :: "az_sdk \<Rightarrow> string \<Rightarrow> 'x \<Rightarrow> gerror option \<times> 'x"
  az_createBlockBlob :: "az_sdk \<Rightarrow> string \<Rightarrow> string \<Rightarrow> 'x \<Rightarrow> gerror option \<times> 'x"
  az_putBlock :: "az_sdk \<Rightarrow> string \<Rightarrow> string \<Rightarrow> string \<Rightarrow> string \<Rightarrow> 'x \<Rightarrow> gerror option \<times> 'x"
  az_putBlockList :: "az_sdk \<Rightarrow> string \<Rightarrow> string \<Rightarrow> string list \<Rightarrow> 'x \<Rightarrow> gerror option \<times> 'x"

definition az_DefaultBaseURL :: string where
  "az_DefaultBaseURL = ''core.windows.net''"

definition az_DefaultAPIVersion :: string where
  "az_DefaultAPIVersion = ''2018-03-28''"

section \<open>The client\<close>

record 'x azure_client =
  azc_name :: string
  azc_accountName :: string
  azc_accountKey :: string
  azc_container :: string
  azc_endpoint :: string
  azc_remotePathFn :: "'x path_fn"

definition ChunkSize :: nat where
  "ChunkSize = 8 * 1024 * 1024"

definition Azure_New ::
  "string \<Rightarrow> string \<Rightarrow> string \<Rightarrow> string \<Rightarrow> string \<Rightarrow> 'x path_fn \<Rightarrow> 'x azure_client" where
  "Azure_New name accountKey accountName container endpoint remotePathFn =
     \<lparr>azc_name = name, azc_accountName = accountName, azc_accountKey = accountKey,
      azc_container = container, azc_endpoint = endpoint, azc_remotePathFn = remotePathFn\<rparr>"

text \<open>\<open>base64("BlockID{%07d}")\<close> of the block's number.\<close>

definition blockID :: "nat \<Rightarrow> string" where
  "blockID i = b64_encode (''BlockID{'' @ pad0 7 (nat_dec i) @ ''}'')"

text \<open>
  The loop over the chunks, from an offset of the open file, with the number of the next
  block and the identifiers so far; it ends because a read that returns data advances.
\<close>

function (sequential) put_chunks ::
  "'x azure_api \<Rightarrow> az_sdk \<Rightarrow> string \<Rightarrow> string \<Rightarrow> os_file \<Rightarrow> nat \<Rightarrow> nat \<Rightarrow> string list \<Rightarrow> 'x world
   \<Rightarrow> string list res \<times> 'x world" where
  "put_chunks A sdk container blob f off i blocks w =
     (case file_Read f off ChunkSize of
        REOF \<Rightarrow> (Ok blocks, w)
      | RFail e \<Rightarrow> (Err (''error in uploadFile could not read file to buffer: '' @ e), w)
      | RData chunk \<Rightarrow>
          (case on_ext (az_putBlock A sdk container blob (blockID i) chunk) w of
             (Some e, w1) \<Rightarrow> (Err (''error in uploadFile could not put block: '' @ e), w1)
           | (None, w1) \<Rightarrow>
               put_chunks A sdk container blob f (off + length chunk) (Suc i) (blocks @ [blockID i]) w1))"
  by pat_completeness auto
termination
  by (relation "measure (\<lambda>(A, sdk, container, blob, f, off, i, blocks, w). length (f_data f) - off)")
    (auto dest: file_Read_advances)

declare put_chunks.simps [simp del]

definition Azure_uploadFile ::
  "'x env \<Rightarrow> 'x azure_api \<Rightarrow> logger \<Rightarrow> az_sdk \<Rightarrow> string \<Rightarrow> string \<Rightarrow> string \<Rightarrow> 'x world
   \<Rightarrow> unit res \<times> 'x world" where
  "Azure_uploadFile E A lg sdk container localFilePath remoteFilePath w =
     (let w1 = log_info lg (''uploadFile: '' @ localFilePath @ '' to '' @ remoteFilePath) [] w
      in case e_open E localFilePath of
           Inl e \<Rightarrow> (Err (''error in uploadFile could not open file: '' @ e), w1)
         | Inr f \<Rightarrow>
             (case on_ext (az_createBlockBlob A sdk container remoteFilePath) w1 of
                (Some e, w2) \<Rightarrow> (Err (''error in uploadFile cloud not create block blob: '' @ e), w2)
              | (None, w2) \<Rightarrow>
                  (case put_chunks A sdk container remoteFilePath f 0 0 [] w2 of
                     (Panic m, w3) \<Rightarrow> (Panic m, w3)
                   | (Err e, w3) \<Rightarrow> (Err e, w3)
                   | (Ok blocks, w3) \<Rightarrow>
                       (case on_ext (az_putBlockList A sdk container remoteFilePath blocks) w3 of
                          (Some e, w4) \<Rightarrow> (Err (''error in uploadFile put list of blocks: '' @ e), w4)
                        | (None, w4) \<Rightarrow> (Ok (), w4)))))"

definition Azure_sdk :: "'x azure_client \<Rightarrow> az_sdk" where
  "Azure_sdk a =
     \<lparr>az_account = azc_accountName a, az_key = azc_accountKey a,
      az_endpoint = (if length (azc_endpoint a) \<noteq> 0 then azc_endpoint a else az_DefaultBaseURL),
      az_version = az_DefaultAPIVersion, az_https = True\<rparr>"

definition Azure_uploadDir ::
  "'x env \<Rightarrow> 'x azure_api \<Rightarrow> 'x azure_client \<Rightarrow> string \<Rightarrow> string \<Rightarrow> logger \<Rightarrow> 'x world
   \<Rightarrow> unit res \<times> 'x world" where
  "Azure_uploadDir E A a localFilePath remoteFileRoot lg w =
     (case az_newClient A (Azure_sdk a) of
        Some e \<Rightarrow> (Err (''error in uploadDir when creating client: '' @ e), w)
      | None \<Rightarrow>
          (case on_ext (az_createIfNotExists A (Azure_sdk a) (azc_container a)) w of
             (Some e, w1) \<Rightarrow> (Err (''error in uploadDir Failed to establish a new connection: '' @ e), w1)
           | (None, w1) \<Rightarrow>
               (case filepath_Walk (e_lstat E)
                       (\<lambda>filePath d err w.
                          case d of
                            None \<Rightarrow> (Panic ''nil pointer dereference'', w)
                          | Some info \<Rightarrow>
                              if isDir info then (Ok (), w)
                              else let filePathDifference = str_remove_all localFilePath filePath;
                                       remoteFilePath = filepath_Join [remoteFileRoot, filePathDifference]
                                   in Azure_uploadFile E A lg (Azure_sdk a) (azc_container a)
                                        filePath remoteFilePath w)
                       localFilePath w1 of
                  (r, w2) \<Rightarrow> (map_err (\<lambda>e. ''error in uploadDir when walking dir: '' @ e) r, w2))))"

definition Azure_Upload :: "'x env \<Rightarrow> 'x azure_api \<Rightarrow> 'x azure_client \<Rightarrow> 'x upload_fn" where
  "Azure_Upload E A a localPath lg pm w =
     (case azc_remotePathFn a w of
        (remotePath, w1) \<Rightarrow>
          Azure_uploadDir E A a localPath remotePath lg
            (log_info lg (''about to upload '' @ localPath @ '' to Azure remote path '' @ remotePath) []
              (log_info lg ''The container and remote path will be created if they don't already exist''
                 [(''container'', LText (azc_container a)), (''remotePath'', LText remotePath)]
                (log_info lg ''Uploading azure blobs''
                   [(''container'', LText (azc_container a)), (''localPath'', LText localPath),
                    (''remotePath'', LText remotePath)] w1))))"

definition Azure_Name :: "'x azure_client \<Rightarrow> string" where
  "Azure_Name a = azc_name a"

section \<open>The callback is the shared one\<close>

lemma Azure_callback:
  "(\<lambda>filePath d err w.
      case d of
        None \<Rightarrow> (Panic ''nil pointer dereference'', w)
      | Some info \<Rightarrow>
          if isDir info then (Ok (), w)
          else let filePathDifference = str_remove_all localFilePath filePath;
                   remoteFilePath = filepath_Join [remoteFileRoot, filePathDifference]
               in put filePath remoteFilePath w)
   = upload_callback put remoteFileRoot localFilePath"
  by (intro ext) (simp add: upload_callback_def remote_file_path_def Let_def split: option.splits)

lemmas Azure_uploadDir_walk = Azure_uploadDir_def [unfolded Azure_callback]

section \<open>The client only extends the histories\<close>

lemma put_chunks_grows: "world_grows w (snd (put_chunks A sdk c b f off i bs w))"
proof (induction A sdk c b f off i bs w rule: put_chunks.induct)
  case (1 A sdk c b f off i bs w)
  show ?case
  proof (cases "file_Read f off ChunkSize")
    case (RData chunk)
    obtain e w1 where p: "on_ext (az_putBlock A sdk c b (blockID i) chunk) w = (e, w1)" by fastforce
    then have g: "world_grows w w1" by (auto intro: world_grows_result(4))
    show ?thesis
    proof (cases e)
      case None
      with p have "on_ext (az_putBlock A sdk c b (blockID i) chunk) w = (None, w1)" by simp
      from 1 [OF RData this [symmetric] refl] g show ?thesis
        using RData p None by (subst put_chunks.simps) (auto intro: world_grows_trans)
    next
      case (Some x)
      then show ?thesis using RData p g by (subst put_chunks.simps) simp
    qed
  qed (subst put_chunks.simps; simp)+
qed

lemma Azure_uploadFile_grows: "world_grows w (snd (Azure_uploadFile E A lg sdk c l r w))"
  by (auto simp: Azure_uploadFile_def Let_def split: prod.splits option.splits sum.splits res.splits
      elim!: world_grows_via [OF put_chunks_grows] world_grows_result(4) intro!: grows_intros)

lemma Azure_uploadDir_grows: "world_grows w (snd (Azure_uploadDir E A a l r lg w))"
proof -
  let ?put = "Azure_uploadFile E A lg (Azure_sdk a) (azc_container a)"
  have "world_grows v (snd (filepath_Walk (e_lstat E) (upload_callback ?put r l) l v))" for v
    by (rule walk_grows) (auto simp: upload_callback_def Azure_uploadFile_grows split: option.splits)
  note walked = world_grows_via [OF this]
  show ?thesis
    by (auto simp: Azure_uploadDir_walk split: prod.splits option.splits
        elim!: walked world_grows_result(4))
qed

lemma Azure_Upload_grows:
  assumes "\<And>v. world_grows v (snd (azc_remotePathFn a v))"
  shows "world_grows w (snd (Azure_Upload E A a l lg pm w))"
  by (auto simp: Azure_Upload_def split: prod.splits elim!: world_grows_via [OF assms]
      intro!: grows_intros world_grows_then [OF Azure_uploadDir_grows])

definition azure_uploader :: "'x env \<Rightarrow> 'x azure_api \<Rightarrow> 'x azure_client \<Rightarrow> 'x uploader" where
  "azure_uploader E A a = \<lparr>upl_Upload = Azure_Upload E A a, upl_Name = Azure_Name a\<rparr>"

interpretation azure: uploader_contract
  "Azure_Upload E A (Azure_New name key account container endpoint (RemotePathFunc E base dep))"
  for E A name key account container endpoint base dep
  by unfold_locales (rule Azure_Upload_grows, simp add: Azure_New_def grows_intros)

section \<open>Block identifiers\<close>

lemma blockID_inj: "blockID i = blockID j \<longleftrightarrow> i = j"
  by (simp add: blockID_def b64_encode_inj pad0_nat_dec_inj)

lemma length_blockID: "i < 10 ^ 7 \<Longrightarrow> length (blockID i) = 24"
  by (simp add: blockID_def length_b64_encode length_pad0_nat_dec del: length_pad0)

section \<open>What the storage service does\<close>

text \<open>
  The documented behaviour of the service, over its committed blobs and the uncommitted
  blocks of every blob.  A request that reports success had its effect; one that reports
  an error either had it (a lost answer) or changed nothing.
\<close>

type_synonym blob_id = "string \<times> string"

definition took_effect ::
  "('x \<Rightarrow> blob_id \<rightharpoonup> string) \<Rightarrow> ('x \<Rightarrow> blob_id \<Rightarrow> string \<rightharpoonup> string) \<Rightarrow> gerror option \<Rightarrow> 'x \<Rightarrow> 'x
   \<Rightarrow> (blob_id \<rightharpoonup> string) \<Rightarrow> (blob_id \<Rightarrow> string \<rightharpoonup> string) \<Rightarrow> bool" where
  "took_effect blobs blocks err x x' bs ks =
     (blobs x' = bs \<and> blocks x' = ks \<or> err \<noteq> None \<and> blobs x' = blobs x \<and> blocks x' = blocks x)"

definition azure_service ::
  "'x azure_api \<Rightarrow> ('x \<Rightarrow> blob_id \<rightharpoonup> string) \<Rightarrow> ('x \<Rightarrow> blob_id \<Rightarrow> string \<rightharpoonup> string) \<Rightarrow> bool" where
  "azure_service A blobs blocks =
     ((\<forall>sdk c x. took_effect blobs blocks (fst (az_createIfNotExists A sdk c x)) x
          (snd (az_createIfNotExists A sdk c x)) (blobs x) (blocks x))
      \<and> (\<forall>sdk c n x. took_effect blobs blocks (fst (az_createBlockBlob A sdk c n x)) x
          (snd (az_createBlockBlob A sdk c n x))
          ((blobs x)((c, n) \<mapsto> [])) ((blocks x)((c, n) := Map.empty)))
      \<and> (\<forall>sdk c n i d x. took_effect blobs blocks (fst (az_putBlock A sdk c n i d x)) x
          (snd (az_putBlock A sdk c n i d x))
          (blobs x) ((blocks x)((c, n) := (blocks x (c, n))(i \<mapsto> d))))
      \<and> (\<forall>sdk c n is x. took_effect blobs blocks (fst (az_putBlockList A sdk c n is x)) x
          (snd (az_putBlockList A sdk c n is x))
          ((blobs x)((c, n) \<mapsto> concat (map (\<lambda>i. the (blocks x (c, n) i)) is)))
          ((blocks x)((c, n) := Map.empty))))"

lemma azure_service_putBlock:
  assumes "azure_service A blobs blocks" and "on_ext (az_putBlock A sdk c n i d) w = (e, w')"
  shows "blobs (w_ext w') = blobs (w_ext w)"
    and "e = None \<Longrightarrow> blocks (w_ext w') (c, n) = (blocks (w_ext w) (c, n))(i \<mapsto> d)"
proof -
  have "took_effect blobs blocks e (w_ext w) (w_ext w') (blobs (w_ext w))
      ((blocks (w_ext w))((c, n) := (blocks (w_ext w) (c, n))(i \<mapsto> d)))"
    using assms(1) unfolding on_ext_result [OF assms(2)] azure_service_def by blast
  then show "blobs (w_ext w') = blobs (w_ext w)"
    and "e = None \<Longrightarrow> blocks (w_ext w') (c, n) = (blocks (w_ext w) (c, n))(i \<mapsto> d)"
    by (auto simp: took_effect_def)
qed

text \<open>
  The loop never changes a committed blob, and when it ends well the blocks it names hold,
  in order, the whole file.
\<close>

lemma put_chunks_content:
  assumes "azure_service A blobs blocks"
    and "put_chunks A sdk c n f off i ids w = (r, w')"
    and "ids = map blockID [0..<i]"
    and "concat (map (\<lambda>j. the (blocks (w_ext w) (c, n) j)) ids) = take off (f_data f)"
  shows "blobs (w_ext w') = blobs (w_ext w)
    \<and> (\<forall>ids'. r = Ok ids' \<longrightarrow>
         (\<exists>m. ids' = map blockID [0..<m])
         \<and> concat (map (\<lambda>j. the (blocks (w_ext w') (c, n) j)) ids') = f_data f)"
  using assms
proof (induction A sdk c n f off i ids w rule: put_chunks.induct)
  case (1 A sdk c n f off i ids w)
  show ?case
  proof (cases "file_Read f off ChunkSize")
    case REOF
    then have "length (f_data f) \<le> off" by (rule file_Read_REOF) (simp add: ChunkSize_def)
    with REOF "1.prems" show ?thesis by (auto simp: put_chunks.simps [of A sdk c n f off])
  next
    case (RFail e)
    with "1.prems" show ?thesis by (auto simp: put_chunks.simps [of A sdk c n f off])
  next
    case (RData chunk)
    obtain e w1 where p: "on_ext (az_putBlock A sdk c n (blockID i) chunk) w = (e, w1)" by fastforce
    note put = azure_service_putBlock [OF "1.prems"(1) p]
    show ?thesis
    proof (cases e)
      case (Some x)
      with RData p put "1.prems" show ?thesis by (auto simp: put_chunks.simps [of A sdk c n f off])
    next
      case None
      have fresh: "blockID i \<notin> set ids" using "1.prems"(3) by (auto simp: blockID_inj)
      have "take (off + length chunk) (f_data f) = take off (f_data f) @ chunk"
        using file_Read_RData(5) [OF RData] by (simp add: take_add)
      moreover have "map (\<lambda>j. the (blocks (w_ext w1) (c, n) j)) ids
          = map (\<lambda>j. the (blocks (w_ext w) (c, n) j)) ids"
        using put(2) [OF None] fresh by (intro map_cong) auto
      moreover have "the (blocks (w_ext w1) (c, n) (blockID i)) = chunk"
        by (simp add: put(2) [OF None])
      ultimately have "concat (map (\<lambda>j. the (blocks (w_ext w1) (c, n) j)) (ids @ [blockID i]))
          = take (off + length chunk) (f_data f)"
        unfolding map_append concat_append "1.prems"(4) [symmetric] by (simp cong: map_cong)
      moreover have "put_chunks A sdk c n f (off + length chunk) (Suc i) (ids @ [blockID i]) w1 = (r, w')"
        using "1.prems"(2) RData p None by (simp add: put_chunks.simps [of A sdk c n f off])
      ultimately show ?thesis
        using "1.IH" [OF RData p [unfolded None, symmetric] refl "1.prems"(1)] "1.prems"(3) put(1)
        by simp
    qed
  qed
qed

lemma azure_service_createBlockBlob:
  assumes "azure_service A blobs blocks" and "on_ext (az_createBlockBlob A sdk c n) w = (e, w')"
  shows "blobs (w_ext w') = (blobs (w_ext w))((c, n) \<mapsto> []) \<or> e \<noteq> None \<and> blobs (w_ext w') = blobs (w_ext w)"
proof -
  have "took_effect blobs blocks e (w_ext w) (w_ext w') ((blobs (w_ext w))((c, n) \<mapsto> []))
      ((blocks (w_ext w))((c, n) := Map.empty))"
    using assms(1) unfolding on_ext_result [OF assms(2)] azure_service_def by blast
  then show ?thesis by (auto simp: took_effect_def)
qed

lemma azure_service_putBlockList:
  assumes "azure_service A blobs blocks" and "on_ext (az_putBlockList A sdk c n ids) w = (e, w')"
  shows "blobs (w_ext w') = (blobs (w_ext w))((c, n) \<mapsto> concat (map (\<lambda>i. the (blocks (w_ext w) (c, n) i)) ids))
    \<or> e \<noteq> None \<and> blobs (w_ext w') = blobs (w_ext w)"
proof -
  have "took_effect blobs blocks e (w_ext w) (w_ext w')
      ((blobs (w_ext w))((c, n) \<mapsto> concat (map (\<lambda>i. the (blocks (w_ext w) (c, n) i)) ids)))
      ((blocks (w_ext w))((c, n) := Map.empty))"
    using assms(1) unfolding on_ext_result [OF assms(2)] azure_service_def by blast
  then show ?thesis by (auto simp: took_effect_def)
qed

text \<open>All outcomes of the upload of one file.\<close>

lemma Azure_uploadFile_outcomes:
  assumes svc: "azure_service A blobs blocks" and up: "Azure_uploadFile E A lg sdk c l n w = (r, w')"
  shows "(r = Ok () \<and> (\<exists>f. e_open E l = Inr f \<and> blobs (w_ext w') = (blobs (w_ext w))((c, n) \<mapsto> f_data f)))
    \<or> (\<exists>e. r = Err e \<and> (blobs (w_ext w') = blobs (w_ext w)
          \<or> blobs (w_ext w') = (blobs (w_ext w))((c, n) \<mapsto> [])
          \<or> (\<exists>f. e_open E l = Inr f \<and> blobs (w_ext w') = (blobs (w_ext w))((c, n) \<mapsto> f_data f))))"
proof (cases "e_open E l")
  case (Inl e)
  with up show ?thesis by (auto simp: Azure_uploadFile_def Let_def)
next
  case (Inr f)
  let ?w1 = "log_info lg (''uploadFile: '' @ l @ '' to '' @ n) [] w"
  obtain e2 w2 where 2: "on_ext (az_createBlockBlob A sdk c n) ?w1 = (e2, w2)" by fastforce
  note created = azure_service_createBlockBlob [OF svc 2, simplified log_info_frame]
  obtain r3 w3 where 3: "put_chunks A sdk c n f 0 0 [] w2 = (r3, w3)" by fastforce
  note chunks = put_chunks_content [OF svc 3, simplified]
  show ?thesis
  proof (cases e2)
    case (Some e)
    with up Inr 2 [simplified] created show ?thesis by (auto simp: Azure_uploadFile_def Let_def)
  next
    case None
    have up3: "Azure_uploadFile E A lg sdk c l n w =
        (case r3 of Panic m \<Rightarrow> (Panic m, w3) | Err e \<Rightarrow> (Err e, w3)
         | Ok ids \<Rightarrow> (case on_ext (az_putBlockList A sdk c n ids) w3 of
              (Some e, w4) \<Rightarrow> (Err (''error in uploadFile put list of blocks: '' @ e), w4)
            | (None, w4) \<Rightarrow> (Ok (), w4)))"
      unfolding Azure_uploadFile_def Let_def Inr sum.case 2 prod.case None option.case 3 ..
    show ?thesis
    proof (cases r3)
      case (Ok ids)
      obtain e4 w4 where 4: "on_ext (az_putBlockList A sdk c n ids) w3 = (e4, w4)" by fastforce
      from azure_service_putBlockList [OF svc 4] chunks created None Ok
      have "blobs (w_ext w4) = (blobs (w_ext w))((c, n) \<mapsto> f_data f)
          \<or> e4 \<noteq> None \<and> blobs (w_ext w4) = (blobs (w_ext w))((c, n) \<mapsto> [])"
        by auto
      then show ?thesis using up up3 Ok 4 Inr by (cases e4) auto
    next
      case (Err e)
      then show ?thesis using up up3 chunks created None by auto
    next
      case (Panic m)
      have "fst (put_chunks A sdk c n f off i ids w) \<noteq> Panic m" for off i ids w
        by (induction A sdk c n f off i ids w rule: put_chunks.induct)
          (subst put_chunks.simps, auto split: read_result.splits prod.splits option.splits)
      with 3 Panic show ?thesis by (metis fst_conv)
    qed
  qed
qed

section \<open>The folder\<close>

definition azure_objects :: "'x env \<Rightarrow> string \<Rightarrow> string \<Rightarrow> string \<Rightarrow> (blob_id \<times> string) list" where
  "azure_objects E container localDir remoteRoot =
     map (\<lambda>ns. ((container, mk_path (is_rooted remoteRoot) (path_elems remoteRoot @ ns)),
                file_content (e_open E) (entry_path localDir ns)))
       (file_names (e_lstat E localDir))"

lemma Azure_uploadDir_stores:
  assumes svc: "azure_service A blobs blocks"
    and up: "Azure_uploadDir E A a l remote lg w = (Ok u, w')"
    and wf: "wf_tree (e_lstat E l)" and "plain_folder l" and "folder_once l (e_lstat E l)"
    and "remote \<noteq> []"
  shows "all_readable (e_open E) l (e_lstat E l)
    \<and> blobs (w_ext w') = blobs (w_ext w) ++ map_of (azure_objects E (azc_container a) l remote)"
proof -
  let ?put = "Azure_uploadFile E A lg (Azure_sdk a) (azc_container a)"
  let ?key = "\<lambda>r. (azc_container a, r)"
  obtain w1 where new: "on_ext (az_createIfNotExists A (Azure_sdk a) (azc_container a)) w = (None, w1)"
    and walk: "filepath_Walk (e_lstat E) (upload_callback ?put remote l) l w1 = (Ok u, w')"
    using up by (auto simp: Azure_uploadDir_walk split: prod.splits option.splits)
  have "took_effect blobs blocks None (w_ext w) (w_ext w1) (blobs (w_ext w)) (blocks (w_ext w))"
    using svc on_ext_result [OF new] unfolding azure_service_def by metis
  then have same: "blobs (w_ext w1) = blobs (w_ext w)" by (auto simp: took_effect_def)
  have put: "\<exists>f. e_open E l' = Inr f \<and> blobs (w_ext t') = (blobs (w_ext t))(?key r \<mapsto> f_data f)"
    if "?put l' r t = (Ok v, t')" for l' r t t' v
    using Azure_uploadFile_outcomes [OF svc that] by auto
  show ?thesis
    unfolding azure_objects_def same [symmetric]
    by (rule walk_stores_files [where stored = "\<lambda>t. blobs (w_ext t)" and key = ?key,
          OF walk wf assms(4,6,5)]) (erule put, metis mk_path_inj prod.inject)
qed

text \<open>A service that never fails: then the upload of readable files succeeds.\<close>

definition azure_reliable :: "'x azure_api \<Rightarrow> bool" where
  "azure_reliable A =
     ((\<forall>sdk. az_newClient A sdk = None)
      \<and> (\<forall>sdk c x. fst (az_createIfNotExists A sdk c x) = None)
      \<and> (\<forall>sdk c n x. fst (az_createBlockBlob A sdk c n x) = None)
      \<and> (\<forall>sdk c n i d x. fst (az_putBlock A sdk c n i d x) = None)
      \<and> (\<forall>sdk c n is x. fst (az_putBlockList A sdk c n is x) = None))"

lemma put_chunks_Ok:
  assumes "azure_reliable A" and "f_fault f = None"
  shows "\<exists>ids. fst (put_chunks A sdk c n f off i ks w) = Ok ids"
  using assms
proof (induction A sdk c n f off i ks w rule: put_chunks.induct)
  case (1 A sdk c n f off i ks w)
  show ?case
  proof (cases "file_Read f off ChunkSize")
    case (RData chunk)
    obtain w1 where p: "on_ext (az_putBlock A sdk c n (blockID i) chunk) w = (None, w1)"
      using "1.prems"(1) by (metis azure_reliable_def on_ext_frame(1) prod.collapse)
    from "1.IH" [OF RData p [symmetric] refl "1.prems"] RData p show ?thesis
      by (simp add: put_chunks.simps [of A sdk c n f off])
  next
    case (RFail e)
    with "1.prems"(2) show ?thesis by (auto simp: file_Read_RFail)
  qed (simp add: put_chunks.simps [of A sdk c n f off])
qed

lemma Azure_uploadFile_Ok:
  assumes A: "azure_reliable A" and f: "e_open E l = Inr f" "f_fault f = None"
  shows "fst (Azure_uploadFile E A lg sdk c l n w) = Ok ()"
proof -
  let ?w1 = "log_info lg (''uploadFile: '' @ l @ '' to '' @ n) [] w"
  obtain w2 where 2: "on_ext (az_createBlockBlob A sdk c n) ?w1 = (None, w2)"
    using A unfolding azure_reliable_def by (metis on_ext_frame(1) prod.collapse)
  obtain ids w3 where 3: "put_chunks A sdk c n f 0 0 [] w2 = (Ok ids, w3)"
    using put_chunks_Ok [OF A f(2)] by (metis prod.collapse)
  obtain w4 where 4: "on_ext (az_putBlockList A sdk c n ids) w3 = (None, w4)"
    using A unfolding azure_reliable_def by (metis on_ext_frame(1) prod.collapse)
  show ?thesis
    unfolding Azure_uploadFile_def Let_def f sum.case 2 prod.case option.case 3 res.case 4 by simp
qed

lemma Azure_uploadDir_Ok:
  assumes A: "azure_reliable A" and "wf_tree (e_lstat E l)" and "no_gone (e_lstat E l)"
    and "all_sound (e_open E) l (e_lstat E l)"
  shows "fst (Azure_uploadDir E A a l r lg w) = Ok ()"
proof -
  let ?put = "Azure_uploadFile E A lg (Azure_sdk a) (azc_container a)"
  have "fst (filepath_Walk (e_lstat E) (upload_callback ?put r l) l v) = Ok ()" for v
  proof (rule walk_succeeds [where lstat = "e_lstat E" and p = l, OF assms(2,3)])
    fix ns r t assume "ns \<in> set (file_names (e_lstat E l))"
    from all_soundE [OF assms(4) this]
    obtain f where "e_open E (entry_path l ns) = Inr f" "f_fault f = None" .
    then show "fst (?put (entry_path l ns) r t) = Ok ()" by (rule Azure_uploadFile_Ok [OF A])
  qed
  then show ?thesis
    using A by (simp add: Azure_uploadDir_walk case_prod_beta azure_reliable_def)
qed

section \<open>A blob store in memory\<close>

type_synonym mem_azure_state = "(blob_id \<rightharpoonup> string) \<times> (blob_id \<Rightarrow> string \<rightharpoonup> string)"

definition mem_azure :: "mem_azure_state azure_api" where
  "mem_azure =
     \<lparr>az_newClient = (\<lambda>sdk. None), az_createIfNotExists = (\<lambda>sdk c x. (None, x)),
      az_createBlockBlob = (\<lambda>sdk c n (bs, ks). (None, bs((c, n) \<mapsto> []), ks((c, n) := Map.empty))),
      az_putBlock = (\<lambda>sdk c n i d (bs, ks). (None, bs, ks((c, n) := (ks (c, n))(i \<mapsto> d)))),
      az_putBlockList = (\<lambda>sdk c n is (bs, ks).
        (None, bs((c, n) \<mapsto> concat (map (\<lambda>i. the (ks (c, n) i)) is)), ks((c, n) := Map.empty)))\<rparr>"

lemma mem_azure_laws: "azure_service mem_azure fst snd" "azure_reliable mem_azure"
  by (auto simp: azure_service_def azure_reliable_def took_effect_def mem_azure_def)

definition sample_azure :: "'x env \<Rightarrow> 'x azure_client" where
  "sample_azure E = Azure_New ''azure'' ''key'' ''account'' ''box'' [] (RemotePathFunc E ''db'' ''prod'')"

lemma put_chunks_read_error:
  assumes "f_fault f = Some (k, e)" and "k \<le> length (f_data f)"
  shows "fst (put_chunks A sdk c n f off i ks w) \<noteq> Ok ids"
  using assms
proof (induction A sdk c n f off i ks w rule: put_chunks.induct)
  case (1 A sdk c n f off i ks w)
  show ?case
  proof (cases "file_Read f off ChunkSize")
    case (RData chunk)
    obtain r w1 where p: "on_ext (az_putBlock A sdk c n (blockID i) chunk) w = (r, w1)" by fastforce
    from "1.IH" [OF RData p [symmetric]] "1.prems" RData p show ?thesis
      by (cases r) (auto simp: put_chunks.simps [of A sdk c n f off])
  next
    case REOF
    then have "length (f_data f) \<le> off" by (rule file_Read_REOF) (simp add: ChunkSize_def)
    with "1.prems" have "file_Read f off ChunkSize = RFail e" by (auto simp: file_Read_RFail)
    with REOF show ?thesis by simp
  qed (simp add: put_chunks.simps [of A sdk c n f off])
qed

definition sample_sdk :: az_sdk where
  "sample_sdk = \<lparr>az_account = ''account'', az_key = ''key'', az_endpoint = az_DefaultBaseURL,
     az_version = az_DefaultAPIVersion, az_https = True\<rparr>"

lemma sample_azure_path [simp]:
  "azc_remotePathFn (sample_azure E) = RemotePathFunc E ''db'' ''prod''"
  "azc_container (sample_azure E) = ''box''"
  by (simp_all add: sample_azure_def Azure_New_def)

section \<open>The number of blocks\<close>

definition chunks_of :: "nat \<Rightarrow> nat" where
  "chunks_of n = (n + (ChunkSize - 1)) div ChunkSize"

fun the_Ok :: "'a list res \<Rightarrow> 'a list" where
  "the_Ok (Ok xs) = xs"
| "the_Ok _ = []"

lemma distinct_blockIDs: "distinct (map blockID [0..<n])"
  by (auto simp: distinct_map inj_on_def blockID_inj)

lemma chunks_of_step:
  assumes "n < m"
  shows "chunks_of (m - n) = Suc (chunks_of (m - (n + min ChunkSize (m - n))))"
proof (cases "m - n \<le> ChunkSize")
  case True
  then have "(m - n + (ChunkSize - 1)) div ChunkSize = 1"
    using assms by (intro div_nat_eqI) (simp_all add: ChunkSize_def)
  with True show ?thesis by (simp add: chunks_of_def ChunkSize_def)
next
  case False
  then obtain d where d: "m - n = ChunkSize + d" by (metis le_add_diff_inverse nat_le_linear)
  then have "m - (n + min ChunkSize (m - n)) = d" using False assms by simp
  with d show ?thesis by (simp add: chunks_of_def ChunkSize_def)
qed

lemma put_chunks_count:
  assumes "put_chunks A sdk c n f off i ks w = (Ok ids, w')" and "ChunkSize \<le> Suc (f_burst f)"
    and "ks = map blockID [0..<i]" and "i = i0" and "length (f_data f) - off = left"
  shows "ids = map blockID [0..<i0 + chunks_of left]"
  using assms
proof (induction A sdk c n f off i ks w arbitrary: i0 left rule: put_chunks.induct)
  case (1 A sdk c n f off i ks w)
  show ?case
  proof (cases "file_Read f off ChunkSize")
    case REOF
    then have "length (f_data f) \<le> off" by (rule file_Read_REOF) (simp add: ChunkSize_def)
    with REOF "1.prems" show ?thesis
      by (auto simp: put_chunks.simps [of A sdk c n f off] chunks_of_def ChunkSize_def)
  next
    case (RFail e)
    with "1.prems"(1) show ?thesis by (simp add: put_chunks.simps [of A sdk c n f off])
  next
    case (RData chunk)
    obtain e w1 where p: "on_ext (az_putBlock A sdk c n (blockID i) chunk) w = (e, w1)" by fastforce
    with RData "1.prems"(1) have e: "e = None"
      and rest: "put_chunks A sdk c n f (off + length chunk) (Suc i) (ks @ [blockID i]) w1 = (Ok ids, w')"
      by (auto simp: put_chunks.simps [of A sdk c n f off] split: option.splits)
    have "length chunk = min ChunkSize (length (f_data f) - off)"
      using RData "1.prems"(2) by (auto simp: file_Read_def Let_def split: option.splits if_splits)
    then have "chunks_of left = Suc (chunks_of (length (f_data f) - (off + length chunk)))"
      using chunks_of_step [OF file_Read_RData(4) [OF RData]] "1.prems"(5) by simp
    with "1.IH" [OF RData p [unfolded e, symmetric] refl rest "1.prems"(2) _ refl refl] "1.prems"(3,4)
    show ?thesis by simp
  qed
qed

lemma Azure_Upload_stores:
  assumes "azure_service A blobs blocks"
    and fn: "azc_remotePathFn a = RemotePathFunc E base dep"
    and up: "Azure_Upload E A a localPath lg pm w = (Ok u, w')"
    and "wf_tree (e_lstat E localPath)" and "plain_folder localPath"
    and "folder_once localPath (e_lstat E localPath)"
  shows "all_readable (e_open E) localPath (e_lstat E localPath)
    \<and> blobs (w_ext w') = blobs (w_ext w) ++ map_of (azure_objects E (azc_container a) localPath
          (remotePathOn base dep (t_date (e_clock E (w_now w)))))"
proof -
  let ?remote = "remotePathOn base dep (t_date (e_clock E (w_now w)))"
  obtain v where dir: "Azure_uploadDir E A a localPath ?remote lg v = (Ok u, w')"
    and v: "w_ext v = w_ext w"
    using up by (auto simp: Azure_Upload_def fn RemotePathFunc_def time_Now_def)
  have "?remote \<noteq> []" by (simp add: remotePathOn_def datePath_def)
  from Azure_uploadDir_stores [OF assms(1) dir assms(4-6) this] v show ?thesis by simp
qed

section \<open>Properties\<close>

text \<open>C10: The upload of one file to Azure never leaves a part of a file: whatever requests fail, and
  whether a failed request had its effect or not, afterwards the blob is as before, or empty,
  or the whole file, and no other blob has changed; the upload reports success only with
  the whole file committed.\<close>

theorem Azure_uploadFile_whole:
  assumes "azure_service A blobs blocks" and "Azure_uploadFile E A lg sdk c l n w = (r, w')"
  shows "(\<exists>v. blobs (w_ext w') = (blobs (w_ext w))((c, n) := v)
      \<and> (v = blobs (w_ext w) (c, n) \<or> v = Some [] \<or> (\<exists>f. e_open E l = Inr f \<and> v = Some (f_data f)))
      \<and> (r = Ok () \<longrightarrow> (\<exists>f. e_open E l = Inr f \<and> v = Some (f_data f))))"
  using Azure_uploadFile_outcomes [OF assms]
  by (intro exI [of _ "blobs (w_ext w') (c, n)"]) (elim disjE conjE exE; simp)

theorem Azure_uploadFile_whole_witness:
  "fst (w_ext (snd (Azure_uploadFile (still_env sample_tree) mem_azure root_logger sample_sdk ''box''
      ''/var/db/a'' ''db/a'' (start_world (Map.empty, \<lambda>b. Map.empty)))))
   = [(''box'', ''db/a'') \<mapsto> ''/var/db/a'']"
proof -
  let ?E = "still_env sample_tree :: mem_azure_state env"
  let ?up = "Azure_uploadFile ?E mem_azure root_logger sample_sdk ''box'' ''/var/db/a'' ''db/a''
    (start_world (Map.empty, \<lambda>b. Map.empty))"
  have "fst ?up = Ok ()"
    by (rule Azure_uploadFile_Ok [OF mem_azure_laws(2)]) (simp add: path_file_def, simp)
  then have "?up = (Ok (), snd ?up)" by (metis prod.collapse)
  from Azure_uploadFile_whole [OF mem_azure_laws(1) this] show ?thesis
    by (auto simp: path_file_def)
qed

text \<open>C3: Under the conditions below, an Azure upload that reports success has stored every file of
  the folder that the walk lists: each could be opened, and the committed blobs
  afterwards are those before, extended by exactly one blob per listed file, with its whole
  content, named by the remote path of the day and the names below the folder.  A directory
  that cannot be listed counts as empty: its files are not stored and the upload still
  reports success (the walk is the one of the S3 client, \<open>S3_UploadDir_ignores_unlisted\<close>).  The
  conditions: the SDK's calls do what they document; names in a listing are proper and
  different; and the local folder has an absolute clean path that does not occur again inside
  the paths of its files (without this two files can have one name).\<close>

theorem Azure_Upload_stores_folder:
  assumes "azure_service A blobs blocks"
    and fn: "azc_remotePathFn a = RemotePathFunc E base dep"
    and up: "Azure_Upload E A a localPath lg pm w = (Ok u, w')"
    and "wf_tree (e_lstat E localPath)" and "plain_folder localPath"
    and "folder_once localPath (e_lstat E localPath)"
  shows "all_readable (e_open E) localPath (e_lstat E localPath)
    \<and> blobs (w_ext w') = blobs (w_ext w) ++ map_of (azure_objects E (azc_container a) localPath
          (remotePathOn base dep (t_date (e_clock E (w_now w)))))"
  by (rule Azure_Upload_stores [OF assms])

theorem Azure_Upload_stores_folder_witness:
  "fst (w_ext (snd (Azure_Upload (still_env sample_tree) mem_azure (sample_azure (still_env sample_tree))
      ''/var/db'' root_logger (\<lambda>c x. (([], None), x)) (start_world (Map.empty, \<lambda>b. Map.empty)))))
   = [(''box'', ''db/prod/2024/09/30/a'') \<mapsto> ''/var/db/a'',
      (''box'', ''db/prod/2024/09/30/logs/b'') \<mapsto> ''/var/db/logs/b'']"
proof -
  let ?E = "still_env sample_tree :: mem_azure_state env"
  let ?pm = "(\<lambda>c x. (([], None), x)) :: mem_azure_state process_manager"
  let ?up = "Azure_Upload ?E mem_azure (sample_azure ?E) ''/var/db'' root_logger ?pm
    (start_world (Map.empty, \<lambda>b. Map.empty))"
  have "fst ?up = Ok ()"
    by (simp add: Azure_Upload_def case_prod_beta Azure_uploadDir_Ok mem_azure_laws sample_tree_ok)
  then have "?up = (Ok (), snd ?up)" by (metis prod.collapse)
  from Azure_Upload_stores_folder [OF mem_azure_laws(1) sample_azure_path(1) this]
  show ?thesis
    by (simp add: sample_tree_ok azure_objects_def path_eval file_content_def path_file_def
        entry_path_def fun_upd_twist remotePathOn_def pathPrefix_def datePath_def int_dec_def pad0_def
        nat_dec.simps digit_char_eval)
qed

text \<open>C32: The loop over a file ends with exactly as many blocks as the size of the file needs: when it
  succeeds and reads fill the buffer, a file of \<open>n\<close> bytes has been cut into \<open>n\<close> divided by the
  chunk size, rounded up, blocks, numbered from 0, whose identifiers are pairwise different
  and, for files up to ten million chunks, all of the same length, as the service requires
  of the identifiers of one blob.\<close>

theorem put_chunks_blocks:
  assumes "put_chunks A sdk c n f 0 0 [] w = (Ok ids, w')" and "ChunkSize \<le> Suc (f_burst f)"
    and "length (f_data f) \<le> 10 ^ 7 * ChunkSize"
  shows "length ids = chunks_of (length (f_data f)) \<and> distinct ids \<and> list_all (\<lambda>k. length k = 24) ids"
proof -
  have len: "length ids = chunks_of (length (f_data f))"
    and ids: "ids = map blockID [0..<length ids]"
    using put_chunks_count [OF assms(1,2)] by simp_all
  have "length ids \<le> 10 ^ 7"
    using assms(3) unfolding len chunks_of_def by (simp add: ChunkSize_def)
  then show ?thesis
    using len ids by (auto simp: list_all_iff length_blockID distinct_blockIDs)
qed

theorem put_chunks_blocks_witness:
  "length (the_Ok (fst (put_chunks mem_azure sample_sdk ''box'' ''db/a'' \<lparr>f_data = ''abc'', f_burst = ChunkSize, f_fault = None\<rparr>
      0 0 [] (start_world (Map.empty, \<lambda>b. Map.empty))))) = 1"
proof -
  let ?f = "\<lparr>f_data = ''abc'', f_burst = ChunkSize, f_fault = None\<rparr>"
  let ?p = "put_chunks mem_azure sample_sdk ''box'' ''db/a'' ?f 0 0 [] (start_world (Map.empty, \<lambda>b. Map.empty))"
  have "\<exists>ids. fst ?p = Ok ids" by (rule put_chunks_Ok [OF mem_azure_laws(2)]) simp
  then obtain ids where ids: "fst ?p = Ok ids" ..
  then have "?p = (Ok ids, snd ?p)" by (metis prod.collapse)
  from put_chunks_blocks [OF this] ids show ?thesis by (simp add: ChunkSize_def chunks_of_def)
qed

text \<open>A read error of the local file fails the upload, at every position of the error up to the
  end of the file: no truncated copy is committed.\<close>

lemma Azure_uploadFile_read_error:
  assumes "e_open E l = Inr f" and "f_fault f = Some (k, e)" and "k \<le> length (f_data f)"
  shows "fst (Azure_uploadFile E A lg sdk c l n w) \<noteq> Ok ()"
proof
  assume "fst (Azure_uploadFile E A lg sdk c l n w) = Ok ()"
  then obtain w2 w3 ids where "put_chunks A sdk c n f 0 0 [] w2 = (Ok ids, w3)"
    by (auto simp: Azure_uploadFile_def assms(1) Let_def split: prod.splits option.splits res.splits)
  then show False using put_chunks_read_error [OF assms(2,3)] by (metis fst_conv)
qed

end
