(* ===== verification/GCS_Client.thy ===== *)
theory GCS_Client
  imports Tree_Upload Remote_Path
begin

text \<open>
  The Google Cloud Storage client (\<open>src/gcs/gcs.go\<close>).  The storage SDK is a parameter
  (\<open>gcs_api\<close>): the answers of the bucket iterator call by call, the creation of a bucket,
  and the writer of an object, whose upload completes when the writer is closed.
\<close>

section \<open>The SDK as a parameter\<close>

text \<open>
  \<open>gcs_buckets\<close> is what \<open>Next\<close> of the iterator answers, call by call, before
  \<open>iterator.Done\<close>.  The writer of an object is given by bucket, name and the bytes written
  so far; closing a writer that was never written to stores an empty object.
\<close>

record 'x gcs_api =
  gcs_newClient :: "string \<Rightarrow> 'x \<Rightarrow> gerror option \<times> 'x"
  gcs_buckets :: "string \<Rightarrow> 'x \<Rightarrow> (gerror + string) list"
  gcs_createBucket :: "string \<Rightarrow> string \<Rightarrow> 'x \<Rightarrow> gerror option \<times> 'x"
  gcs_write :: "string \<Rightarrow> string \<Rightarrow> string \<Rightarrow> string \<Rightarrow> 'x \<Rightarrow> gerror option \<times> 'x"
  gcs_close :: "string \<Rightarrow> string \<Rightarrow> string \<Rightarrow> 'x \<Rightarrow> gerror option \<times> 'x"

section \<open>The client\<close>

record 'x gcs_client =
  gc_serviceAccountFilePath :: string
  gc_projectID :: string
  gc_bucketName :: string
  gc_name :: string
  gc_remotePathFn :: "'x path_fn"

definition GCS_New :: "string \<Rightarrow> string \<Rightarrow> string \<Rightarrow> string \<Rightarrow> 'x path_fn \<Rightarrow> 'x gcs_client" where
  "GCS_New name serviceAccountFilePath projectID bucketName remotePathFn =
     \<lparr>gc_serviceAccountFilePath = serviceAccountFilePath, gc_projectID = projectID,
      gc_bucketName = bucketName, gc_name = name, gc_remotePathFn = remotePathFn\<rparr>"

text \<open>The loop over the bucket iterator: whether the bucket is among the listed ones.\<close>

fun scan_buckets :: "string \<Rightarrow> (gerror + string) list \<Rightarrow> bool res" where
  "scan_buckets bucketName [] = Ok False"
| "scan_buckets bucketName (Inl e # rest) = Err e"
| "scan_buckets bucketName (Inr attrName # rest) =
     (if attrName = bucketName then Ok True else scan_buckets bucketName rest)"

definition ensureBucketExists ::
  "'x gcs_api \<Rightarrow> 'x gcs_client \<Rightarrow> 'x world \<Rightarrow> string res \<times> 'x world" where
  "ensureBucketExists A s w =
     (case scan_buckets (gc_bucketName s) (gcs_buckets A (gc_projectID s) (w_ext w)) of
        Panic m \<Rightarrow> (Panic m, w)
      | Err e \<Rightarrow> (Err e, w)
      | Ok True \<Rightarrow> (Ok (gc_bucketName s), w)
      | Ok False \<Rightarrow>
          (case on_ext (gcs_createBucket A (gc_projectID s) (gc_bucketName s)) w of
             (Some e, w1) \<Rightarrow> (Err e, w1)
           | (None, w1) \<Rightarrow> (Ok (gc_bucketName s), w1)))"

text \<open>
  \<open>io.Copy\<close> with its buffer of 32 KiB: the error, the bytes written and the world.
\<close>

definition copyBufferSize :: nat where
  "copyBufferSize = 32 * 1024"

function (sequential) io_Copy ::
  "'x gcs_api \<Rightarrow> string \<Rightarrow> string \<Rightarrow> os_file \<Rightarrow> nat \<Rightarrow> string \<Rightarrow> 'x world
   \<Rightarrow> gerror option \<times> string \<times> 'x world" where
  "io_Copy A bucket obj f off written w =
     (case file_Read f off copyBufferSize of
        REOF \<Rightarrow> (None, written, w)
      | RFail e \<Rightarrow> (Some e, written, w)
      | RData chunk \<Rightarrow>
          (case on_ext (gcs_write A bucket obj written chunk) w of
             (Some e, w1) \<Rightarrow> (Some e, written, w1)
           | (None, w1) \<Rightarrow> io_Copy A bucket obj f (off + length chunk) (written @ chunk) w1))"
  by pat_completeness auto
termination
  by (relation "measure (\<lambda>(A, bucket, obj, f, off, written, w). length (f_data f) - off)")
    (auto dest: file_Read_advances)

declare io_Copy.simps [simp del]

text \<open>
  \<open>uploadFile\<close>: the writer is closed by the deferred call on every way out after its
  creation, and the error of \<open>Close\<close> is dropped.
\<close>

definition GCS_uploadFile ::
  "'x env \<Rightarrow> 'x gcs_api \<Rightarrow> 'x gcs_client \<Rightarrow> string \<Rightarrow> string \<Rightarrow> string \<Rightarrow> logger \<Rightarrow> 'x world
   \<Rightarrow> unit res \<times> 'x world" where
  "GCS_uploadFile E A s baseDir fileAbsPath bucket lg w =
     (case filepath_Rel baseDir fileAbsPath of
        Panic m \<Rightarrow> (Panic m, w)
      | Err e \<Rightarrow> (Err e, w)
      | Ok relativePath \<Rightarrow>
          (case gc_remotePathFn s w of
             (remotePath, w1) \<Rightarrow>
               let nameInBucket = remotePath @ ''/'' @ relativePath;
                   w2 = log_info lg (''will upload '' @ nameInBucket @ '' to bucket '' @ gc_bucketName s) [] w1
               in case e_open E fileAbsPath of
                    Inl e \<Rightarrow> (Err e, snd (on_ext (gcs_close A bucket nameInBucket []) w2))
                  | Inr f \<Rightarrow>
                      (case io_Copy A bucket nameInBucket f 0 [] w2 of
                         (err, written, w3) \<Rightarrow>
                           (res_of_error err, snd (on_ext (gcs_close A bucket nameInBucket written) w3)))))"

text \<open>The closure \<open>errs\<close> of \<open>Upload\<close>: wrap the error and log it.\<close>

definition gcs_errs :: "logger \<Rightarrow> string \<Rightarrow> gerror \<Rightarrow> 'x world \<Rightarrow> unit res \<times> 'x world" where
  "gcs_errs lg action e w =
     (let wrappedErr = ''error '' @ action @ '': '' @ e
      in (Err wrappedErr, log_error lg ''error uploading to Google Cloud Storage'' wrappedErr w))"

definition GCS_callback ::
  "'x env \<Rightarrow> 'x gcs_api \<Rightarrow> 'x gcs_client \<Rightarrow> string \<Rightarrow> string \<Rightarrow> logger \<Rightarrow> 'x world walk_fn" where
  "GCS_callback E A s dirToUpload bucket lg path info err w =
     (case err of
        Some e \<Rightarrow> (Err e, w)
      | None \<Rightarrow>
          (case info of
             None \<Rightarrow> (Panic ''nil pointer dereference'', w)
           | Some i \<Rightarrow>
               if isDir i then (Ok (), w)
               else (case GCS_uploadFile E A s dirToUpload path bucket lg w of
                       (Panic m, w1) \<Rightarrow> (Panic m, w1)
                     | (Err e, w1) \<Rightarrow> gcs_errs lg ''uploading file'' e w1
                     | (Ok _, w1) \<Rightarrow> (Ok (), w1))))"

definition GCS_Upload :: "'x env \<Rightarrow> 'x gcs_api \<Rightarrow> 'x gcs_client \<Rightarrow> 'x upload_fn" where
  "GCS_Upload E A s dirToUpload lg pm w =
     (case on_ext (gcs_newClient A (gc_serviceAccountFilePath s))
             (log_info lg (''will upload '' @ dirToUpload @ '' to Google Cloud Storage'') [] w) of
        (Some e, w1) \<Rightarrow> gcs_errs lg ''creating Google Cloud Storage client'' e w1
      | (None, w1) \<Rightarrow>
          (case ensureBucketExists A s w1 of
             (Panic m, w2) \<Rightarrow> (Panic m, w2)
           | (Err e, w2) \<Rightarrow> gcs_errs lg ''creating bucket'' e w2
           | (Ok bucket, w2) \<Rightarrow>
               (case time_Now E w2 of
                  (today, w3) \<Rightarrow>
                    filepath_Walk (e_lstat E) (GCS_callback E A s dirToUpload bucket lg) dirToUpload w3)))"

definition GCS_Name :: "'x gcs_client \<Rightarrow> string" where
  "GCS_Name s = gc_name s"

section \<open>The client only extends the histories\<close>

lemma io_Copy_grows: "world_grows w (snd (snd (io_Copy A b obj f off d w)))"
proof (induction A b obj f off d w rule: io_Copy.induct)
  case (1 A b obj f off d w)
  show ?case
  proof (cases "file_Read f off copyBufferSize")
    case (RData chunk)
    obtain e w1 where p: "on_ext (gcs_write A b obj d chunk) w = (e, w1)" by fastforce
    then have g: "world_grows w w1" by (auto intro: world_grows_result(4))
    show ?thesis
      using "1.IH" [OF RData p [symmetric]] RData p g
      by (cases e) (auto simp: io_Copy.simps [of A b obj f off] intro: world_grows_trans)
  qed (simp_all add: io_Copy.simps [of A b obj f off])
qed

lemma GCS_uploadFile_grows:
  assumes "\<And>v. world_grows v (snd (gc_remotePathFn s v))"
  shows "world_grows w (snd (GCS_uploadFile E A s base p b lg w))"
proof -
  have copied: "world_grows u v \<Longrightarrow> world_grows u (snd (snd (io_Copy A b n f off d v)))"
    for u v n f off d using io_Copy_grows world_grows_trans by blast
  show ?thesis
    by (simp add: GCS_uploadFile_def case_prod_beta Let_def grows_intros assms copied
        split: res.split sum.split)
qed

lemma GCS_Upload_grows:
  assumes "\<And>v. world_grows v (snd (gc_remotePathFn s v))"
  shows "world_grows w (snd (GCS_Upload E A s dir lg pm w))"
proof -
  have uploaded: "world_grows u v \<Longrightarrow> world_grows u (snd (GCS_uploadFile E A s dir p b lg v))" for u v p b
    using GCS_uploadFile_grows [OF assms] world_grows_trans by blast
  have "world_grows t (snd (GCS_callback E A s dir b lg p d e t))" for b p d e t
    by (simp add: GCS_callback_def case_prod_beta gcs_errs_def Let_def grows_intros uploaded
        split: option.split res.split)
  then have walked: "world_grows u v \<Longrightarrow>
      world_grows u (snd (filepath_Walk (e_lstat E) (GCS_callback E A s dir b lg) dir v))" for u v b
    using walk_grows world_grows_trans by blast
  have bucket: "world_grows u v \<Longrightarrow> world_grows u (snd (ensureBucketExists A s v))" for u v
    by (simp add: ensureBucketExists_def case_prod_beta grows_intros
        split: option.split res.split bool.split)
  show ?thesis
    by (simp add: GCS_Upload_def case_prod_beta gcs_errs_def Let_def grows_intros bucket walked
        split: option.split res.split)
qed

definition gcs_uploader :: "'x env \<Rightarrow> 'x gcs_api \<Rightarrow> 'x gcs_client \<Rightarrow> 'x uploader" where
  "gcs_uploader E A s = \<lparr>upl_Upload = GCS_Upload E A s, upl_Name = GCS_Name s\<rparr>"

interpretation gcs: uploader_contract
  "GCS_Upload E A (GCS_New name account project bucket (RemotePathFunc E base dep))"
  for E A name account project bucket base dep
  by unfold_locales (rule GCS_Upload_grows, simp add: GCS_New_def grows_intros)

section \<open>What the service stores\<close>

text \<open>
  The documented behaviour of the service: an object is stored when its writer is closed
  without an error (with an error it is stored or it is not); the other calls store
  nothing.
\<close>

type_synonym gcs_objects_map = "string \<times> string \<rightharpoonup> string"

definition gcs_service :: "'x gcs_api \<Rightarrow> ('x \<Rightarrow> gcs_objects_map) \<Rightarrow> bool" where
  "gcs_service A objs =
     ((\<forall>b n d x. objs (snd (gcs_close A b n d x)) = (objs x)((b, n) \<mapsto> d)
         \<or> fst (gcs_close A b n d x) \<noteq> None \<and> objs (snd (gcs_close A b n d x)) = objs x)
      \<and> (\<forall>b n d c x. objs (snd (gcs_write A b n d c x)) = objs x)
      \<and> (\<forall>p x. objs (snd (gcs_newClient A p x)) = objs x)
      \<and> (\<forall>p b x. objs (snd (gcs_createBucket A p b x)) = objs x))"

lemma io_Copy_content:
  assumes "gcs_service A objs" and "io_Copy A b n f off d w = (err, written, w')"
    and "d = take off (f_data f)"
  shows "objs (w_ext w') = objs (w_ext w) \<and> prefix written (f_data f) \<and> w_now w' = w_now w
    \<and> (err = None \<longrightarrow> written = f_data f)"
  using assms
proof (induction A b n f off d w rule: io_Copy.induct)
  case (1 A b n f off d w)
  show ?case
  proof (cases "file_Read f off copyBufferSize")
    case REOF
    then have "length (f_data f) \<le> off" by (rule file_Read_REOF) (simp add: copyBufferSize_def)
    with REOF "1.prems" show ?thesis by (auto simp: io_Copy.simps [of A b n f off])
  next
    case (RFail e)
    with "1.prems" show ?thesis by (auto simp: io_Copy.simps [of A b n f off] take_is_prefix)
  next
    case (RData chunk)
    obtain e w1 where p: "on_ext (gcs_write A b n d chunk) w = (e, w1)" by fastforce
    have keep: "objs (w_ext w1) = objs (w_ext w)" "w_now w1 = w_now w"
      using "1.prems"(1) on_ext_frame [of "gcs_write A b n d chunk" w] by (auto simp: gcs_service_def p)
    have "d @ chunk = take (off + length chunk) (f_data f)"
      using file_Read_RData(5) [OF RData] "1.prems"(3) by (simp add: take_add)
    with "1.IH" [OF RData p [symmetric] _ "1.prems"(1)] RData p "1.prems" keep show ?thesis
      by (cases e) (auto simp: io_Copy.simps [of A b n f off] take_is_prefix)
  qed
qed

text \<open>The name of an object: the remote path at one clock reading and the names.\<close>

definition gcs_name :: "'x env \<Rightarrow> string \<Rightarrow> string \<Rightarrow> nat \<Rightarrow> string list \<Rightarrow> string" where
  "gcs_name E base dep n ns = remotePathOn base dep (t_date (e_clock E n)) @ ''/'' @ str_join [slash] ns"

text \<open>
  The specification of an upload: the \<open>i\<close>-th file of the walk is an object whose name has
  the date of the \<open>i\<close>-th clock reading after the start.
\<close>

definition gcs_objects ::
  "'x env \<Rightarrow> string \<Rightarrow> string \<Rightarrow> string \<Rightarrow> string \<Rightarrow> nat \<Rightarrow> string list list \<Rightarrow> ((string \<times> string) \<times> string) list" where
  "gcs_objects E bucket base dep dir n files =
     map (\<lambda>(i, ns). ((bucket, gcs_name E base dep i ns), file_content (e_open E) (entry_path dir ns)))
       (zip [n..<n + length files] files)"

text \<open>The upload of the file with the names \<open>ns\<close>, with the object's name in place.\<close>

lemma GCS_uploadFile_eq:
  assumes fn: "gc_remotePathFn s = RemotePathFunc E base dep"
    and names: "\<forall>n \<in> set ns. valid_name n" "ns \<noteq> []"
  shows "GCS_uploadFile E A s dir (entry_path dir ns) b lg w =
    (let n = gcs_name E base dep (w_now w) ns;
         w2 = log_info lg (''will upload '' @ n @ '' to bucket '' @ gc_bucketName s) [] (w\<lparr>w_now := Suc (w_now w)\<rparr>)
     in case e_open E (entry_path dir ns) of
          Inl e \<Rightarrow> (Err e, snd (on_ext (gcs_close A b n []) w2))
        | Inr f \<Rightarrow> (case io_Copy A b n f 0 [] w2 of
            (err, written, w3) \<Rightarrow> (res_of_error err, snd (on_ext (gcs_close A b n written) w3))))"
proof -
  have rel: "filepath_Rel dir (entry_path dir ns) = Ok (str_join [slash] ns)"
    using filepath_Rel_below [of ns dir] names by (simp add: entry_path_def)
  show ?thesis
    unfolding GCS_uploadFile_def rel res.case fn RemotePathFunc_def time_Now_def prod.case Let_def gcs_name_def ..
qed

text \<open>One file, whatever happens: the object is stored with a prefix of the file or it is not.\<close>

lemma GCS_uploadFile_outcomes:
  assumes svc: "gcs_service A objs" and fn: "gc_remotePathFn s = RemotePathFunc E base dep"
    and names: "\<forall>n \<in> set ns. valid_name n" "ns \<noteq> []"
    and up: "GCS_uploadFile E A s dir (entry_path dir ns) b lg w = (r, w')"
  shows "w_now w' = Suc (w_now w) \<and> (\<forall>m. r \<noteq> Panic m)
    \<and> (\<exists>written. (objs (w_ext w') = (objs (w_ext w))((b, gcs_name E base dep (w_now w) ns) \<mapsto> written)
          \<or> objs (w_ext w') = objs (w_ext w) \<and>
             (\<exists>x. fst (gcs_close A b (gcs_name E base dep (w_now w) ns) written x) \<noteq> None))
        \<and> prefix written (file_content (e_open E) (entry_path dir ns))
        \<and> (r = Ok () \<longrightarrow> \<not> isl (e_open E (entry_path dir ns))
             \<and> written = file_content (e_open E) (entry_path dir ns)))"
proof -
  let ?n = "gcs_name E base dep (w_now w) ns"
  let ?l = "entry_path dir ns"
  define w2 where "w2 = log_info lg (''will upload '' @ ?n @ '' to bucket '' @ gc_bucketName s) []
    (w\<lparr>w_now := Suc (w_now w)\<rparr>)"
  have w2: "w_now w2 = Suc (w_now w)" "w_ext w2 = w_ext w" by (simp_all add: w2_def)
  note eq = GCS_uploadFile_eq [OF fn names, of A dir b lg w, unfolded Let_def, folded w2_def]
  have close: "objs (w_ext (snd (on_ext (gcs_close A b ?n d) v))) = (objs (w_ext v))((b, ?n) \<mapsto> d)
      \<or> objs (w_ext (snd (on_ext (gcs_close A b ?n d) v))) = objs (w_ext v)
         \<and> (\<exists>x. fst (gcs_close A b ?n d x) \<noteq> None)" for d v
    using svc unfolding gcs_service_def on_ext_frame by blast
  show ?thesis
  proof (cases "e_open E ?l")
    case (Inl e)
    then show ?thesis
      using up eq w2 close [of "[]" w2] by (auto intro!: exI [of _ "[]"])
  next
    case (Inr f)
    obtain err written w3 where c: "io_Copy A b ?n f 0 [] w2 = (err, written, w3)" by (metis prod_cases3)
    note copied = io_Copy_content [OF svc c, simplified]
    have "r = res_of_error err" "w' = snd (on_ext (gcs_close A b ?n written) w3)"
      using up by (simp_all add: eq Inr c)
    then show ?thesis
      using copied w2 close [of written w3] by (auto simp: Inr file_content_def intro!: exI [of _ written])
  qed
qed

lemma gcs_name_inj:
  assumes "\<forall>n \<in> set ns. valid_name n" "ns \<noteq> []" "\<forall>n \<in> set ms. valid_name n" "ms \<noteq> []"
    and "gcs_name E base dep i ns = gcs_name E base dep j ms"
  shows "ns = ms"
proof -
  have split: "str_split slash (gcs_name E base dep k xs) =
      str_split slash (remotePathOn base dep (t_date (e_clock E k))) @ xs"
    if "\<forall>n \<in> set xs. valid_name n" "xs \<noteq> []" for k xs
    using that by (simp add: gcs_name_def str_split_append str_split_join valid_name_def)
  have "length (str_split slash (remotePathOn base dep d)) =
      length (str_split slash (remotePathOn base dep d'))" for d d'
    by (simp add: remotePathOn_def pathPrefix_def str_split_append str_split_datePath)
  then show ?thesis
    using split [OF assms(1,2), of i] split [OF assms(3,4), of j] assms(5)
    by (metis append_eq_append_conv)
qed

lemma gcs_objects_snoc:
  "gcs_objects E b base dep dir n (files @ [ns]) = gcs_objects E b base dep dir n files
     @ [((b, gcs_name E base dep (n + length files) ns), file_content (e_open E) (entry_path dir ns))]"
  by (simp add: gcs_objects_def)

lemma gcs_objects_distinct:
  assumes "distinct files" and "\<And>ns. ns \<in> set files \<Longrightarrow> ns \<noteq> [] \<and> (\<forall>n \<in> set ns. valid_name n)"
  shows "distinct (map fst (gcs_objects E b base dep dir n files))"
proof -
  have "map snd (zip [n..<n + length files] files) = files" by simp
  then have "distinct (map snd (zip [n..<n + length files] files))" using assms(1) by simp
  then show ?thesis
    unfolding gcs_objects_def map_map
    by (rule distinct_map_via) (use assms(2) in \<open>auto dest!: set_zip_rightD intro: gcs_name_inj\<close>)
qed

text \<open>A walk that ends well has stored every file, when \<open>Close\<close> does not fail.\<close>

lemma GCS_walk_stores:
  assumes svc: "gcs_service A objs" and closes: "\<And>b n d x. fst (gcs_close A b n d x) = None"
    and fn: "gc_remotePathFn s = RemotePathFunc E base dep"
    and wf: "wf_tree (e_lstat E dir)" and dir: "[] \<notin> set (file_names (e_lstat E dir))"
    and walk: "filepath_Walk (e_lstat E) (GCS_callback E A s dir b lg) dir w = (Ok u, w')"
  shows "clean_tree (e_lstat E dir) \<and> all_readable (e_open E) dir (e_lstat E dir)
    \<and> objs (w_ext w') = objs (w_ext w)
        ++ map_of (gcs_objects E b base dep dir (w_now w) (file_names (e_lstat E dir)))"
proof -
  let ?files = "file_names (e_lstat E dir)"
  let ?objs = "gcs_objects E b base dep dir (w_now w)"
  let ?put = "\<lambda>p. GCS_callback E A s dir b lg p (Some (FileInfo 0)) None"
  let ?I = "\<lambda>ys t. w_now t = w_now w + length ys
    \<and> objs (w_ext t) = objs (w_ext w) ++ map_of (rev (?objs ys))
    \<and> (\<forall>ns \<in> set ys. \<not> isl (e_open E (entry_path dir ns)))"
  have valid: "ns \<noteq> [] \<and> (\<forall>n \<in> set ns. valid_name n)" if "ns \<in> set ?files" for ns
    using that dir file_names_valid [OF wf that] by auto
  have clean: "clean_tree (e_lstat E dir)"
    by (rule walk_Ok_clean [where lstat = "e_lstat E" and p = dir, OF wf walk])
      (auto simp: GCS_callback_def split: option.splits)
  have loop: "each_until (\<lambda>ns. ?put (entry_path dir ns)) ?files w = (Ok u, w')"
    using walk walk_files [where lstat = "e_lstat E" and p = dir and put = ?put
        and fn = "GCS_callback E A s dir b lg", OF _ _ wf clean]
    by (simp add: GCS_callback_def)
  have step: "?I (ys @ [ns]) t2"
    if "?I ys t1" "ns \<in> set ?files" "?put (entry_path dir ns) t1 = (Ok v, t2)" for ys ns t1 t2 v
  proof -
    have up: "GCS_uploadFile E A s dir (entry_path dir ns) b lg t1 = (Ok (), t2)"
      using that(3) by (auto simp: GCS_callback_def gcs_errs_def Let_def split: prod.splits res.splits)
    show ?thesis
      using GCS_uploadFile_outcomes [OF svc fn _ _ up] valid [OF that(2)] that(1) closes
      by (auto simp: gcs_objects_snoc)
  qed
  have "?I ?files w'"
    by (rule each_until_Ok_invariant [OF loop]) (simp add: gcs_objects_def, erule (2) step)
  moreover have "map_of (rev (?objs ?files)) = map_of (?objs ?files)"
    by (intro map_of_rev_distinct gcs_objects_distinct file_names_distinct wf) (rule valid)
  ultimately show ?thesis using clean by (auto simp: all_readable_def)
qed

section \<open>A bucket in memory\<close>

definition mem_gcs :: "gcs_objects_map gcs_api" where
  "mem_gcs =
     \<lparr>gcs_newClient = (\<lambda>file x. (None, x)), gcs_buckets = (\<lambda>project x. [Inr ''other'', Inr ''box'']),
      gcs_createBucket = (\<lambda>project b x. (None, x)), gcs_write = (\<lambda>b n d c x. (None, x)),
      gcs_close = (\<lambda>b n d x. (None, x((b, n) \<mapsto> d)))\<rparr>"

text \<open>The same with a \<open>Close\<close> that fails, so that nothing is stored.\<close>

definition broken_gcs :: "gcs_objects_map gcs_api" where
  "broken_gcs = mem_gcs\<lparr>gcs_close := (\<lambda>b n d x. (Some ''503 service unavailable'', x))\<rparr>"

lemma mem_gcs_service: "gcs_service mem_gcs (\<lambda>x. x)" "gcs_service broken_gcs (\<lambda>x. x)"
  by (simp_all add: gcs_service_def mem_gcs_def broken_gcs_def)

definition sample_gcs :: "'x env \<Rightarrow> 'x gcs_client" where
  "sample_gcs E = GCS_New ''gcs'' ''/account.json'' ''project'' ''box'' (RemotePathFunc E ''db'' ''prod'')"

text \<open>A clock that passes midnight after the second reading.\<close>

definition midnight_env :: "fsnode \<Rightarrow> 'x env" where
  "midnight_env node = (still_env node)
     \<lparr>e_clock := (\<lambda>n. \<lparr>t_date = Date 2024 9 (if n < 2 then 29 else 30), t_mono = int n\<rparr>)\<rparr>"

text \<open>
  A service that accepts every call but possibly \<open>Close\<close>: then the upload of a folder that can
  be read reports success.
\<close>

definition gcs_accepts :: "'x gcs_api \<Rightarrow> bool" where
  "gcs_accepts A =
     ((\<forall>p x. fst (gcs_newClient A p x) = None) \<and> (\<forall>p x. \<forall>r \<in> set (gcs_buckets A p x). \<not> isl r)
      \<and> (\<forall>p b x. fst (gcs_createBucket A p b x) = None) \<and> (\<forall>b n d c x. fst (gcs_write A b n d c x) = None))"

lemma scan_buckets_Ok: "\<forall>r \<in> set rs. \<not> isl r \<Longrightarrow> scan_buckets b rs = Ok (Inr b \<in> set rs)"
  by (induction b rs rule: scan_buckets.induct) auto

lemma io_Copy_Ok:
  assumes "gcs_accepts A" and "f_fault f = None"
  shows "fst (io_Copy A b n f off d w) = None"
  using assms
proof (induction A b n f off d w rule: io_Copy.induct)
  case (1 A b n f off d w)
  show ?case
  proof (cases "file_Read f off copyBufferSize")
    case (RData chunk)
    obtain w1 where p: "on_ext (gcs_write A b n d chunk) w = (None, w1)"
      using "1.prems"(1) by (metis gcs_accepts_def on_ext_frame(1) prod.collapse)
    from "1.IH" [OF RData p [symmetric] refl "1.prems"] RData p show ?thesis
      by (simp add: io_Copy.simps [of A b n f off])
  next
    case (RFail e)
    with "1.prems"(2) show ?thesis by (auto simp: file_Read_RFail)
  qed (simp add: io_Copy.simps [of A b n f off])
qed

lemma GCS_uploadFile_Ok:
  assumes "gcs_accepts A" and "ns \<noteq> []" and "\<forall>n \<in> set ns. valid_name n"
    and "e_open E (entry_path dir ns) = Inr f" and "f_fault f = None"
  shows "fst (GCS_uploadFile E A s dir (entry_path dir ns) b lg w) = Ok ()"
  using filepath_Rel_below [of ns dir] assms
  by (simp add: GCS_uploadFile_def case_prod_beta Let_def io_Copy_Ok entry_path_def)

lemma GCS_Upload_Ok:
  assumes A: "gcs_accepts A" and wf: "wf_tree (e_lstat E dir)" and clean: "clean_tree (e_lstat E dir)"
    and dir: "[] \<notin> set (file_names (e_lstat E dir))" and sound: "all_sound (e_open E) dir (e_lstat E dir)"
  shows "fst (GCS_Upload E A s dir lg pm w) = Ok ()"
proof -
  have walk: "fst (filepath_Walk (e_lstat E) (GCS_callback E A s dir b lg) dir v) = Ok ()" for b v
  proof -
    let ?put = "\<lambda>p. GCS_callback E A s dir b lg p (Some (FileInfo 0)) None"
    have "fst (each_until (\<lambda>ns. ?put (entry_path dir ns)) (file_names (e_lstat E dir)) v) = Ok ()"
    proof (rule each_until_all_Ok)
      fix ns t assume ns: "ns \<in> set (file_names (e_lstat E dir))"
      from all_soundE [OF sound this]
      obtain f where "e_open E (entry_path dir ns) = Inr f" "f_fault f = None" .
      then have "fst (GCS_uploadFile E A s dir (entry_path dir ns) b lg t) = Ok ()"
        using dir ns by (intro GCS_uploadFile_Ok [OF A] file_names_valid [OF wf]) auto
      then show "fst (?put (entry_path dir ns) t) = Ok ()"
        by (simp add: GCS_callback_def case_prod_beta)
    qed
    then show ?thesis
      using walk_files [where lstat = "e_lstat E" and p = dir and put = ?put
          and fn = "GCS_callback E A s dir b lg", OF _ _ wf clean] by (simp add: GCS_callback_def)
  qed
  have bucket: "fst (ensureBucketExists A s v) = Ok (gc_bucketName s)" for v
    using A by (simp add: ensureBucketExists_def case_prod_beta gcs_accepts_def scan_buckets_Ok
        split: bool.split)
  show ?thesis
    using A by (simp add: GCS_Upload_def case_prod_beta bucket walk gcs_accepts_def)
qed

lemma GCS_Upload_keeps:
  assumes svc: "gcs_service A objs" and fn: "gc_remotePathFn s = RemotePathFunc E base dep"
    and close: "\<And>b n d x. objs (snd (gcs_close A b n d x)) = objs x"
  shows "objs (w_ext (snd (GCS_Upload E A s dir lg pm w))) = objs (w_ext w)"
proof -
  have copy: "objs (w_ext (snd (snd (io_Copy A b n f 0 [] v)))) = objs (w_ext v)" for b n f v
    using io_Copy_content [OF svc, of b n f 0 "[]" v] by (metis prod.collapse take_0)
  have up: "objs (w_ext (snd (GCS_uploadFile E A s dir p b lg v))) = objs (w_ext v)" for p b v
    by (simp add: GCS_uploadFile_def case_prod_beta Let_def fn close copy split: res.split sum.split)
  have walk: "objs (w_ext (snd (filepath_Walk (e_lstat E) (GCS_callback E A s dir b lg) dir v))) = objs (w_ext v)"
    for b v
    unfolding filepath_Walk_visits
    by (rule each_until_invariant [where I = "\<lambda>t. objs (w_ext t) = objs (w_ext v)"])
      (auto simp: at_visit_def GCS_callback_def case_prod_beta gcs_errs_def Let_def up
        split: option.split res.split)
  have bucket: "objs (w_ext (snd (ensureBucketExists A s v))) = objs (w_ext v)" for v
    using svc by (simp add: ensureBucketExists_def case_prod_beta gcs_service_def
        split: res.split bool.split option.split)
  show ?thesis
    using svc by (simp add: GCS_Upload_def case_prod_beta gcs_errs_def Let_def gcs_service_def bucket walk
        split: option.split res.split)
qed

lemma mem_gcs_accepts: "gcs_accepts mem_gcs" "gcs_accepts broken_gcs"
  by (simp_all add: gcs_accepts_def mem_gcs_def broken_gcs_def)

lemma sample_gcs_simps [simp]:
  "gc_remotePathFn (sample_gcs E) = RemotePathFunc E ''db'' ''prod''" "gc_bucketName (sample_gcs E) = ''box''"
  by (simp_all add: sample_gcs_def GCS_New_def)

lemma GCS_Upload_stores:
  assumes svc: "gcs_service A objs" and closes: "\<And>b n d x. fst (gcs_close A b n d x) = None"
    and fn: "gc_remotePathFn s = RemotePathFunc E base dep"
    and "wf_tree (e_lstat E dir)" and "[] \<notin> set (file_names (e_lstat E dir))"
    and up: "GCS_Upload E A s dir lg pm w = (Ok u, w')"
  shows "clean_tree (e_lstat E dir) \<and> all_readable (e_open E) dir (e_lstat E dir)
    \<and> objs (w_ext w') = objs (w_ext w) ++ map_of (gcs_objects E (gc_bucketName s) base dep dir
          (Suc (w_now w)) (file_names (e_lstat E dir)))"
proof -
  obtain w1 w2 bucket where 1: "on_ext (gcs_newClient A (gc_serviceAccountFilePath s))
      (log_info lg (''will upload '' @ dir @ '' to Google Cloud Storage'') [] w) = (None, w1)"
    and 2: "ensureBucketExists A s w1 = (Ok bucket, w2)"
    and walk: "filepath_Walk (e_lstat E) (GCS_callback E A s dir bucket lg) dir (snd (time_Now E w2)) = (Ok u, w')"
    using up by (auto simp: GCS_Upload_def gcs_errs_def Let_def split: prod.splits option.splits res.splits)
  have w1: "w_now w1 = w_now w" "objs (w_ext w1) = objs (w_ext w)"
    using svc on_ext_frame(2,4) [of "gcs_newClient A (gc_serviceAccountFilePath s)"
        "log_info lg (''will upload '' @ dir @ '' to Google Cloud Storage'') [] w"]
    unfolding 1 by (simp_all add: gcs_service_def)
  have w2: "bucket = gc_bucketName s" "w_now w2 = w_now w1" "objs (w_ext w2) = objs (w_ext w1)"
    using 2 svc by (auto simp: ensureBucketExists_def gcs_service_def on_ext_def prod_eq_iff
        split: res.splits bool.splits prod.splits option.splits)
  show ?thesis
    using GCS_walk_stores [OF svc closes fn assms(4,5) walk] w1 w2 by simp
qed

section \<open>Properties\<close>

text \<open>C8: When closing a writer does not fail, a GCS upload that reports success has stored the whole
  folder: every directory could be listed, every file opened, and the objects afterwards are
  those before, extended by exactly one object per file with its whole content.  The name of
  the \<open>i\<close>-th file has the date at which its own upload began, not the date of the backup.\<close>

theorem GCS_Upload_stores_folder:
  assumes svc: "gcs_service A objs" and closes: "\<And>b n d x. fst (gcs_close A b n d x) = None"
    and fn: "gc_remotePathFn s = RemotePathFunc E base dep"
    and "wf_tree (e_lstat E dir)" and "[] \<notin> set (file_names (e_lstat E dir))"
    and up: "GCS_Upload E A s dir lg pm w = (Ok u, w')"
  shows "clean_tree (e_lstat E dir) \<and> all_readable (e_open E) dir (e_lstat E dir)
    \<and> objs (w_ext w') = objs (w_ext w) ++ map_of (gcs_objects E (gc_bucketName s) base dep dir
          (Suc (w_now w)) (file_names (e_lstat E dir)))"
  by (rule GCS_Upload_stores [OF assms])

theorem GCS_Upload_stores_folder_witness:
  "w_ext (snd (GCS_Upload (midnight_env sample_tree) mem_gcs (sample_gcs (midnight_env sample_tree))
      ''/var/db'' root_logger (\<lambda>c x. (([], None), x)) (start_world Map.empty)))
   = [(''box'', ''db/prod/2024/09/29/a'') \<mapsto> ''/var/db/a'',
      (''box'', ''db/prod/2024/09/30/logs/b'') \<mapsto> ''/var/db/logs/b'']"
proof -
  let ?E = "midnight_env sample_tree :: gcs_objects_map env"
  let ?pm = "(\<lambda>c x. (([], None), x)) :: gcs_objects_map process_manager"
  let ?up = "GCS_Upload ?E mem_gcs (sample_gcs ?E) ''/var/db'' root_logger ?pm (start_world Map.empty)"
  have E: "e_lstat ?E p = sample_tree" "e_open ?E = path_file" for p by (simp_all add: midnight_env_def)
  have "fst ?up = Ok ()"
    by (rule GCS_Upload_Ok [OF mem_gcs_accepts(1)]) (simp_all add: E sample_tree_ok)
  then have "?up = (Ok (), snd ?up)" by (metis prod.collapse)
  from GCS_Upload_stores_folder [OF mem_gcs_service(1) _ sample_gcs_simps(1) _ _ this]
  show ?thesis
    by (simp add: E sample_tree_ok mem_gcs_def gcs_objects_def gcs_name_def path_eval file_content_def
        path_file_def entry_path_def fun_upd_twist remotePathOn_def pathPrefix_def datePath_def
        int_dec_def pad0_def nat_dec.simps digit_char_eval midnight_env_def upt_rec)
qed

text \<open>The error of the deferred \<open>Close\<close>, with which the service reports a failed upload, has no
  influence on the result of \<open>uploadFile\<close>: the result is the same for every \<open>Close\<close>.\<close>

lemma GCS_uploadFile_ignores_Close:
  "fst (GCS_uploadFile E A s dir p b lg w) =
   fst (GCS_uploadFile E (A\<lparr>gcs_close := close\<rparr>) s dir p b lg w)"
proof -
  have "io_Copy (A\<lparr>gcs_close := close\<rparr>) b n f off d v = io_Copy A b n f off d v" for n f off d v
    by (induction A b n f off d v rule: io_Copy.induct)
      (subst (1 2) io_Copy.simps, simp split: read_result.split prod.split option.split)
  then show ?thesis
    by (simp add: GCS_uploadFile_def case_prod_beta Let_def split: res.split sum.split)
qed

text \<open>C30: With a service that accepts the data but whose \<open>Close\<close> stores nothing, the upload of a
  folder that can be read reports success and no object is stored.\<close>

theorem GCS_Upload_undetected_failure:
  assumes "gcs_service A objs" and "gcs_accepts A"
    and "\<And>b n d x. objs (snd (gcs_close A b n d x)) = objs x"
    and "gc_remotePathFn s = RemotePathFunc E base dep"
    and "wf_tree (e_lstat E dir)" and "clean_tree (e_lstat E dir)"
    and "[] \<notin> set (file_names (e_lstat E dir))" and "all_sound (e_open E) dir (e_lstat E dir)"
  shows "\<exists>w'. GCS_Upload E A s dir lg pm w = (Ok (), w') \<and> objs (w_ext w') = objs (w_ext w)"
  using GCS_Upload_Ok [OF assms(2,5-8)] GCS_Upload_keeps [OF assms(1,4,3)]
  by (metis prod.collapse)

theorem GCS_Upload_undetected_failure_witness:
  "\<exists>w'. GCS_Upload (still_env sample_tree) broken_gcs (sample_gcs (still_env sample_tree)) ''/var/db''
          root_logger (\<lambda>c x. (([], None), x)) (start_world Map.empty) = (Ok (), w')
      \<and> w_ext w' = w_ext (start_world Map.empty)"
  by (rule GCS_Upload_undetected_failure [where objs = "\<lambda>x. x", OF mem_gcs_service(2) mem_gcs_accepts(2)
        _ sample_gcs_simps(1)])
    (simp_all add: sample_tree_ok broken_gcs_def)

text \<open>
  What is read of a file that fails at offset \<open>k\<close>: reads of \<open>c\<close> bytes (the buffer of \<open>io.Copy\<close>, or
  less when reads are short) begin at the multiples of \<open>c\<close>, and all those that begin before \<open>k\<close>
  succeed.
\<close>

definition read_before :: "os_file \<Rightarrow> nat \<Rightarrow> string" where
  "read_before f k =
     (let c = min copyBufferSize (Suc (f_burst f)) in take (c * ((k + c - 1) div c)) (f_data f))"

lemma read_step: "0 < c \<Longrightarrow> 0 < x \<Longrightarrow> (x + c - 1) div c = Suc ((x - c + c - 1) div (c :: nat))"
proof (cases "c \<le> x")
  case True
  assume c: "0 < c" "0 < x"
  then have "x + c - 1 = x - 1 + c" by simp
  then have "(x + c - 1) div c = Suc ((x - 1) div c)" using c by (metis div_add_self2 less_not_refl3 Suc_eq_plus1)
  with True show ?thesis by simp
next
  case False
  assume c: "0 < c" "0 < x"
  have "x + c - 1 = x - 1 + c" using c by simp
  then have "(x + c - 1) div c = Suc ((x - 1) div c)" using c by (metis div_add_self2 less_not_refl3 Suc_eq_plus1)
  with False c show ?thesis by simp
qed

lemma read_covers: "0 < c \<Longrightarrow> k \<le> c * ((k + c - 1) div (c :: nat))"
proof -
  assume c: "0 < c"
  then have "(k + c - 1) mod c \<le> c - 1" using mod_less_divisor [of c "k + c - 1"] by linarith
  moreover have "c * ((k + c - 1) div c) + (k + c - 1) mod c = k + c - 1" by simp
  ultimately show ?thesis using c by linarith
qed

lemma take_prefix_take: "m \<le> n \<Longrightarrow> prefix (take m xs) (take n xs)"
  by (metis min.absorb1 take_is_prefix take_take)

lemma io_Copy_until_failure:
  assumes "f_fault f = Some (k, e)" and "k \<le> length (f_data f)"
    and "\<And>b n d c x. fst (gcs_write A b n d c x) = None"
  shows "\<exists>w'. io_Copy A b n f off d w =
    (Some e, d @ (let c = min copyBufferSize (Suc (f_burst f)) in
        take (c * ((k - off + c - 1) div c)) (drop off (f_data f))), w')"
  using assms
proof (induction A b n f off d w rule: io_Copy.induct)
  case (1 A b n f off d w)
  let ?c = "min copyBufferSize (Suc (f_burst f))"
  let ?m = "\<lambda>o1. (k - o1 + ?c - 1) div ?c"
  have c: "0 < ?c" by (simp add: copyBufferSize_def)
  show ?case
  proof (cases "k \<le> off")
    case True
    have "(?c - Suc 0) div ?c = 0" by (rule div_less) (use c in linarith)
    with 1 True show ?thesis by (simp add: io_Copy.simps [of A b n f off] file_Read_def Let_def)
  next
    case False
    let ?chunk = "take ?c (drop off (f_data f))"
    have ne: "?chunk \<noteq> []" using False "1.prems"(2) c by simp
    then have R: "file_Read f off copyBufferSize = RData ?chunk"
      using False "1.prems"(1) by (simp add: file_Read_def Let_def)
    obtain w1 where p: "on_ext (gcs_write A b n d ?chunk) w = (None, w1)"
      using "1.prems"(3) by (metis on_ext_frame(1) prod.collapse)
    let ?off = "off + length ?chunk"
    have "take (?c * ?m off) (drop off (f_data f)) = ?chunk @ take (?c * ?m ?off) (drop ?off (f_data f))"
    proof (cases "off + ?c \<le> length (f_data f)")
      case True
      then have "length ?chunk = ?c" by simp
      moreover have "?m off = Suc (?m (off + ?c))" using read_step [OF c, of "k - off"] False by simp
      ultimately show ?thesis by (simp add: take_add add.commute [of off])
    next
      case short: False
      let ?rest = "drop off (f_data f)"
      have all: "take j ?rest = ?rest" if "?c \<le> j" for j using short that by (intro take_all) simp
      have "?m off = Suc (?m (off + ?c))" using read_step [OF c, of "k - off"] False by simp
      then have "?c \<le> ?c * ?m off" by (simp only: mult_Suc_right)
      then have "take (?c * ?m off) ?rest = ?rest" by (rule all)
      moreover have "?chunk = ?rest" by (rule all) (rule order_refl)
      moreover from this have "drop ?off (f_data f) = []" by simp
      ultimately show ?thesis by (simp only: take_Nil append_Nil2)
    qed
    moreover obtain w' where "io_Copy A b n f ?off (d @ ?chunk) w1
        = (Some e, (d @ ?chunk) @ take (?c * ?m ?off) (drop ?off (f_data f)), w')"
      using "1.IH" [OF R p [symmetric] refl "1.prems"] by (auto simp: Let_def)
    ultimately show ?thesis by (simp add: io_Copy.simps [of A b n f off] R p Let_def)
  qed
qed

text \<open>C31: When reading a local file fails the GCS upload of the file reports the error, but the deferred
  \<open>Close\<close> still completes the upload: the object then exists with exactly the bytes of the
  reads before the failing one, a part of the file that includes everything before the
  failing offset.  The hypotheses: the service does what it documents and takes the data
  and the close.\<close>

theorem GCS_uploadFile_read_error:
  assumes "gcs_service A objs" and "\<And>b n d x. fst (gcs_close A b n d x) = None"
    and "\<And>b n d c x. fst (gcs_write A b n d c x) = None"
    and "gc_remotePathFn s = RemotePathFunc E base dep"
    and "\<forall>n \<in> set ns. valid_name n" and "ns \<noteq> []"
    and "e_open E (entry_path dir ns) = Inr f" "f_fault f = Some (k, e)" "k \<le> length (f_data f)"
  shows "\<exists>w'. GCS_uploadFile E A s dir (entry_path dir ns) b lg w = (Err e, w')
    \<and> objs (w_ext w') = (objs (w_ext w))((b, gcs_name E base dep (w_now w) ns) \<mapsto> read_before f k)
    \<and> prefix (take k (f_data f)) (read_before f k) \<and> prefix (read_before f k) (f_data f)"
proof -
  let ?n = "gcs_name E base dep (w_now w) ns"
  define w2 where "w2 = log_info lg (''will upload '' @ ?n @ '' to bucket '' @ gc_bucketName s) []
    (w\<lparr>w_now := Suc (w_now w)\<rparr>)"
  obtain w3 where c: "io_Copy A b ?n f 0 [] w2 = (Some e, read_before f k, w3)"
    using io_Copy_until_failure [OF assms(8,9,3), where off = 0 and d = "[]" and w = w2]
    by (auto simp: read_before_def)
  let ?w = "snd (on_ext (gcs_close A b ?n (read_before f k)) w3)"
  have "GCS_uploadFile E A s dir (entry_path dir ns) b lg w = (Err e, ?w)"
    using GCS_uploadFile_eq [OF assms(4-6), of A dir b lg w, unfolded Let_def, folded w2_def] by (simp add: assms(7) c)
  moreover have "objs (w_ext w3) = objs (w_ext w)"
    using io_Copy_content [OF assms(1) c] by (simp add: w2_def)
  then have "objs (w_ext ?w) = (objs (w_ext w))((b, ?n) \<mapsto> read_before f k)"
    using assms(1,2) by (simp add: gcs_service_def)
  moreover have "prefix (take k (f_data f)) (read_before f k)"
    using read_covers [of "min copyBufferSize (Suc (f_burst f))" k]
    by (simp add: read_before_def Let_def copyBufferSize_def take_prefix_take)
  ultimately show ?thesis by (auto simp: read_before_def Let_def take_is_prefix)
qed

theorem GCS_uploadFile_read_error_witness:
  "\<exists>w'. GCS_uploadFile ((still_env sample_tree)
        \<lparr>e_open := \<lambda>p. Inr \<lparr>f_data = ''abcdefghij'', f_burst = 3, f_fault = Some (5, ''input/output error'')\<rparr>\<rparr>)
      mem_gcs (sample_gcs (still_env sample_tree)) ''/var/db'' (entry_path ''/var/db'' [''a'']) ''box''
      root_logger (start_world Map.empty) = (Err ''input/output error'', w')
    \<and> w_ext w' = [(''box'', gcs_name (still_env sample_tree :: gcs_objects_map env) ''db'' ''prod'' 0 [''a'']) \<mapsto> ''abcdefgh'']"
proof -
  let ?f = "\<lparr>f_data = ''abcdefghij'', f_burst = 3, f_fault = Some (5, ''input/output error'')\<rparr>"
  let ?E = "(still_env sample_tree :: gcs_objects_map env)\<lparr>e_open := \<lambda>p. Inr ?f\<rparr>"
  have fn: "gc_remotePathFn (sample_gcs (still_env sample_tree)) = RemotePathFunc ?E ''db'' ''prod''"
    by (intro ext) (simp add: RemotePathFunc_def time_Now_def)
  have name: "gcs_name ?E = gcs_name (still_env sample_tree :: gcs_objects_map env)"
    by (intro ext) (simp add: gcs_name_def)
  have "read_before ?f 5 = ''abcdefgh''" by (simp add: read_before_def copyBufferSize_def)
  then show ?thesis
    using GCS_uploadFile_read_error [where f = ?f and k = 5 and ns = "[''a'']" and w = "start_world Map.empty"
        and dir = "''/var/db''" and b = "''box''" and lg = root_logger, OF mem_gcs_service(1) _ _ fn]
    by (simp add: mem_gcs_def valid_name_def name)
qed

end
