(* ===== verification/SCP_Client.thy ===== *)
theory SCP_Client
  imports Tree_Upload Remote_Path
begin

text \<open>
  The SCP client (\<open>src/scp/scp.go\<close>): the private key and the known hosts are written to
  temporary files, the remote directory is made over ssh, and every entry of the local
  folder is copied by one scp command.  The environment answers what a command prints and
  whether it fails; the process manager is an argument of \<open>Upload\<close>.
\<close>

section \<open>The client\<close>

record 'x scp_client =
  sc_name :: string
  sc_host :: string
  sc_port :: int
  sc_username :: string
  sc_privateKey :: string
  sc_fingerPrint :: string
  sc_remotePathFn :: "'x path_fn"
  sc_SCPCommand :: string
  sc_SSHCommand :: string

definition SCP_New ::
  "string \<Rightarrow> string \<Rightarrow> int \<Rightarrow> string \<Rightarrow> string \<Rightarrow> string \<Rightarrow> 'x path_fn \<Rightarrow> 'x scp_client" where
  "SCP_New name host port username privateKeyPath fingerPrint remotePathFn =
     \<lparr>sc_name = name, sc_host = host, sc_port = port, sc_username = username,
      sc_privateKey = privateKeyPath, sc_fingerPrint = fingerPrint, sc_remotePathFn = remotePathFn,
      sc_SCPCommand = ''scp'', sc_SSHCommand = ''ssh''\<rparr>"

text \<open>
  \<open>ioutil.TempFile\<close> makes the file with mode 0600; the error of \<open>WriteString\<close> is dropped, so
  what the file holds is what the environment says a write leaves in it.
\<close>

definition writeTempFile :: "'x env \<Rightarrow> string \<Rightarrow> string \<Rightarrow> 'x world \<Rightarrow> string res \<times> 'x world" where
  "writeTempFile E pattern content w =
     (case e_tempname E pattern (w_tmp w) of
        Inl e \<Rightarrow> (Err e, w)
      | Inr name \<Rightarrow>
          (Ok name, w\<lparr>w_tmp := (w_tmp w)(name \<mapsto> \<lparr>tf_data = e_written E name content, tf_mode = 384\<rparr>)\<rparr>))"

text \<open>
  \<open>generateBackupKey\<close>: \<open>Chmod(0400)\<close> is called on the closed file, where it returns
  \<open>os.ErrClosed\<close> and changes nothing.
\<close>

definition generateBackupKey :: "'x env \<Rightarrow> 'x scp_client \<Rightarrow> 'x world \<Rightarrow> string res \<times> 'x world" where
  "generateBackupKey E client w = writeTempFile E ''backup_key'' (sc_privateKey client) w"

definition single_quoted :: "string \<Rightarrow> string" where
  "single_quoted s = [CHR 0x27] @ s @ [CHR 0x27]"

definition keyscan_cmd :: "'x scp_client \<Rightarrow> cmd" where
  "keyscan_cmd client = exec_Command ''ssh-keyscan'' [''-p'', int_dec (sc_port client), sc_host client]"

definition generateKnownHosts ::
  "'x env \<Rightarrow> 'x scp_client \<Rightarrow> logger \<Rightarrow> 'x world \<Rightarrow> string res \<times> 'x world" where
  "generateKnownHosts E client lg w =
     (if sc_fingerPrint client = [] then
        (case combinedOutput E (keyscan_cmd client)
                (log_info lg ''Fingerprint not found, performing key-scan'' [] w) of
           ((out, Some e), w1) \<Rightarrow>
             (let wrappedErr = ''error performing ssh-keyscan: '' @ single_quoted e @ '', output: '' @ single_quoted out
              in (Err wrappedErr, log_error lg ''scp'' wrappedErr w1))
         | ((out, None), w1) \<Rightarrow> writeTempFile E ''known_hosts'' out w1)
      else writeTempFile E ''known_hosts'' (sc_fingerPrint client) w)"

definition mkdir_cmd :: "'x scp_client \<Rightarrow> string \<Rightarrow> string \<Rightarrow> string \<Rightarrow> cmd" where
  "mkdir_cmd client remotePath privateKeyFileName knownHostsFileName =
     exec_Command (sc_SSHCommand client)
       [''-oStrictHostKeyChecking=yes'', ''-i'', privateKeyFileName,
        ''-oUserKnownHostsFile='' @ knownHostsFileName, ''-p'', int_dec (sc_port client),
        sc_username client @ ''@'' @ sc_host client, ''mkdir -p '' @ remotePath]"

definition ensureRemoteDirectoryExists ::
  "'x env \<Rightarrow> 'x scp_client \<Rightarrow> string \<Rightarrow> string \<Rightarrow> string \<Rightarrow> logger \<Rightarrow> 'x world \<Rightarrow> unit res \<times> 'x world" where
  "ensureRemoteDirectoryExists E client remotePath privateKeyFileName knownHostsFileName lg w =
     (case combinedOutput E (mkdir_cmd client remotePath privateKeyFileName knownHostsFileName) w of
        ((out, Some e), w1) \<Rightarrow>
          (let wrappedErr = ''error checking if remote path exists: '' @ single_quoted e
                 @ '', output: '' @ single_quoted out
           in (Err wrappedErr, log_error lg ''ssh'' wrappedErr w1))
      | ((out, None), w1) \<Rightarrow> (Ok (), w1))"

definition scp_cmd :: "'x scp_client \<Rightarrow> string \<Rightarrow> string \<Rightarrow> string \<Rightarrow> string \<Rightarrow> string \<Rightarrow> cmd" where
  "scp_cmd client privateKeyFileName knownHostsFileName scpDest localPath f =
     (exec_Command (sc_SCPCommand client)
        [''-oStrictHostKeyChecking=yes'', ''-i'', privateKeyFileName,
         ''-oUserKnownHostsFile='' @ knownHostsFileName, ''-P'', int_dec (sc_port client), ''-r'', f, scpDest])
     \<lparr>cmd_dir := localPath\<rparr>"

text \<open>One turn of the loop over the entries of the folder.\<close>

definition scp_copy ::
  "'x scp_client \<Rightarrow> string \<Rightarrow> string \<Rightarrow> string \<Rightarrow> string \<Rightarrow> logger \<Rightarrow> 'x process_manager \<Rightarrow> string
   \<Rightarrow> 'x world \<Rightarrow> unit res \<times> 'x world" where
  "scp_copy client privateKeyFileName knownHostsFileName scpDest localPath lg pm f w =
     (case start_with pm (scp_cmd client privateKeyFileName knownHostsFileName scpDest localPath f) w of
        ((out, Some e), w1) \<Rightarrow>
          (let wrappedErr = ''error performing SCP: '' @ go_quote e @ '', output: '' @ go_quote out
           in (Err wrappedErr, log_error lg ''scp'' wrappedErr w1))
      | ((out, None), w1) \<Rightarrow> (Ok (), w1))"

text \<open>\<open>Upload\<close> after the two temporary files are made; then the key file is removed.\<close>

definition SCP_transfer ::
  "'x env \<Rightarrow> 'x scp_client \<Rightarrow> string \<Rightarrow> string \<Rightarrow> string \<Rightarrow> logger \<Rightarrow> 'x process_manager \<Rightarrow> 'x world
   \<Rightarrow> unit res \<times> 'x world" where
  "SCP_transfer E client privateKeyFileName knownHostsFileName localPath lg pm w =
     (case sc_remotePathFn client w of
        (remotePath, w1) \<Rightarrow>
          (case ensureRemoteDirectoryExists E client remotePath privateKeyFileName knownHostsFileName lg w1 of
             (Panic m, w2) \<Rightarrow> (Panic m, w2)
           | (Err e, w2) \<Rightarrow> (Err e, w2)
           | (Ok _, w2) \<Rightarrow>
               (case e_readdir E localPath of
                  Inl e \<Rightarrow> (Err e, w2)
                | Inr files \<Rightarrow>
                    (case each_until
                            (scp_copy client privateKeyFileName knownHostsFileName
                               (sc_username client @ ''@'' @ sc_host client @ '':'' @ remotePath) localPath lg pm)
                            files w2 of
                       (Panic m, w3) \<Rightarrow> (Panic m, w3)
                     | (Err e, w3) \<Rightarrow> (Err e, w3)
                     | (Ok _, w3) \<Rightarrow> (Ok (), log_info lg ''scp completed'' [] w3)))))"

definition os_Remove :: "string \<Rightarrow> 'x world \<Rightarrow> 'x world" where
  "os_Remove name w = w\<lparr>w_tmp := (w_tmp w)(name := None)\<rparr>"

definition SCP_Upload :: "'x env \<Rightarrow> 'x scp_client \<Rightarrow> 'x upload_fn" where
  "SCP_Upload E client localPath lg pm w =
     (case generateBackupKey E client w of
        (Panic m, w1) \<Rightarrow> (Panic m, w1)
      | (Err e, w1) \<Rightarrow> (Err e, w1)
      | (Ok privateKeyFileName, w1) \<Rightarrow>
          (case generateKnownHosts E client lg w1 of
             (Panic m, w2) \<Rightarrow> (Panic m, w2)
           | (Err e, w2) \<Rightarrow> (Err e, w2)
           | (Ok knownHostsFileName, w2) \<Rightarrow>
               (case SCP_transfer E client privateKeyFileName knownHostsFileName localPath lg pm w2 of
                  (r, w3) \<Rightarrow> (r, os_Remove privateKeyFileName w3))))"

definition SCP_Name :: "'x scp_client \<Rightarrow> string" where
  "SCP_Name client = sc_name client"

section \<open>The client only extends the histories\<close>

lemma world_grows_tmp: "world_grows u w \<Longrightarrow> world_grows u (w\<lparr>w_tmp := t\<rparr>)"
  by (simp add: world_grows_def)

lemma writeTempFile_grows: "world_grows u w \<Longrightarrow> world_grows u (snd (writeTempFile E p d w))"
  by (simp add: writeTempFile_def world_grows_tmp split: sum.split)

lemma generateKnownHosts_grows: "world_grows u w \<Longrightarrow> world_grows u (snd (generateKnownHosts E c lg w))"
  by (simp add: generateKnownHosts_def case_prod_beta Let_def grows_intros writeTempFile_grows
      del: combinedOutput_frame split: option.split)

lemma scp_copy_grows: "world_grows u w \<Longrightarrow> world_grows u (snd (scp_copy c k h d l lg pm f w))"
  by (simp add: scp_copy_def case_prod_beta Let_def grows_intros del: start_with_frame split: option.split)

lemma SCP_transfer_grows:
  assumes "\<And>v. world_grows v (snd (sc_remotePathFn c v))" and "world_grows u w"
  shows "world_grows u (snd (SCP_transfer E c k h l lg pm w))"
proof -
  have path: "world_grows u (snd (sc_remotePathFn c w))" using assms world_grows_trans by blast
  have dir: "world_grows u v \<Longrightarrow> world_grows u (snd (ensureRemoteDirectoryExists E c p k h lg v))" for p v
    by (simp add: ensureRemoteDirectoryExists_def case_prod_beta Let_def grows_intros
        del: combinedOutput_frame split: option.split)
  have loop: "world_grows u v \<Longrightarrow> world_grows u (snd (each_until (scp_copy c k h d l lg pm) fs v))" for d fs v
    using each_until_grows [of fs "scp_copy c k h d l lg pm" v] scp_copy_grows world_grows_trans by blast
  show ?thesis
    by (simp add: SCP_transfer_def case_prod_beta path dir loop grows_intros split: res.split sum.split)
qed

lemma SCP_Upload_grows:
  assumes "\<And>v. world_grows v (snd (sc_remotePathFn c v))"
  shows "world_grows w (snd (SCP_Upload E c l lg pm w))"
  by (simp add: SCP_Upload_def generateBackupKey_def case_prod_beta os_Remove_def world_grows_tmp
      SCP_transfer_grows [OF assms] writeTempFile_grows generateKnownHosts_grows split: res.split)

definition scp_uploader :: "'x env \<Rightarrow> 'x scp_client \<Rightarrow> 'x uploader" where
  "scp_uploader E c = \<lparr>upl_Upload = SCP_Upload E c, upl_Name = SCP_Name c\<rparr>"

interpretation scp: uploader_contract
  "SCP_Upload E (SCP_New name host port user key finger (RemotePathFunc E base dep))"
  for E name host port user key finger base dep
  by unfold_locales (rule SCP_Upload_grows, simp add: SCP_New_def grows_intros)

section \<open>The commands that are launched\<close>

definition scp_dest :: "'x scp_client \<Rightarrow> string \<Rightarrow> string" where
  "scp_dest c remotePath = sc_username c @ ''@'' @ sc_host c @ '':'' @ remotePath"

definition scp_entries :: "'x env \<Rightarrow> string \<Rightarrow> string list" where
  "scp_entries E l = (case e_readdir E l of Inr files \<Rightarrow> files | Inl e \<Rightarrow> [])"

text \<open>The commands of a complete upload, in order.\<close>

definition scp_plan :: "'x env \<Rightarrow> 'x scp_client \<Rightarrow> string \<Rightarrow> string \<Rightarrow> string \<Rightarrow> string \<Rightarrow> cmd list" where
  "scp_plan E c key hosts l remotePath =
     (if sc_fingerPrint c = [] then [keyscan_cmd c] else [])
     @ mkdir_cmd c remotePath key hosts
     # map (scp_cmd c key hosts (scp_dest c remotePath) l) (scp_entries E l)"

lemma scp_loop_cmds:
  assumes "each_until (scp_copy c k h d l lg pm) fs w = (r, w')"
  shows "w_tmp w' = w_tmp w \<and> (\<forall>m. r \<noteq> Panic m)
    \<and> prefix (w_cmds w') (w_cmds w @ map (scp_cmd c k h d l) fs) \<and> prefix (w_cmds w) (w_cmds w')
    \<and> (r = Ok () \<longrightarrow> w_cmds w' = w_cmds w @ map (scp_cmd c k h d l) fs)"
  using assms
proof (induction fs arbitrary: w)
  case (Cons f fs)
  obtain r1 w1 where one: "scp_copy c k h d l lg pm f w = (r1, w1)" by fastforce
  then have w1: "w_tmp w1 = w_tmp w" "w_cmds w1 = w_cmds w @ [scp_cmd c k h d l f]" "\<And>m. r1 \<noteq> Panic m"
    by (auto simp: scp_copy_def start_with_def Let_def split: prod.splits option.splits)
  show ?case
  proof (cases r1)
    case (Ok u)
    with one Cons.prems have "each_until (scp_copy c k h d l lg pm) fs w1 = (r, w')" by simp
    from Cons.IH [OF this] w1 show ?thesis by (auto dest: append_prefixD)
  next
    case (Err e)
    with one Cons.prems w1 show ?thesis by auto
  next
    case (Panic m)
    with w1 show ?thesis by auto
  qed
qed auto

lemma SCP_transfer_cmds:
  assumes fn: "sc_remotePathFn c = RemotePathFunc E base dep"
    and up: "SCP_transfer E c k h l lg pm w = (r, w')"
  shows "let p = remotePathOn base dep (t_date (e_clock E (w_now w)));
             plan = mkdir_cmd c p k h # map (scp_cmd c k h (scp_dest c p) l) (scp_entries E l)
         in w_tmp w' = w_tmp w \<and> prefix (w_cmds w') (w_cmds w @ plan) \<and> prefix (w_cmds w) (w_cmds w')
            \<and> (r = Ok () \<longrightarrow> w_cmds w' = w_cmds w @ plan \<and> \<not> isl (e_readdir E l))"
proof -
  let ?p = "remotePathOn base dep (t_date (e_clock E (w_now w)))"
  obtain r1 w1 where dir: "ensureRemoteDirectoryExists E c ?p k h lg (w\<lparr>w_now := Suc (w_now w)\<rparr>) = (r1, w1)"
    by fastforce
  then have w1: "w_tmp w1 = w_tmp w" "w_cmds w1 = w_cmds w @ [mkdir_cmd c ?p k h]" "\<And>m. r1 \<noteq> Panic m"
    by (auto simp: ensureRemoteDirectoryExists_def combinedOutput_def Let_def split: prod.splits option.splits)
  note eq = up [unfolded SCP_transfer_def fn RemotePathFunc_def time_Now_def prod.case dir]
  show ?thesis
  proof (cases r1)
    case (Ok u)
    show ?thesis
    proof (cases "e_readdir E l")
      case (Inl e)
      with eq Ok w1 show ?thesis by (auto simp: scp_entries_def)
    next
      case (Inr files)
      obtain r2 w2 where loop: "each_until (scp_copy c k h (scp_dest c ?p) l lg pm) files w1 = (r2, w2)"
        by fastforce
      from eq Ok Inr loop have "w_tmp w' = w_tmp w2" "w_cmds w' = w_cmds w2" "r = Ok () \<Longrightarrow> r2 = Ok ()"
        by (auto simp: scp_dest_def split: res.splits)
      with scp_loop_cmds [OF loop] w1 Inr show ?thesis
        by (auto simp: scp_entries_def Let_def dest: append_prefixD)
    qed
  qed (use eq w1 in auto)
qed

lemma generateKnownHosts_cmds:
  assumes "generateKnownHosts E c lg w = (r, w')"
  shows "w_cmds w' = w_cmds w @ (if sc_fingerPrint c = [] then [keyscan_cmd c] else [])
    \<and> w_now w' = w_now w \<and> (\<forall>m. r \<noteq> Panic m)
    \<and> (\<forall>h. r = Ok h \<longrightarrow> e_tempname E ''known_hosts'' (w_tmp w) = Inr h
         \<and> (\<exists>d. w_tmp w' = (w_tmp w)(h \<mapsto> \<lparr>tf_data = e_written E h d, tf_mode = 384\<rparr>)
              \<and> (sc_fingerPrint c \<noteq> [] \<longrightarrow> d = sc_fingerPrint c)))
    \<and> (\<forall>e. r = Err e \<longrightarrow> w_tmp w' = w_tmp w)"
  using assms
  by (auto simp: generateKnownHosts_def writeTempFile_def combinedOutput_def Let_def
      split: if_splits prod.splits option.splits sum.splits)

lemma generateBackupKey_result:
  assumes "generateBackupKey E c w = (r, w')"
  shows "w_cmds w' = w_cmds w \<and> w_now w' = w_now w \<and> (\<forall>m. r \<noteq> Panic m)
    \<and> (\<forall>k. r = Ok k \<longrightarrow> e_tempname E ''backup_key'' (w_tmp w) = Inr k
         \<and> w_tmp w' = (w_tmp w)(k \<mapsto> \<lparr>tf_data = e_written E k (sc_privateKey c), tf_mode = 384\<rparr>))
    \<and> (\<forall>e. r = Err e \<longrightarrow> w' = w)"
  using assms by (auto simp: generateBackupKey_def writeTempFile_def split: sum.splits)

text \<open>The whole upload: what it launches and what it leaves in the temporary directory.\<close>

lemma SCP_Upload_effects:
  assumes fn: "sc_remotePathFn c = RemotePathFunc E base dep"
    and up: "SCP_Upload E c l lg pm w = (r, w')"
  shows "w_cmds w' = w_cmds w \<and> (\<exists>e. r = Err e \<and> e_tempname E ''backup_key'' (w_tmp w) = Inl e \<and> w' = w)
    \<or> (\<exists>k w1 r1 w2. e_tempname E ''backup_key'' (w_tmp w) = Inr k
        \<and> generateBackupKey E c w = (Ok k, w1) \<and> generateKnownHosts E c lg w1 = (r1, w2)
        \<and> ((\<exists>e. r1 = Err e \<and> r = Err e \<and> w' = w2)
           \<or> (\<exists>h. r1 = Ok h \<and> w_tmp w' = (w_tmp w2)(k := None)
                \<and> prefix (w_cmds w')
                    (w_cmds w @ scp_plan E c k h l (remotePathOn base dep (t_date (e_clock E (w_now w)))))
                \<and> (r = Ok () \<longrightarrow> w_cmds w' =
                     w_cmds w @ scp_plan E c k h l (remotePathOn base dep (t_date (e_clock E (w_now w))))
                     \<and> \<not> isl (e_readdir E l)))))"
proof -
  obtain r0 w1 where key: "generateBackupKey E c w = (r0, w1)" by fastforce
  note key' = generateBackupKey_result [OF key]
  show ?thesis
  proof (cases r0)
    case (Ok k)
    obtain r1 w2 where hosts: "generateKnownHosts E c lg w1 = (r1, w2)" by fastforce
    note hosts' = generateKnownHosts_cmds [OF hosts]
    show ?thesis
    proof (cases r1)
      case (Ok h)
      obtain r3 w3 where tr: "SCP_transfer E c k h l lg pm w2 = (r3, w3)" by fastforce
      have "r = r3" "w_cmds w' = w_cmds w3" "w_tmp w' = (w_tmp w3)(k := None)"
        using up \<open>r0 = Ok k\<close> Ok by (auto simp: SCP_Upload_def key hosts tr os_Remove_def)
      with SCP_transfer_cmds [OF fn tr] key' hosts' key hosts \<open>r0 = Ok k\<close> Ok show ?thesis
        by (auto simp: scp_plan_def Let_def)
    next
      case (Err e)
      with up \<open>r0 = Ok k\<close> key' key hosts show ?thesis by (auto simp: SCP_Upload_def)
    next
      case (Panic m)
      with hosts' show ?thesis by auto
    qed
  next
    case (Err e)
    with up key key' show ?thesis
      by (auto simp: SCP_Upload_def generateBackupKey_def writeTempFile_def split: sum.splits)
  next
    case (Panic m)
    with key' show ?thesis by auto
  qed
qed

text \<open>\<open>ioutil.TempFile\<close> makes a file that did not exist.\<close>

definition temp_fresh :: "'x env \<Rightarrow> bool" where
  "temp_fresh E = (\<forall>p t n. e_tempname E p t = Inr n \<longrightarrow> n \<notin> dom t)"

section \<open>Properties\<close>

definition sample_scp :: "'x env \<Rightarrow> 'x scp_client" where
  "sample_scp E = SCP_New ''scp'' ''backup.host'' 22 ''bob'' ''PRIVATE KEY'' ''backup.host ssh-rsa AAAA''
     (RemotePathFunc E ''db'' ''prod'')"

lemma sample_scp_simps [simp]:
  "sc_remotePathFn (sample_scp E) = RemotePathFunc E ''db'' ''prod''"
  "sc_fingerPrint (sample_scp E) = ''backup.host ssh-rsa AAAA''"
  "sc_privateKey (sample_scp E) = ''PRIVATE KEY''"
  by (simp_all add: sample_scp_def SCP_New_def)

lemma SCP_Upload_prefix:
  assumes "sc_remotePathFn c = RemotePathFunc E base dep" and "SCP_Upload E c l lg pm w = (r, w')"
  shows "\<exists>k h. prefix (w_cmds w')
        (w_cmds w @ scp_plan E c k h l (remotePathOn base dep (t_date (e_clock E (w_now w)))))
    \<and> (r = Ok () \<longrightarrow> e_tempname E ''backup_key'' (w_tmp w) = Inr k \<and> \<not> isl (e_readdir E l)
         \<and> w_cmds w' = w_cmds w @ scp_plan E c k h l (remotePathOn base dep (t_date (e_clock E (w_now w)))))"
  using SCP_Upload_effects [OF assms]
proof (elim disjE exE conjE)
  fix k w1 r1 w2 e
  assume "generateBackupKey E c w = (Ok k, w1)" "generateKnownHosts E c lg w1 = (r1, w2)" "r1 = Err e"
    "r = Err e" "w' = w2"
  then show ?thesis
    using generateBackupKey_result [of E c w] generateKnownHosts_cmds [of E c lg w1]
    by (auto simp: scp_plan_def intro!: exI [of _ k])
qed auto

text \<open>C15: The commands of an SCP upload: a key scan when no fingerprint is configured, one command that
  makes the remote directory of the day, and then one scp command per entry of the folder,
  in the order of the listing.  Whatever fails, the commands launched are an initial part
  of that list, and an upload that reports success has launched all of them.\<close>

theorem SCP_Upload_commands:
  assumes "sc_remotePathFn c = RemotePathFunc E base dep" and "SCP_Upload E c l lg pm w = (r, w')"
  shows "\<exists>k h. prefix (w_cmds w')
        (w_cmds w @ scp_plan E c k h l (remotePathOn base dep (t_date (e_clock E (w_now w)))))
    \<and> (r = Ok () \<longrightarrow> e_tempname E ''backup_key'' (w_tmp w) = Inr k \<and> \<not> isl (e_readdir E l)
         \<and> w_cmds w' = w_cmds w @ scp_plan E c k h l (remotePathOn base dep (t_date (e_clock E (w_now w)))))"
  by (rule SCP_Upload_prefix [OF assms])

lemma sample_scp_Ok:
  "fst (SCP_Upload (still_env sample_tree) (sample_scp (still_env sample_tree)) ''/var/db'' root_logger
     (\<lambda>c x. (([], None), x)) (start_world ())) = Ok ()"
  by (simp add: SCP_Upload_def generateBackupKey_def generateKnownHosts_def writeTempFile_def SCP_transfer_def
      ensureRemoteDirectoryExists_def scp_copy_def still_env_def sample_tree_def RemotePathFunc_def
      time_Now_def combinedOutput_def start_with_def case_prod_beta)

theorem SCP_Upload_commands_witness:
  "map cmd_path (w_cmds (snd (SCP_Upload (still_env sample_tree) (sample_scp (still_env sample_tree))
     ''/var/db'' root_logger (\<lambda>c x. (([], None), x)) (start_world ())))) = [''ssh'', ''scp'', ''scp'']"
proof -
  let ?E = "still_env sample_tree :: unit env"
  let ?up = "SCP_Upload ?E (sample_scp ?E) ''/var/db'' root_logger (\<lambda>c x. (([], None), x)) (start_world ())"
  have "?up = (Ok (), snd ?up)" using sample_scp_Ok by (metis prod.collapse)
  from SCP_Upload_commands [OF sample_scp_simps(1) this]
  obtain k h where "w_cmds (snd ?up) = scp_plan ?E (sample_scp ?E) k h ''/var/db''
      (remotePathOn ''db'' ''prod'' (Date 2024 9 30))" by auto
  then show ?thesis
    by (simp add: scp_plan_def scp_entries_def still_env_def sample_tree_def mkdir_cmd_def scp_cmd_def
        exec_Command_def sample_scp_def SCP_New_def)
qed

text \<open>C16: Every command that an SCP upload launches is the key scan (and that only when no fingerprint
  is configured) or checks the host key strictly.\<close>

theorem SCP_Upload_strict:
  assumes "sc_remotePathFn c = RemotePathFunc E base dep" and "SCP_Upload E c l lg pm w = (r, w')"
  shows "\<forall>x \<in> set (drop (length (w_cmds w)) (w_cmds w')).
    x = keyscan_cmd c \<and> sc_fingerPrint c = [] \<or> ''-oStrictHostKeyChecking=yes'' \<in> set (cmd_args x)"
proof -
  obtain k h where "prefix (w_cmds w')
      (w_cmds w @ scp_plan E c k h l (remotePathOn base dep (t_date (e_clock E (w_now w)))))"
    using SCP_Upload_prefix [OF assms] by auto
  then have "set (drop (length (w_cmds w)) (w_cmds w'))
      \<subseteq> set (scp_plan E c k h l (remotePathOn base dep (t_date (e_clock E (w_now w)))))"
    by (rule set_drop_prefix)
  then show ?thesis
    by (auto simp: scp_plan_def mkdir_cmd_def scp_cmd_def exec_Command_def dest!: subsetD split: if_splits)
qed

theorem SCP_Upload_strict_witness:
  "list_all (\<lambda>x. ''-oStrictHostKeyChecking=yes'' \<in> set (cmd_args x))
    (w_cmds (snd (SCP_Upload (still_env sample_tree) (sample_scp (still_env sample_tree))
     ''/var/db'' root_logger (\<lambda>c x. (([], None), x)) (start_world ()))))"
proof -
  let ?E = "still_env sample_tree :: unit env"
  let ?up = "SCP_Upload ?E (sample_scp ?E) ''/var/db'' root_logger (\<lambda>c x. (([], None), x)) (start_world ())"
  have "?up = (fst ?up, snd ?up)" by simp
  from SCP_Upload_strict [OF sample_scp_simps(1) this] show ?thesis by (simp add: list_all_iff)
qed

text \<open>C29: The temporary files of an SCP upload.  When the known hosts cannot be made the upload fails and
  the file with the private key stays behind.  Otherwise the private key is removed on every
  way out and the known hosts file always stays behind; it holds the configured
  fingerprint when there is one.  Both files keep the mode 0600 they are made with.\<close>

theorem SCP_Upload_temp_files:
  assumes "sc_remotePathFn c = RemotePathFunc E base dep" and "SCP_Upload E c l lg pm w = (r, w')"
    and fresh: "temp_fresh E"
    and k: "e_tempname E ''backup_key'' (w_tmp w) = Inr k"
  shows "(\<exists>e. r = Err e) \<and>
      w_tmp w' = (w_tmp w)(k \<mapsto> \<lparr>tf_data = e_written E k (sc_privateKey c), tf_mode = 384\<rparr>)
    \<or> (\<exists>h d. h \<notin> insert k (dom (w_tmp w))
         \<and> w_tmp w' = (w_tmp w)(h \<mapsto> \<lparr>tf_data = e_written E h d, tf_mode = 384\<rparr>)
         \<and> (sc_fingerPrint c \<noteq> [] \<longrightarrow> d = sc_fingerPrint c))"
proof -
  obtain w1 r1 w2 where 1: "generateBackupKey E c w = (Ok k, w1)" and 2: "generateKnownHosts E c lg w1 = (r1, w2)"
    and cases: "(\<exists>e. r1 = Err e \<and> r = Err e \<and> w' = w2) \<or> (\<exists>h. r1 = Ok h \<and> w_tmp w' = (w_tmp w2)(k := None))"
    using SCP_Upload_effects [OF assms(1,2)] k by auto
  have t1: "w_tmp w1 = (w_tmp w)(k \<mapsto> \<lparr>tf_data = e_written E k (sc_privateKey c), tf_mode = 384\<rparr>)"
    using generateBackupKey_result [OF 1] by auto
  note hosts = generateKnownHosts_cmds [OF 2]
  show ?thesis
    using cases
  proof
    assume "\<exists>e. r1 = Err e \<and> r = Err e \<and> w' = w2"
    then show ?thesis using hosts t1 by auto
  next
    assume "\<exists>h. r1 = Ok h \<and> w_tmp w' = (w_tmp w2)(k := None)"
    then obtain h where h: "r1 = Ok h" and t: "w_tmp w' = (w_tmp w2)(k := None)" by auto
    with hosts obtain d where d: "e_tempname E ''known_hosts'' (w_tmp w1) = Inr h"
      "w_tmp w2 = (w_tmp w1)(h \<mapsto> \<lparr>tf_data = e_written E h d, tf_mode = 384\<rparr>)"
      "sc_fingerPrint c \<noteq> [] \<longrightarrow> d = sc_fingerPrint c" by auto
    have fh: "h \<notin> insert k (dom (w_tmp w))" using fresh d(1) t1 by (fastforce simp: temp_fresh_def)
    moreover have "w_tmp w k = None" using fresh k by (fastforce simp: temp_fresh_def)
    ultimately have "w_tmp w' = (w_tmp w)(h \<mapsto> \<lparr>tf_data = e_written E h d, tf_mode = 384\<rparr>)"
      using t t1 d(2) by (auto simp: fun_eq_iff)
    with fh d(3) show ?thesis by blast
  qed
qed

theorem SCP_Upload_temp_files_witness:
  "w_tmp (snd (SCP_Upload (still_env sample_tree) (sample_scp (still_env sample_tree)) ''/var/db'' root_logger
      (\<lambda>c x. (([], None), x)) (start_world ()))) ''/tmp/backup_key'' = None"
proof -
  let ?E = "still_env sample_tree :: unit env"
  let ?up = "SCP_Upload ?E (sample_scp ?E) ''/var/db'' root_logger (\<lambda>c x. (([], None), x)) (start_world ())"
  have 1: "?up = (fst ?up, snd ?up)" by simp
  have 2: "temp_fresh ?E" by (auto simp: temp_fresh_def still_env_def split: if_splits)
  have 3: "e_tempname ?E ''backup_key'' (w_tmp (start_world ())) = Inr ''/tmp/backup_key''"
    by (simp add: still_env_def)
  from SCP_Upload_temp_files [OF sample_scp_simps(1) 1 2 3] show ?thesis
    using sample_scp_Ok by auto
qed

end
