(* ===== verification/Uploaders.thy ===== *)
theory Uploaders
  imports Config S3_Client Azure_Client GCS_Client SCP_Client
begin

text \<open>
  The package \<open>src/upload\<close>: the CA certificate locator, the factory that makes a client per
  destination, \<open>Initialize\<close> with its options, and the multi-uploader, which sends one
  folder to every destination and joins the errors.  The last section follows
  the configuration from its file to the remote paths of the clients.
\<close>

section \<open>ca\_cert\_locator.go\<close>

definition certFiles :: "string list" where
  "certFiles =
     [''/etc/ssl/certs/ca-certificates.crt'', ''/etc/pki/tls/certs/ca-bundle.crt'',
      ''/etc/ssl/ca-bundle.pem'', ''/etc/pki/tls/cacert.pem'']"

fun first_stat :: "(string \<Rightarrow> gerror option) \<Rightarrow> string list \<Rightarrow> string res" where
  "first_stat stat [] = Err ''could not locate a known ca cert''"
| "first_stat stat (filePath # rest) =
     (if stat filePath = None then Ok filePath else first_stat stat rest)"

definition CACertPath :: "'x env \<Rightarrow> string res" where
  "CACertPath E = first_stat (e_stat E) certFiles"

section \<open>factory.go\<close>

definition toString :: "iface option \<Rightarrow> string" where
  "toString raw = (case raw of Some (IString v) \<Rightarrow> v | _ \<Rightarrow> [])"

definition toInt :: "iface option \<Rightarrow> int" where
  "toInt raw = (case raw of Some (IInt v) \<Rightarrow> v | _ \<Rightarrow> 0)"

definition factory_S3 :: "'x env \<Rightarrow> backup_config \<Rightarrow> destination \<Rightarrow> string \<Rightarrow> 'x s3_client" where
  "factory_S3 E conf dest caCertPath =
     (let basePath = toString (dest_Config dest ''bucket_name'') @ ''/''
            @ toString (dest_Config dest ''bucket_path'')
      in S3_New (dest_Name dest) (bc_AwsCliPath conf) (toString (dest_Config dest ''endpoint_url''))
           (toString (dest_Config dest ''region'')) (toString (dest_Config dest ''access_key_id''))
           (toString (dest_Config dest ''secret_access_key'')) caCertPath
           (RemotePathFunc E basePath (bc_DeploymentName conf)))"

definition factory_SCP :: "'x env \<Rightarrow> backup_config \<Rightarrow> destination \<Rightarrow> 'x scp_client" where
  "factory_SCP E conf dest =
     SCP_New (dest_Name dest) (toString (dest_Config dest ''server'')) (toInt (dest_Config dest ''port''))
       (toString (dest_Config dest ''user'')) (toString (dest_Config dest ''key''))
       (toString (dest_Config dest ''fingerprint''))
       (RemotePathFunc E (toString (dest_Config dest ''destination'')) (bc_DeploymentName conf))"

definition factory_Azure :: "'x env \<Rightarrow> backup_config \<Rightarrow> destination \<Rightarrow> 'x azure_client" where
  "factory_Azure E conf dest =
     Azure_New (dest_Name dest) (toString (dest_Config dest ''storage_access_key''))
       (toString (dest_Config dest ''storage_account'')) (toString (dest_Config dest ''container''))
       (toString (dest_Config dest ''endpoint''))
       (RemotePathFunc E (toString (dest_Config dest ''path'')) (bc_DeploymentName conf))"

definition factory_GCS :: "'x env \<Rightarrow> backup_config \<Rightarrow> destination \<Rightarrow> 'x gcs_client" where
  "factory_GCS E conf dest =
     GCS_New (dest_Name dest) (e_getenv E ''GCP_SERVICE_ACCOUNT_FILE'')
       (toString (dest_Config dest ''project_id'')) (toString (dest_Config dest ''bucket_name''))
       (RemotePathFunc E [] (bc_DeploymentName conf))"

section \<open>option.go and initialize.go\<close>

text \<open>The interface \<open>UploaderFactory\<close> and the options.\<close>

record 'x uploader_factory =
  uf_S3 :: "destination \<Rightarrow> string \<Rightarrow> 'x s3_client"
  uf_SCP :: "destination \<Rightarrow> 'x scp_client"
  uf_Azure :: "destination \<Rightarrow> 'x azure_client"
  uf_GCS :: "destination \<Rightarrow> 'x gcs_client"

record 'x upload_opts =
  uo_factory :: "'x uploader_factory"
  uo_caCertLocator :: "string res"

type_synonym 'x upload_option = "'x upload_opts \<Rightarrow> 'x upload_opts"

definition WithUploaderFactory :: "'x uploader_factory \<Rightarrow> 'x upload_option" where
  "WithUploaderFactory f opts = opts\<lparr>uo_factory := f\<rparr>"

definition WithCACertLocator :: "string res \<Rightarrow> 'x upload_option" where
  "WithCACertLocator l opts = opts\<lparr>uo_caCertLocator := l\<rparr>"

definition default_factory :: "'x env \<Rightarrow> backup_config \<Rightarrow> 'x uploader_factory" where
  "default_factory E conf = \<lparr>uf_S3 = factory_S3 E conf, uf_SCP = factory_SCP E conf,
     uf_Azure = factory_Azure E conf, uf_GCS = factory_GCS E conf\<rparr>"

text \<open>The storage services behind the SDKs.\<close>

record 'x services =
  sv_s3 :: "'x s3_api"
  sv_azure :: "'x azure_api"
  sv_gcs :: "'x gcs_api"

fun init_uploaders ::
  "'x env \<Rightarrow> 'x services \<Rightarrow> 'x upload_opts \<Rightarrow> logger \<Rightarrow> destination list \<Rightarrow> 'x world
   \<Rightarrow> 'x uploader list res \<times> 'x world" where
  "init_uploaders E S opts lg [] w = (Ok [], w)"
| "init_uploaders E S opts lg (dest # dests) w =
     (let add = (\<lambda>u. case init_uploaders E S opts lg dests w of
                   (Ok us, w1) \<Rightarrow> (Ok (u # us), w1)
                 | (Err e, w1) \<Rightarrow> (Err e, w1)
                 | (Panic m, w1) \<Rightarrow> (Panic m, w1))
      in if dest_Type dest = ''s3'' then
           (case uo_caCertLocator opts of
              Panic m \<Rightarrow> (Panic m, w)
            | Err e \<Rightarrow> (Err e, w)
            | Ok caCert \<Rightarrow> add (s3_uploader E (sv_s3 S) (uf_S3 (uo_factory opts) dest caCert)))
         else if dest_Type dest = ''scp'' then add (scp_uploader E (uf_SCP (uo_factory opts) dest))
         else if dest_Type dest = ''azure'' then
           add (azure_uploader E (sv_azure S) (uf_Azure (uo_factory opts) dest))
         else if dest_Type dest = ''gcs'' then
           add (gcs_uploader E (sv_gcs S) (uf_GCS (uo_factory opts) dest))
         else let e = ''unknown destination type: '' @ dest_Type dest
              in (Err e, log_error lg ''error parsing destinations'' e w))"

definition Initialize ::
  "'x env \<Rightarrow> 'x services \<Rightarrow> backup_config \<Rightarrow> logger \<Rightarrow> 'x upload_option list \<Rightarrow> 'x world
   \<Rightarrow> 'x uploader list res \<times> 'x world" where
  "Initialize E S conf lg options w =
     (let opts = foldl (\<lambda>o1 opt. opt o1)
            \<lparr>uo_factory = default_factory E conf, uo_caCertLocator = CACertPath E\<rparr> options
      in init_uploaders E S opts lg (bc_Destinations conf) w)"

section \<open>multi\_uploader.go\<close>

definition formattedError :: "gerror list \<Rightarrow> gerror option" where
  "formattedError errors = (if length errors = 0 then None else Some (str_join ''; '' errors))"

definition destination_logger :: "logger \<Rightarrow> string \<Rightarrow> logger" where
  "destination_logger lg name =
     (if name \<noteq> [] then withData [(''destination_name'', LText name)] lg else lg)"

text \<open>The loop over the uploaders with the errors so far; a panic of an uploader passes.\<close>

fun multi_loop ::
  "'x uploader list \<Rightarrow> string \<Rightarrow> logger \<Rightarrow> 'x process_manager \<Rightarrow> gerror list \<Rightarrow> 'x world
   \<Rightarrow> gerror list res \<times> 'x world" where
  "multi_loop [] localPath lg pm errors w = (Ok errors, w)"
| "multi_loop (u # us) localPath lg pm errors w =
     (case upl_Upload u localPath (destination_logger lg (upl_Name u)) pm w of
        (Panic m, w1) \<Rightarrow> (Panic m, w1)
      | (Err e, w1) \<Rightarrow> multi_loop us localPath lg pm (errors @ [e]) w1
      | (Ok _, w1) \<Rightarrow> multi_loop us localPath lg pm errors w1)"

definition Multi_Upload :: "'x uploader list \<Rightarrow> 'x upload_fn" where
  "Multi_Upload us localPath lg pm w =
     (case multi_loop us localPath lg pm [] w of
        (Panic m, w1) \<Rightarrow> (Panic m, w1)
      | (Err e, w1) \<Rightarrow> (Err e, w1)
      | (Ok errors, w1) \<Rightarrow> (res_of_error (formattedError errors), w1))"

definition Multi_Name :: "'x uploader list \<Rightarrow> string" where
  "Multi_Name us = ''multi-uploader: '' @ str_join '', '' (map upl_Name us)"

definition multi_uploader :: "'x uploader list \<Rightarrow> 'x uploader" where
  "multi_uploader us = \<lparr>upl_Upload = Multi_Upload us, upl_Name = Multi_Name us\<rparr>"

section \<open>The multi-uploader against its specification\<close>

text \<open>The specification: every uploader is called once, in order, whatever the others return.\<close>

fun run_all ::
  "'x uploader list \<Rightarrow> string \<Rightarrow> logger \<Rightarrow> 'x process_manager \<Rightarrow> 'x world \<Rightarrow> unit res list \<times> 'x world" where
  "run_all [] localPath lg pm w = ([], w)"
| "run_all (u # us) localPath lg pm w =
     (case upl_Upload u localPath (destination_logger lg (upl_Name u)) pm w of
        (r, w1) \<Rightarrow> (case run_all us localPath lg pm w1 of (rs, w2) \<Rightarrow> (r # rs, w2)))"

fun error_of :: "unit res \<Rightarrow> gerror list" where
  "error_of (Err e) = [e]"
| "error_of _ = []"

fun is_panic :: "'a res \<Rightarrow> bool" where
  "is_panic (Panic m) = True"
| "is_panic _ = False"

lemma length_run_all: "length (fst (run_all us l lg pm w)) = length us"
  by (induction us arbitrary: w) (auto split: prod.splits, metis fst_conv)

lemma multi_loop_run_all:
  assumes "list_all (\<lambda>r. \<not> is_panic r) (fst (run_all us l lg pm w))"
  shows "multi_loop us l lg pm errs w =
    (Ok (errs @ concat (map error_of (fst (run_all us l lg pm w)))), snd (run_all us l lg pm w))"
  using assms
proof (induction us arbitrary: w errs)
  case (Cons u us)
  obtain r w1 where u: "upl_Upload u l (destination_logger lg (upl_Name u)) pm w = (r, w1)" by fastforce
  obtain rs w2 where us: "run_all us l lg pm w1 = (rs, w2)" by fastforce
  from Cons.prems have "\<not> is_panic r" "list_all (\<lambda>r. \<not> is_panic r) (fst (run_all us l lg pm w1))"
    by (simp_all add: u us)
  from Cons.IH [OF this(2)] this(1) show ?case by (cases r) (simp_all add: u us)
qed simp

lemma multi_loop_panic:
  assumes "\<not> list_all (\<lambda>r. \<not> is_panic r) (fst (run_all us l lg pm w))"
  shows "\<exists>m. fst (multi_loop us l lg pm errs w) = Panic m"
  using assms
proof (induction us arbitrary: w errs)
  case (Cons u us)
  obtain r w1 where u: "upl_Upload u l (destination_logger lg (upl_Name u)) pm w = (r, w1)" by fastforce
  obtain rs w2 where us: "run_all us l lg pm w1 = (rs, w2)" by fastforce
  show ?case
    using Cons.prems Cons.IH [of w1] by (cases r) (simp_all add: u us)
qed simp

lemma Multi_Upload_success:
  "fst (Multi_Upload us l lg pm w) = Ok () \<longleftrightarrow> list_all (\<lambda>r. r = Ok ()) (fst (run_all us l lg pm w))"
proof (cases "list_all (\<lambda>r. \<not> is_panic r) (fst (run_all us l lg pm w))")
  case True
  have "concat (map error_of rs) = [] \<longleftrightarrow> list_all (\<lambda>r. r = Ok ()) rs"
    if "list_all (\<lambda>r. \<not> is_panic r) rs" for rs
    using that
  proof (induction rs)
    case (Cons r rs)
    then show ?case by (cases r) auto
  qed simp
  with True show ?thesis
    by (simp add: Multi_Upload_def multi_loop_run_all formattedError_def)
next
  case False
  then obtain m where "fst (multi_loop us l lg pm [] w) = Panic m" using multi_loop_panic by blast
  then have "fst (Multi_Upload us l lg pm w) = Panic m"
    by (simp add: Multi_Upload_def case_prod_beta)
  moreover have "\<not> list_all (\<lambda>r. r = Ok ()) (fst (run_all us l lg pm w))"
    using False is_panic.simps(2) unfolding list_all_iff by metis
  ultimately show ?thesis by simp
qed

section \<open>The contract of the uploaders\<close>

definition uploader_ok :: "'x uploader \<Rightarrow> bool" where
  "uploader_ok u = uploader_contract (upl_Upload u)"

lemma multi_loop_grows:
  "list_all uploader_ok us \<Longrightarrow> world_grows v w \<Longrightarrow> world_grows v (snd (multi_loop us l lg pm errs w))"
proof (induction us arbitrary: w errs)
  case (Cons u us)
  have "world_grows v (snd (upl_Upload u l (destination_logger lg (upl_Name u)) pm w))"
    using Cons.prems by (auto simp: uploader_ok_def intro: uploader_contract.upload_after)
  then show ?case
    using Cons by (auto split: prod.splits res.splits)
qed simp

lemma Multi_Upload_contract: "list_all uploader_ok us \<Longrightarrow> uploader_contract (Multi_Upload us)"
  by unfold_locales
    (auto simp: Multi_Upload_def multi_loop_grows case_prod_beta split: res.split)

text \<open>What \<open>Initialize\<close> makes of one destination, and of all.\<close>

definition uploader_for :: "'x env \<Rightarrow> 'x services \<Rightarrow> backup_config \<Rightarrow> string \<Rightarrow> destination \<Rightarrow> 'x uploader option" where
  "uploader_for E S conf ca dest =
     (if dest_Type dest = ''s3'' then Some (s3_uploader E (sv_s3 S) (factory_S3 E conf dest ca))
      else if dest_Type dest = ''scp'' then Some (scp_uploader E (factory_SCP E conf dest))
      else if dest_Type dest = ''azure'' then Some (azure_uploader E (sv_azure S) (factory_Azure E conf dest))
      else if dest_Type dest = ''gcs'' then Some (gcs_uploader E (sv_gcs S) (factory_GCS E conf dest))
      else None)"

definition configured :: "'x env \<Rightarrow> 'x services \<Rightarrow> backup_config \<Rightarrow> string \<Rightarrow> 'x uploader list" where
  "configured E S conf ca = List.map_filter (uploader_for E S conf ca) (bc_Destinations conf)"

lemma uploader_for_ok: "uploader_for E S conf ca dest = Some u \<Longrightarrow> uploader_ok u"
  by (auto simp: uploader_for_def uploader_ok_def s3_uploader_def scp_uploader_def azure_uploader_def
      gcs_uploader_def factory_S3_def factory_SCP_def factory_Azure_def factory_GCS_def Let_def
      s3.uploader_contract_axioms scp.uploader_contract_axioms azure.uploader_contract_axioms
      gcs.uploader_contract_axioms split: if_splits)

lemma configured_ok: "list_all uploader_ok (configured E S conf ca)"
  by (auto simp: configured_def list_all_iff List.map_filter_def dest: uploader_for_ok)

interpretation multi: uploader_contract "Multi_Upload (configured E S conf ca)" for E S conf ca
  by (rule Multi_Upload_contract) (rule configured_ok)

lemma uploader_for_name: "uploader_for E S conf ca dest = Some u \<Longrightarrow> upl_Name u = dest_Name dest"
  by (auto simp: uploader_for_def s3_uploader_def scp_uploader_def azure_uploader_def gcs_uploader_def
      factory_S3_def factory_SCP_def factory_Azure_def factory_GCS_def S3_New_def SCP_New_def
      Azure_New_def GCS_New_def S3_Name_def SCP_Name_def Azure_Name_def GCS_Name_def Let_def
      split: if_splits)

section \<open>Initialize\<close>

definition known_type :: "string \<Rightarrow> bool" where
  "known_type t = (t \<in> {''s3'', ''scp'', ''azure'', ''gcs''})"

text \<open>The default options.\<close>

abbreviation default_opts :: "'x env \<Rightarrow> backup_config \<Rightarrow> 'x upload_opts" where
  "default_opts E conf \<equiv> \<lparr>uo_factory = default_factory E conf, uo_caCertLocator = CACertPath E\<rparr>"

definition needs_ca :: "destination list \<Rightarrow> bool" where
  "needs_ca dests = list_ex (\<lambda>d. dest_Type d = ''s3'') dests"

lemma init_uploaders_Ok:
  assumes "list_all (\<lambda>d. known_type (dest_Type d)) dests" and "needs_ca dests \<longrightarrow> CACertPath E = Ok ca"
  shows "init_uploaders E S (default_opts E conf) lg dests w =
    (Ok (List.map_filter (uploader_for E S conf ca) dests), w)"
  using assms
  by (induction dests)
    (auto simp: known_type_def needs_ca_def uploader_for_def default_factory_def List.map_filter_def Let_def)

lemma init_uploaders_Err:
  assumes "\<not> (list_all (\<lambda>d. known_type (dest_Type d)) dests \<and> (needs_ca dests \<longrightarrow> (\<exists>ca. CACertPath E = Ok ca)))"
    and "\<And>m. CACertPath E \<noteq> Panic m"
  shows "\<exists>e. fst (init_uploaders E S (default_opts E conf) lg dests w) = Err e"
  using assms
proof (induction dests)
  case (Cons d ds)
  show ?case
  proof (cases "known_type (dest_Type d) \<and> (dest_Type d = ''s3'' \<longrightarrow> (\<exists>ca. CACertPath E = Ok ca))")
    case True
    then have "\<not> (list_all (\<lambda>d. known_type (dest_Type d)) ds \<and> (needs_ca ds \<longrightarrow> (\<exists>ca. CACertPath E = Ok ca)))"
      using Cons.prems(1) by (auto simp: needs_ca_def)
    then obtain e w1 where "init_uploaders E S (default_opts E conf) lg ds w = (Err e, w1)"
      using Cons.IH [OF _ Cons.prems(2)] by (metis prod.collapse)
    with True show ?thesis by (auto simp: known_type_def Let_def)
  next
    case False
    then show ?thesis
      using Cons.prems(2) by (cases "CACertPath E") (auto simp: known_type_def Let_def)
  qed
qed (simp add: needs_ca_def)

lemma first_stat_filter:
  "first_stat stat ps = (case filter (\<lambda>p. stat p = None) ps of
     [] \<Rightarrow> Err ''could not locate a known ca cert'' | p # rest \<Rightarrow> Ok p)"
  by (induction ps) auto

lemma first_stat_Ok_iff: "(\<exists>p. first_stat stat ps = Ok p) \<longleftrightarrow> list_ex (\<lambda>p. stat p = None) ps"
  by (induction ps) auto

lemma first_stat_no_panic: "first_stat stat ps \<noteq> Panic m"
  by (induction ps) auto

lemma CACertPath_no_panic: "CACertPath E \<noteq> Panic m"
  by (simp add: CACertPath_def first_stat_no_panic)

section \<open>Properties\<close>

text \<open>C5: The multi-uploader tries every destination: when no uploader panics it calls each of them once,
  in the order of the configuration, whatever the earlier ones returned, and it returns the
  error messages joined by semicolons, or success when there is none.\<close>

theorem Multi_Upload_tries_all:
  assumes "list_all (\<lambda>r. \<not> is_panic r) (fst (run_all us l lg pm w))"
  shows "Multi_Upload us l lg pm w =
      (res_of_error (formattedError (concat (map error_of (fst (run_all us l lg pm w))))),
       snd (run_all us l lg pm w))
    \<and> length (fst (run_all us l lg pm w)) = length us"
  by (simp add: Multi_Upload_def multi_loop_run_all [OF assms] length_run_all)

theorem Multi_Upload_tries_all_witness:
  "Multi_Upload [\<lparr>upl_Upload = \<lambda>l lg pm w. (Err ''denied'', w), upl_Name = ''a''\<rparr>,
      \<lparr>upl_Upload = \<lambda>l lg pm w. (Ok (), log_info lg ''stored'' [] w), upl_Name = []\<rparr>,
      \<lparr>upl_Upload = \<lambda>l lg pm w. (Err ''timeout'', w), upl_Name = ''c''\<rparr>]
     ''/var/db'' root_logger (\<lambda>c x. (([], None), x)) (start_world ())
   = (Err ''denied; timeout'', log_info root_logger ''stored'' [] (start_world ()))"
  using Multi_Upload_tries_all [of "[\<lparr>upl_Upload = \<lambda>l lg pm w. (Err ''denied'', w), upl_Name = ''a''\<rparr>,
      \<lparr>upl_Upload = \<lambda>l lg pm w. (Ok (), log_info lg ''stored'' [] w), upl_Name = []\<rparr>,
      \<lparr>upl_Upload = \<lambda>l lg pm w. (Err ''timeout'', w), upl_Name = ''c''\<rparr>]" "''/var/db''" root_logger
      "\<lambda>c x. (([], None), x)" "start_world ()"]
  by (simp add: formattedError_def destination_logger_def)

text \<open>C26: \<open>Initialize\<close> succeeds exactly when every destination type is known and a CA certificate file
  exists if there is an S3 destination; then it makes one uploader per destination, in
  order and with the destination's name, and otherwise it returns an error and never
  panics.\<close>

theorem Initialize_correct:
  "(if list_all (\<lambda>d. known_type (dest_Type d)) (bc_Destinations conf)
       \<and> (if needs_ca (bc_Destinations conf) then list_ex (\<lambda>p. e_stat E p = None) certFiles else True)
    then \<exists>us. Initialize E S conf lg [] w = (Ok us, w) \<and> map upl_Name us = map dest_Name (bc_Destinations conf)
    else \<exists>e w'. Initialize E S conf lg [] w = (Err e, w'))"
proof -
  let ?ds = "bc_Destinations conf"
  have ca: "(\<exists>ca. CACertPath E = Ok ca) \<longleftrightarrow> list_ex (\<lambda>p. e_stat E p = None) certFiles"
    by (simp add: CACertPath_def first_stat_Ok_iff)
  have names: "map upl_Name (List.map_filter (uploader_for E S conf p) ds) = map dest_Name ds"
    if "list_all (\<lambda>d. known_type (dest_Type d)) ds" for p ds
    using that
  proof (induction ds)
    case (Cons d ds)
    then obtain u where "uploader_for E S conf p d = Some u"
      by (auto simp: known_type_def uploader_for_def)
    with Cons uploader_for_name [OF this] show ?case by (simp add: List.map_filter_def)
  qed (simp add: List.map_filter_def)
  show ?thesis
  proof (cases "list_all (\<lambda>d. known_type (dest_Type d)) ?ds
      \<and> (if needs_ca ?ds then list_ex (\<lambda>p. e_stat E p = None) certFiles else True)")
    case True
    then obtain p where "needs_ca ?ds \<longrightarrow> CACertPath E = Ok p" using ca by (auto split: if_splits)
    with True have "init_uploaders E S (default_opts E conf) lg ?ds w
        = (Ok (List.map_filter (uploader_for E S conf p) ?ds), w)"
      by (intro init_uploaders_Ok) auto
    with True names show ?thesis by (simp add: Initialize_def)
  next
    case False
    then have "\<exists>e. fst (init_uploaders E S (default_opts E conf) lg ?ds w) = Err e"
      by (intro init_uploaders_Err CACertPath_no_panic) (auto simp: ca split: if_splits)
    with False show ?thesis by (simp add: Initialize_def) (metis prod.collapse)
  qed
qed

text \<open>The CA certificate locator returns the first of the four known paths that exists, and an error
  when none does.\<close>

lemma CACertPath_first:
  "CACertPath E = (case filter (\<lambda>p. e_stat E p = None) certFiles of
     [] \<Rightarrow> Err ''could not locate a known ca cert'' | p # ps \<Rightarrow> Ok p)"
  by (simp add: CACertPath_def first_stat_filter)

section \<open>From the configuration file to the remote paths\<close>

text \<open>The parts of a remote path that are not empty, with separators.\<close>

definition joined :: "string list \<Rightarrow> string" where
  "joined parts = str_join ''/'' (filter (\<lambda>s. s \<noteq> []) parts)"

lemma remotePathOn_joined: "remotePathOn base dep d = joined [base, dep, datePath d]"
  by (simp add: remotePathOn_def pathPrefix_def joined_def datePath_def)

text \<open>C36: The switch \<open>add_deployment_name_to_backup_path\<close> from the configuration file to the remote
  paths: when \<open>Parse\<close> reports no error the file was read and decoded, no field of the decoded
  configuration but the deployment name is changed, and the client that the factory makes
  for any destination puts its backups under its configured base path, then the decoded
  deployment name if and only if the switch is set, then the date of the upload, an empty
  part adding nothing.  When it reports an error, that is the error of the read or of the
  decoder, it is logged once, and the configuration is empty.\<close>

theorem Parse_remote_paths:
  assumes "Parse E unmarshal path lg w = ((c, err), w')"
  shows "(err = None \<longrightarrow> (\<exists>yaml d. os_ReadFile (e_open E) path = Inr yaml \<and> unmarshal yaml = Inr d
      \<and> w' = w \<and> c = d\<lparr>bc_DeploymentName := bc_DeploymentName c\<rparr>
      \<and> (\<forall>dest ca v.
           let value = \<lambda>k. toString (dest_Config dest k);
               dep = (if bc_AddDeploymentName d then bc_DeploymentName d else []);
               today = datePath (t_date (e_clock E (w_now v)))
           in fst (s3_remotePathFn (factory_S3 E c dest ca) v)
                = joined [value ''bucket_name'' @ ''/'' @ value ''bucket_path'', dep, today]
            \<and> fst (sc_remotePathFn (factory_SCP E c dest) v) = joined [value ''destination'', dep, today]
            \<and> fst (azc_remotePathFn (factory_Azure E c dest) v) = joined [value ''path'', dep, today]
            \<and> fst (gc_remotePathFn (factory_GCS E c dest) v) = joined [dep, today])))
    \<and> (\<forall>e. err = Some e \<longrightarrow> c = zero_BackupConfig \<and> (\<exists>msg. w' = log_error lg msg e w)
         \<and> (os_ReadFile (e_open E) path = Inl e
            \<or> (\<exists>yaml. os_ReadFile (e_open E) path = Inr yaml \<and> unmarshal yaml = Inl e)))"
proof (cases err)
  case None
  from Parse_None [OF assms [unfolded None]] obtain yaml d
    where "os_ReadFile (e_open E) path = Inr yaml" "unmarshal yaml = Inr d" "w' = w"
    and c: "c = d\<lparr>bc_DeploymentName := if bc_AddDeploymentName d then bc_DeploymentName d else []\<rparr>"
    by blast
  moreover have "joined [[], a, b] = joined [a, b]" for a b by (simp add: joined_def)
  ultimately show ?thesis
    unfolding None
    by (intro conjI impI allI exI [of _ yaml] exI [of _ d])
      (simp_all add: c Let_def factory_S3_def S3_New_def factory_SCP_def SCP_New_def factory_Azure_def
        Azure_New_def factory_GCS_def GCS_New_def remotePathOn_joined)
next
  case (Some e)
  with Parse_Some [OF assms [unfolded Some]] show ?thesis by simp
qed

theorem Parse_remote_paths_witness:
  "let conf = \<lambda>b. zero_BackupConfig\<lparr>bc_DeploymentName := ''prod'', bc_AddDeploymentName := b\<rparr>;
       parsed = \<lambda>b. fst (fst (Parse (still_env (FDir []) :: unit env) (\<lambda>yaml. Inr (conf b)) ''/etc/backup.yml''
         root_logger (start_world ())));
       dest = \<lparr>dest_Type = ''azure'', dest_Name = [], dest_Config = [''path'' \<mapsto> IString ''db'']\<rparr>;
       remote = \<lambda>b. fst (azc_remotePathFn (factory_Azure (still_env (FDir [])) (parsed b) dest) (start_world ()))
   in remote True = ''db/prod/2024/09/30'' \<and> remote False = ''db/2024/09/30''"
proof -
  let ?conf = "\<lambda>b. zero_BackupConfig\<lparr>bc_DeploymentName := ''prod'', bc_AddDeploymentName := b\<rparr>"
  let ?p = "\<lambda>b. Parse (still_env (FDir []) :: unit env) (\<lambda>yaml. Inr (?conf b)) ''/etc/backup.yml''
     root_logger (start_world ())"
  let ?dest = "\<lparr>dest_Type = ''azure'', dest_Name = [], dest_Config = [''path'' \<mapsto> IString ''db'']\<rparr>"
  have "snd (fst (?p b)) = None" for b
    by (simp add: Parse_def os_ReadFile_def path_file_def read_all_def)
  then have p: "?p b = ((fst (fst (?p b)), None), snd (?p b))" for b by (metis prod.collapse)
  have "fst (azc_remotePathFn (factory_Azure (still_env (FDir [])) (fst (fst (?p b))) ?dest) (start_world ()))
      = joined [''db'', if b then ''prod'' else [], datePath (Date 2024 9 30)]" for b
    using Parse_remote_paths [OF p [of b]] by (auto simp: Let_def toString_def)
  then show ?thesis
    by (simp add: Let_def joined_def datePath_def int_dec_def pad0_def nat_dec.simps digit_char_eval)
qed

end
