(* ===== verification/Executor.thy ===== *)
theory Executor
  imports Uploaders
begin

text \<open>
  The package \<open>src/executor\<close>, one call of \<open>Execute\<close> at a time: the directory size, the dummy
  executor, and the executor that identifies the service instance, makes the backup,
  uploads it and cleans up.  The state of the executor is the record \<open>executor\<close>, whose only
  field that changes is \<open>ex_backupInProgress\<close>; concurrent calls are the subject of
  \<open>Executor_Threads\<close>.
\<close>

section \<open>dir\_size.go\<close>

text \<open>An \<open>int64\<close> and an error, or a panic.\<close>

datatype size_result = Size "64 word" "gerror option" | SizePanic string

definition dirSize_callback :: "64 word walk_fn" where
  "dirSize_callback path info err sz =
     (case info of
        None \<Rightarrow> (Panic ''nil pointer dereference'', sz)
      | Some i \<Rightarrow>
          (res_of_error err, case i of FileInfo n \<Rightarrow> sz + n | DirInfo \<Rightarrow> sz))"

definition calculateDirSize :: "'x env \<Rightarrow> string \<Rightarrow> size_result" where
  "calculateDirSize E localPath =
     (case e_stat E localPath of
        Some e \<Rightarrow> Size 0 (Some e)
      | None \<Rightarrow>
          (case filepath_Walk (e_lstat E) dirSize_callback localPath 0 of
             (Panic m, sz) \<Rightarrow> SizePanic m
           | (Err e, sz) \<Rightarrow> Size sz (Some e)
           | (Ok _, sz) \<Rightarrow> Size sz None))"

section \<open>Errors and the interface\<close>

text \<open>An \<open>error\<close> with its dynamic type, as far as the program looks at it.\<close>

datatype exec_error = ServiceInstanceError gerror string | OtherError gerror

fun error_text :: "exec_error \<Rightarrow> gerror" where
  "error_text (ServiceInstanceError e ident) = e"
| "error_text (OtherError e) = e"

datatype exec_result = Done "exec_error option" | Panicked string

text \<open>
  The interface \<open>Executor\<close>: a run on the state of the implementation and the world.  The
  string is the identifier that \<open>uuid.NewV4\<close> returns in this run.
\<close>

type_synonym ('s, 'x) execute_fn = "string \<Rightarrow> 's \<Rightarrow> 'x world \<Rightarrow> exec_result \<times> 's \<times> 'x world"

section \<open>dummy\_executor.go\<close>

record dummy_executor =
  de_logger :: logger

definition NewDummyExecutor :: "logger \<Rightarrow> dummy_executor" where
  "NewDummyExecutor lg = \<lparr>de_logger = lg\<rparr>"

definition Dummy_Execute :: "(dummy_executor, 'x) execute_fn" where
  "Dummy_Execute guid d w = (Done None, d, log_info (de_logger d) ''Backups Disabled'' [] w)"

section \<open>executor.go: the state\<close>

record 'x executor =
  ex_uploader :: "'x uploader"
  ex_sourceFolder :: string
  ex_backupCreatorCmd :: string
  ex_cleanupCmd :: string
  ex_serviceIdentifierCmd :: string
  ex_exitIfBackupInProgress :: bool
  ex_backupInProgress :: bool
  ex_logger :: logger
  ex_processManager :: "'x process_manager"
  ex_execCommand :: "string \<Rightarrow> string list \<Rightarrow> cmd"
  ex_dirSize :: "string \<Rightarrow> size_result"

type_synonym 'x executor_option = "'x executor \<Rightarrow> 'x executor"

definition WithDirSizeFunc :: "(string \<Rightarrow> size_result) \<Rightarrow> 'x executor_option" where
  "WithDirSizeFunc fn e = e\<lparr>ex_dirSize := fn\<rparr>"

definition WithCommandFunc :: "(string \<Rightarrow> string list \<Rightarrow> cmd) \<Rightarrow> 'x executor_option" where
  "WithCommandFunc fn e = e\<lparr>ex_execCommand := fn\<rparr>"

definition NewExecutor ::
  "'x env \<Rightarrow> 'x uploader \<Rightarrow> string \<Rightarrow> string \<Rightarrow> string \<Rightarrow> string \<Rightarrow> bool \<Rightarrow> logger \<Rightarrow> 'x process_manager
   \<Rightarrow> 'x executor_option list \<Rightarrow> 'x executor" where
  "NewExecutor E uploader sourceFolder backupCreatorCmd cleanupCmd serviceIdentifierCmd
       exitIfInProgress lg processManager options =
     foldl (\<lambda>e opt. opt e)
       \<lparr>ex_uploader = uploader, ex_sourceFolder = sourceFolder, ex_backupCreatorCmd = backupCreatorCmd,
        ex_cleanupCmd = cleanupCmd, ex_serviceIdentifierCmd = serviceIdentifierCmd,
        ex_exitIfBackupInProgress = exitIfInProgress, ex_backupInProgress = False, ex_logger = lg,
        ex_processManager = processManager, ex_execCommand = exec_Command,
        ex_dirSize = calculateDirSize E\<rparr>
       options"

section \<open>executor.go: the steps\<close>

text \<open>The two critical sections under the executor's mutex.\<close>

definition backupCanBeStarted :: "'x executor \<Rightarrow> bool \<times> 'x executor" where
  "backupCanBeStarted e =
     (if ex_backupInProgress e \<and> ex_exitIfBackupInProgress e then (False, e)
      else (True, e\<lparr>ex_backupInProgress := True\<rparr>))"

definition doneBackup :: "'x executor \<Rightarrow> 'x executor" where
  "doneBackup e = e\<lparr>ex_backupInProgress := False\<rparr>"

text \<open>\<open>strings.Split(s, " ")\<close>: the command and its arguments.\<close>

definition split_cmd :: "string \<Rightarrow> string \<times> string list" where
  "split_cmd s = (hd (str_split CHR '' '' s), tl (str_split CHR '' '' s))"

definition identifyService :: "'x env \<Rightarrow> 'x executor \<Rightarrow> logger \<Rightarrow> 'x world \<Rightarrow> string \<times> 'x world" where
  "identifyService E e lg w =
     (if ex_serviceIdentifierCmd e = [] then ([], w)
      else let (name, args) = split_cmd (ex_serviceIdentifierCmd e) in
        case e_stat E name of
          Some err \<Rightarrow> ([], log_error lg ''Service identifier command not found'' err w)
        | None \<Rightarrow>
            (case combinedOutput E (ex_execCommand e name args) w of
               ((out, Some err), w1) \<Rightarrow> ([], log_error lg ''Service identifier command returned error'' err w1)
             | ((out, None), w1) \<Rightarrow> (str_trim_space out, w1)))"

definition performBackup :: "'x executor \<Rightarrow> logger \<Rightarrow> 'x world \<Rightarrow> unit res \<times> 'x world" where
  "performBackup e lg w =
     (if ex_backupCreatorCmd e = [] then
        (Ok (), log_info lg ''source_executable not provided, skipping performing of backup'' [] w)
      else let (name, args) = split_cmd (ex_backupCreatorCmd e) in
        case start_with (ex_processManager e) (exec_Command name args)
               (log_info lg ''Perform backup started'' [] w) of
          ((out, Some err), w1) \<Rightarrow> (Err err, log_error lg ''Perform backup completed with error'' err w1)
        | ((out, None), w1) \<Rightarrow> (Ok (), log_info lg ''Perform backup completed successfully'' [] w1))"

definition performCleanup :: "'x executor \<Rightarrow> logger \<Rightarrow> 'x world \<Rightarrow> unit res \<times> 'x world" where
  "performCleanup e lg w =
     (if ex_cleanupCmd e = [] then (Ok (), log_info lg ''Cleanup command not provided'' [] w)
      else let (name, args) = split_cmd (ex_cleanupCmd e) in
        case start_with (ex_processManager e) (exec_Command name args) (log_info lg ''Cleanup started'' [] w) of
          ((out, Some err), w1) \<Rightarrow> (Err err, log_error lg ''Cleanup completed with error'' err w1)
        | ((out, None), w1) \<Rightarrow> (Ok (), log_info lg ''Cleanup completed successfully'' [] w1))"

definition uploadBackup :: "'x env \<Rightarrow> 'x executor \<Rightarrow> logger \<Rightarrow> 'x world \<Rightarrow> unit res \<times> 'x world" where
  "uploadBackup E e lg w =
     (case time_Now E (log_info lg ''Upload backup started'' [] w) of
        (startTime, w1) \<Rightarrow>
          (case upl_Upload (ex_uploader e) (ex_sourceFolder e) lg (ex_processManager e) w1 of
             (Panic m, w2) \<Rightarrow> (Panic m, w2)
           | (r, w2) \<Rightarrow>
               (case time_Now E w2 of
                  (now, w3) \<Rightarrow>
                    (case r of
                       Err err \<Rightarrow> (Err err, log_error lg ''Upload backup completed with error'' err w3)
                     | _ \<Rightarrow>
                         (case ex_dirSize e (ex_sourceFolder e) of
                            SizePanic m \<Rightarrow> (Panic m, w3)
                          | Size sz _ \<Rightarrow>
                              (Ok (), log_info lg ''Upload backup completed successfully''
                                 [(''duration_in_seconds'', LDuration (t_mono now - t_mono startTime)),
                                  (''size_in_bytes'', LNum (sint sz))] w3))))))"

text \<open>\<open>Execute\<close> after the check: backup, upload, and a cleanup whose error is dropped.\<close>

definition run_backup ::
  "'x env \<Rightarrow> 'x executor \<Rightarrow> logger \<Rightarrow> string \<Rightarrow> 'x world \<Rightarrow> exec_result \<times> 'x world" where
  "run_backup E e lg serviceInstanceID w =
     (case performBackup e lg w of
        (Panic m, w1) \<Rightarrow> (Panicked m, w1)
      | (Err err, w1) \<Rightarrow> (Done (Some (ServiceInstanceError err serviceInstanceID)), w1)
      | (Ok _, w1) \<Rightarrow>
          (case uploadBackup E e lg w1 of
             (Panic m, w2) \<Rightarrow> (Panicked m, w2)
           | (Err err, w2) \<Rightarrow> (Done (Some (ServiceInstanceError err serviceInstanceID)), w2)
           | (Ok _, w2) \<Rightarrow>
               (case performCleanup e lg w2 of
                  (Panic m, w3) \<Rightarrow> (Panicked m, w3)
                | (_, w3) \<Rightarrow> (Done None, w3))))"

definition in_progress_msg :: string where
  "in_progress_msg = ''Backup currently in progress, exiting. Another backup will not be able to start until this is completed.''"

definition session_logger :: "'x executor \<Rightarrow> string \<Rightarrow> logger" where
  "session_logger e guid = withData [(''backup_guid'', LText guid)] (ex_logger e)"

definition identified_logger :: "logger \<Rightarrow> string \<Rightarrow> logger" where
  "identified_logger lg serviceInstanceID =
     (if serviceInstanceID \<noteq> [] then session ''WithIdentifier'' [(''identifier'', LText serviceInstanceID)] lg
      else lg)"

definition Execute :: "'x env \<Rightarrow> ('x executor, 'x) execute_fn" where
  "Execute E guid e w =
     (case identifyService E e (session_logger e guid) w of
        (serviceInstanceID, w1) \<Rightarrow>
          let lg = identified_logger (session_logger e guid) serviceInstanceID in
          case backupCanBeStarted e of
            (False, e1) \<Rightarrow>
              (Done (Some (ServiceInstanceError in_progress_msg serviceInstanceID)), e1,
               log_error lg in_progress_msg in_progress_msg w1)
          | (True, e1) \<Rightarrow>
              (case run_backup E e1 lg serviceInstanceID w1 of
                 (r, w2) \<Rightarrow> (r, doneBackup e1, w2)))"

section \<open>The directory size\<close>

text \<open>The reference: the sizes of the files of a tree, in the order of the walk.\<close>

fun tree_sizes :: "fsnode \<Rightarrow> 64 word list"
  and entries_sizes :: "(string \<times> fsnode) list \<Rightarrow> 64 word list"
where
  "tree_sizes (FFile n) = [n]"
| "tree_sizes (FDir es) = entries_sizes es"
| "tree_sizes (FDirErr e) = []"
| "tree_sizes (FGone e) = []"
| "entries_sizes [] = []"
| "entries_sizes ((name, node) # es) = tree_sizes node @ entries_sizes es"

definition visit_size :: "visit \<Rightarrow> 64 word list" where
  "visit_size v = (case v of (p, Some (FileInfo n), err) \<Rightarrow> [n] | _ \<Rightarrow> [])"

lemma visits_sizes:
  "concat (map visit_size (visits p node)) = tree_sizes node"
  "concat (map visit_size (visits_entries p es)) = entries_sizes es"
  by (induction p node and p es rule: visits_visits_entries.induct) (simp_all add: visit_size_def)

lemma dirSize_loop:
  assumes "\<forall>(p, d, err) \<in> set vs. d \<noteq> None \<and> err = None"
  shows "each_until (at_visit dirSize_callback) vs s = (Ok (), s + sum_list (concat (map visit_size vs)))"
  using assms
proof (induction vs arbitrary: s)
  case (Cons v vs)
  obtain p d err where v: "v = (p, d, err)" by (cases v) auto
  with Cons.prems obtain i where d: "d = Some i" "err = None" by auto
  have "at_visit dirSize_callback v s = (Ok (), s + sum_list (visit_size v))"
    by (cases i) (simp_all add: v d at_visit_def dirSize_callback_def visit_size_def)
  then show ?case using Cons by (simp add: algebra_simps)
qed simp

lemma clean_visits:
  assumes "wf_tree node" and "clean_tree node"
  shows "\<forall>(q, d, err) \<in> set (visits p node). d \<noteq> None \<and> err = None"
  using assms(2) unfolding visits_name_visits(1) [OF assms(1)] by (force simp: clean_tree_def)

lemma calculateDirSize_clean:
  assumes "e_stat E p = None" and "wf_tree (e_lstat E p)" and "clean_tree (e_lstat E p)"
  shows "calculateDirSize E p = Size (sum_list (tree_sizes (e_lstat E p))) None"
  by (simp add: calculateDirSize_def assms(1) filepath_Walk_visits visits_sizes
      dirSize_loop [OF clean_visits [OF assms(2,3)]])

lemma unat_sum_list:
  fixes ws :: "64 word list"
  assumes "sum_list (map unat ws) < 2 ^ 64"
  shows "unat (sum_list ws) = sum_list (map unat ws)"
  using assms
proof (induction ws)
  case (Cons a ws)
  then have "unat a + unat (sum_list ws) < 2 ^ 64" by simp
  then have "unat (a + sum_list ws) = unat a + unat (sum_list ws)"
    by (simp add: unat_word_ariths)
  with Cons show ?case by simp
qed simp

lemma sint_of_small:
  fixes x :: "64 word"
  assumes "unat x < 2 ^ 63"
  shows "sint x = int (unat x)"
proof -
  have "uint x < 2 ^ 63" using assms by (metis of_nat_less_iff of_nat_numeral of_nat_power uint_nat)
  then have "signed_take_bit 63 (uint x) = uint x"
    by (intro signed_take_bit_int_eq_self) (simp_all add: order_trans [of _ 0])
  then show ?thesis by (simp add: sint_uint)
qed

section \<open>The steps only extend the histories\<close>

lemma identifyService_grows: "world_grows u w \<Longrightarrow> world_grows u (snd (identifyService E e lg w))"
  by (simp add: identifyService_def case_prod_beta Let_def grows_intros del: combinedOutput_frame
      split: option.split)

lemma performBackup_grows: "world_grows u w \<Longrightarrow> world_grows u (snd (performBackup e lg w))"
  by (simp add: performBackup_def case_prod_beta Let_def grows_intros del: start_with_frame
      split: option.split)

lemma performCleanup_grows: "world_grows u w \<Longrightarrow> world_grows u (snd (performCleanup e lg w))"
  by (simp add: performCleanup_def case_prod_beta Let_def grows_intros del: start_with_frame
      split: option.split)

lemma uploadBackup_grows:
  assumes "uploader_ok (ex_uploader e)" and "world_grows u w"
  shows "world_grows u (snd (uploadBackup E e lg w))"
proof -
  have up: "world_grows u v \<Longrightarrow>
      world_grows u (snd (upl_Upload (ex_uploader e) (ex_sourceFolder e) lg (ex_processManager e) v))" for v
    using assms(1) by (auto simp: uploader_ok_def intro: uploader_contract.upload_after)
  show ?thesis
    by (simp add: uploadBackup_def case_prod_beta up grows_intros assms(2) del: time_Now_frame
        split: res.split size_result.split)
qed

lemma run_backup_grows:
  assumes "uploader_ok (ex_uploader e)" and "world_grows u w"
  shows "world_grows u (snd (run_backup E e lg i w))"
  by (simp add: run_backup_def case_prod_beta performBackup_grows performCleanup_grows
      uploadBackup_grows [OF assms(1)] assms(2) split: res.split)

lemma Execute_grows:
  assumes "uploader_ok (ex_uploader e)"
  shows "world_grows w (snd (snd (Execute E g e w)))"
proof -
  have "ex_uploader (snd (backupCanBeStarted e)) = ex_uploader e"
    by (simp add: backupCanBeStarted_def)
  then show ?thesis
    using assms
    by (simp add: Execute_def case_prod_beta Let_def grows_intros identifyService_grows run_backup_grows
        split: bool.split)
qed

section \<open>The contract of an executor\<close>

text \<open>
  What the callers of the interface \<open>Executor\<close> rely on: an invariant of the implementation's
  state is kept, every error has the type \<open>ServiceInstanceError\<close>, and the histories of the
  world grow.
\<close>

locale executor_contract =
  fixes execute :: "('s, 'x) execute_fn" and inv :: "'s \<Rightarrow> bool"
  assumes inv_execute: "inv s \<Longrightarrow> inv (fst (snd (execute g s w)))"
    and error_typed: "fst (execute g s w) = Done (Some err) \<Longrightarrow> \<exists>m i. err = ServiceInstanceError m i"
    and execute_grows: "inv s \<Longrightarrow> world_grows w (snd (snd (execute g s w)))"
begin

text \<open>A sequence of runs, one after the other.\<close>

lemma runs_grow:
  "inv s \<Longrightarrow> world_grows w (snd (foldl (\<lambda>(s, w) g. snd (execute g s w)) (s, w) gs))"
proof (induction gs arbitrary: s w)
  case (Cons g gs)
  have "world_grows w (snd (snd (execute g s w)))" using Cons.prems by (rule execute_grows)
  moreover have "world_grows (snd (snd (execute g s w)))
      (snd (foldl (\<lambda>(s, w) g. snd (execute g s w)) (snd (execute g s w)) gs))"
    using Cons.IH [of "fst (snd (execute g s w))" "snd (snd (execute g s w))"] inv_execute [OF Cons.prems]
    by simp
  ultimately show ?case by (auto intro: world_grows_trans)
qed simp

end

lemma Execute_state:
  "fst (snd (Execute E g e w)) =
     (if ex_backupInProgress e \<and> ex_exitIfBackupInProgress e then e else e\<lparr>ex_backupInProgress := False\<rparr>)"
  by (simp add: Execute_def case_prod_beta Let_def backupCanBeStarted_def doneBackup_def)

lemma run_backup_error:
  "fst (run_backup E e lg i w) = Done (Some err) \<Longrightarrow> \<exists>m. err = ServiceInstanceError m i"
  by (auto simp: run_backup_def case_prod_beta split: res.splits)

lemma Execute_error:
  "fst (Execute E g e w) = Done (Some err) \<Longrightarrow>
     \<exists>m. err = ServiceInstanceError m (fst (identifyService E e (session_logger e g) w))"
  by (auto simp: Execute_def case_prod_beta Let_def dest: run_backup_error split: bool.splits)

interpretation dummy: executor_contract Dummy_Execute "\<lambda>d. True"
  by unfold_locales (auto simp: Dummy_Execute_def intro: grows_intros)

interpretation backup: executor_contract "Execute E" "\<lambda>e. uploader_ok (ex_uploader e)" for E
  by unfold_locales (auto simp: Execute_state intro: Execute_grows dest: Execute_error)

section \<open>The order of the commands\<close>

text \<open>The command a configured line of text stands for, none when it is empty.\<close>

definition cmd_of :: "string \<Rightarrow> cmd list" where
  "cmd_of s = (if s = [] then [] else [exec_Command (fst (split_cmd s)) (snd (split_cmd s))])"

lemma performBackup_cmds: "w_cmds (snd (performBackup e lg w)) = w_cmds w @ cmd_of (ex_backupCreatorCmd e)"
  by (simp add: performBackup_def case_prod_beta Let_def cmd_of_def split: option.split)

lemma performCleanup_cmds: "w_cmds (snd (performCleanup e lg w)) = w_cmds w @ cmd_of (ex_cleanupCmd e)"
  by (simp add: performCleanup_def case_prod_beta Let_def cmd_of_def split: option.split)

lemma performBackup_no_panic: "fst (performBackup e lg w) \<noteq> Panic m"
  by (simp add: performBackup_def case_prod_beta Let_def split: option.split)

lemma performCleanup_no_panic: "fst (performCleanup e lg w) \<noteq> Panic m"
  by (simp add: performCleanup_def case_prod_beta Let_def split: option.split)

lemma run_backup_Done:
  assumes "run_backup E e lg i w = (Done None, w')"
  shows "fst (performBackup e lg w) = Ok ()" "fst (uploadBackup E e lg (snd (performBackup e lg w))) = Ok ()"
    "w' = snd (performCleanup e lg (snd (uploadBackup E e lg (snd (performBackup e lg w)))))"
  using assms by (auto simp: run_backup_def split: prod.splits res.splits)

text \<open>The parts of a successful run.\<close>

lemma Execute_uploaded:
  assumes "Execute E g e w = (Done None, e', w')"
  shows "\<exists>i w1 lg w2. identifyService E e (session_logger e g) w = (i, w1)
    \<and> lg = identified_logger (session_logger e g) i
    \<and> w2 = snd (performBackup (e\<lparr>ex_backupInProgress := True\<rparr>) lg w1)
    \<and> fst (performBackup (e\<lparr>ex_backupInProgress := True\<rparr>) lg w1) = Ok ()
    \<and> fst (uploadBackup E (e\<lparr>ex_backupInProgress := True\<rparr>) lg w2) = Ok ()
    \<and> w' = snd (performCleanup (e\<lparr>ex_backupInProgress := True\<rparr>) lg
             (snd (uploadBackup E (e\<lparr>ex_backupInProgress := True\<rparr>) lg w2)))"
proof -
  obtain i w1 where i: "identifyService E e (session_logger e g) w = (i, w1)" by fastforce
  have "run_backup E (e\<lparr>ex_backupInProgress := True\<rparr>) (identified_logger (session_logger e g) i) i w1
      = (Done None, w')"
    using assms by (auto simp: Execute_def i backupCanBeStarted_def Let_def split: if_splits prod.splits)
  from run_backup_Done [OF this] i show ?thesis by blast
qed

lemma uploadBackup_Ok:
  assumes "fst (uploadBackup E e lg w) = Ok ()"
  shows "fst (upl_Upload (ex_uploader e) (ex_sourceFolder e) lg (ex_processManager e)
      (snd (time_Now E (log_info lg ''Upload backup started'' [] w)))) = Ok ()"
    and "w_ext (snd (uploadBackup E e lg w)) = w_ext (snd (upl_Upload (ex_uploader e) (ex_sourceFolder e) lg
      (ex_processManager e) (snd (time_Now E (log_info lg ''Upload backup started'' [] w)))))"
    and "w_cmds (snd (uploadBackup E e lg w)) = w_cmds (snd (upl_Upload (ex_uploader e) (ex_sourceFolder e) lg
      (ex_processManager e) (snd (time_Now E (log_info lg ''Upload backup started'' [] w)))))"
proof -
  let ?w1 = "snd (time_Now E (log_info lg ''Upload backup started'' [] w))"
  let ?up = "upl_Upload (ex_uploader e) (ex_sourceFolder e) lg (ex_processManager e) ?w1"
  have "fst ?up = Ok () \<and> w_ext (snd (uploadBackup E e lg w)) = w_ext (snd ?up)
      \<and> w_cmds (snd (uploadBackup E e lg w)) = w_cmds (snd ?up)"
    using assms by (auto simp: uploadBackup_def case_prod_beta split: res.splits size_result.splits)
  then show "fst ?up = Ok ()" "w_ext (snd (uploadBackup E e lg w)) = w_ext (snd ?up)"
    "w_cmds (snd (uploadBackup E e lg w)) = w_cmds (snd ?up)" by auto
qed

text \<open>The command that identifies the service: none when it is not configured or not found.\<close>

definition identifier_cmds :: "'x env \<Rightarrow> 'x executor \<Rightarrow> cmd list" where
  "identifier_cmds E e =
     (let (name, args) = split_cmd (ex_serviceIdentifierCmd e) in
      if ex_serviceIdentifierCmd e = [] \<or> e_stat E name \<noteq> None then [] else [ex_execCommand e name args])"

lemma identifyService_launches:
  "w_cmds (snd (identifyService E e lg w)) = w_cmds w @ identifier_cmds E e"
  by (auto simp: identifyService_def identifier_cmds_def case_prod_beta Let_def split: option.split)

section \<open>Properties\<close>

text \<open>C17: A successful run launches its commands in this order: the configured service identifier,
  if there is one and its executable exists; the backup command; the commands of one upload
  of the source folder, which succeeds and begins when exactly these commands have been
  launched; and the cleanup command last.  An empty configuration line launches nothing.\<close>

theorem Execute_command_order:
  assumes "uploader_ok (ex_uploader e)" and "Execute E g e w = (Done None, e', w')"
  shows "\<exists>lg v v'. upl_Upload (ex_uploader e) (ex_sourceFolder e) lg (ex_processManager e) v = (Ok (), v')
    \<and> w_cmds v = w_cmds w @ identifier_cmds E e @ cmd_of (ex_backupCreatorCmd e)
    \<and> prefix (w_cmds v) (w_cmds v') \<and> w_cmds w' = w_cmds v' @ cmd_of (ex_cleanupCmd e)"
proof -
  let ?e = "e\<lparr>ex_backupInProgress := True\<rparr>"
  obtain i w1 lg w2 where i: "identifyService E e (session_logger e g) w = (i, w1)"
    and w2: "w2 = snd (performBackup ?e lg w1)" and up: "fst (uploadBackup E ?e lg w2) = Ok ()"
    and w': "w' = snd (performCleanup ?e lg (snd (uploadBackup E ?e lg w2)))"
    using Execute_uploaded [OF assms(2)] by blast
  let ?v = "snd (time_Now E (log_info lg ''Upload backup started'' [] w2))"
  let ?up = "upl_Upload (ex_uploader ?e) (ex_sourceFolder ?e) lg (ex_processManager ?e) ?v"
  have "w_cmds w1 = w_cmds w @ identifier_cmds E e"
    using identifyService_launches [of E e "session_logger e g" w] by (simp add: i)
  then have "w_cmds ?v = w_cmds w @ identifier_cmds E e @ cmd_of (ex_backupCreatorCmd e)"
    by (simp add: w2 performBackup_cmds)
  moreover have "w_cmds w' = w_cmds (snd ?up) @ cmd_of (ex_cleanupCmd e)"
    by (simp add: w' performCleanup_cmds uploadBackup_Ok(3) [OF up])
  moreover have "prefix (w_cmds ?v) (w_cmds (snd ?up))"
    using uploader_contract.upload_cmds_prefix [of "upl_Upload (ex_uploader e)" ?v] assms(1)
    by (simp add: uploader_ok_def del: time_Now_frame)
  moreover have "?up = (Ok (), snd ?up)" using uploadBackup_Ok(1) [OF up] by (metis prod.collapse)
  ultimately show ?thesis
    by (intro exI [of _ lg] exI [of _ ?v] exI [of _ "snd ?up"]) simp
qed

definition quiet_uploader :: "'x uploader" where
  "quiet_uploader = \<lparr>upl_Upload = \<lambda>l lg pm w. (Ok (), log_info lg ''uploaded'' [] w), upl_Name = ''quiet''\<rparr>"

lemma quiet_uploader_ok: "uploader_ok quiet_uploader"
  unfolding uploader_ok_def quiet_uploader_def
  by unfold_locales (auto intro: grows_intros)

definition sample_executor :: "'x executor" where
  "sample_executor = NewExecutor (still_env sample_tree) quiet_uploader ''/var/db'' ''/bin/dump --all'' ''/bin/clean'' []
     True root_logger (\<lambda>c x. (([], None), x)) []"

lemma sample_identified_run:
  "fst (Execute (still_env sample_tree) ''guid'' (sample_executor\<lparr>ex_serviceIdentifierCmd := c\<rparr>) (start_world ())) = Done None"
proof -
  have "calculateDirSize (still_env sample_tree :: unit env) ''/var/db'' = Size (sum_list (tree_sizes sample_tree)) None"
    by (subst calculateDirSize_clean) (simp_all add: sample_tree_ok)
  then show ?thesis
    by (simp add: Execute_def sample_executor_def NewExecutor_def backupCanBeStarted_def
        run_backup_def performBackup_def performCleanup_def uploadBackup_def start_with_def time_Now_def
        quiet_uploader_def case_prod_beta Let_def)
qed

text \<open>With an identifier: its command, the backup and the cleanup, and nothing else.\<close>

theorem Execute_command_order_witness:
  "w_cmds (snd (snd (Execute (still_env sample_tree) ''guid'' (sample_executor\<lparr>ex_serviceIdentifierCmd := ''/bin/who -i''\<rparr>)
     (start_world ()))))
   = [exec_Command ''/bin/who'' [''-i''], exec_Command ''/bin/dump'' [''--all''], exec_Command ''/bin/clean'' []]"
proof -
  let ?e = "sample_executor\<lparr>ex_serviceIdentifierCmd := ''/bin/who -i''\<rparr>"
  let ?x = "Execute (still_env sample_tree) ''guid'' ?e (start_world ())"
  have 1: "?x = (Done None, fst (snd ?x), snd (snd ?x))" by (metis prod.collapse sample_identified_run)
  have 2: "uploader_ok (ex_uploader ?e)"
    by (simp add: sample_executor_def NewExecutor_def quiet_uploader_ok)
  from Execute_command_order [OF 2 1] show ?thesis
    by (auto simp: identifier_cmds_def cmd_of_def split_cmd_def sample_executor_def NewExecutor_def quiet_uploader_def)
qed

lemma cleanup_frame:
  "performBackup (e\<lparr>ex_cleanupCmd := c\<rparr>) lg w = performBackup e lg w"
  "uploadBackup E (e\<lparr>ex_cleanupCmd := c\<rparr>) lg w = uploadBackup E e lg w"
  "identifyService E (e\<lparr>ex_cleanupCmd := c\<rparr>) lg w = identifyService E e lg w"
  "session_logger (e\<lparr>ex_cleanupCmd := c\<rparr>) g = session_logger e g"
  "performBackup (e\<lparr>ex_uploader := u, ex_dirSize := d\<rparr>) lg w = performBackup e lg w"
  by (simp_all add: performBackup_def uploadBackup_def identifyService_def session_logger_def case_prod_beta
      split: res.split option.split)

text \<open>C18: A failed step stops the run: when making the backup fails the result and the world do not
  depend on the uploader, the directory size or the cleanup command, and when the upload
  fails they do not depend on the cleanup command, so a failed backup is never uploaded and
  what was not uploaded is never cleaned up.\<close>

theorem run_backup_stops_at_failure:
  "(fst (performBackup e lg w) \<noteq> Ok () \<longrightarrow>
      run_backup E (e\<lparr>ex_uploader := u, ex_dirSize := d, ex_cleanupCmd := c\<rparr>) lg i w = run_backup E e lg i w)
   \<and> (fst (uploadBackup E e lg (snd (performBackup e lg w))) \<noteq> Ok () \<longrightarrow>
      run_backup E (e\<lparr>ex_cleanupCmd := c\<rparr>) lg i w = run_backup E e lg i w)"
  by (simp add: run_backup_def case_prod_beta cleanup_frame split: res.split)

theorem run_backup_stops_at_failure_witness:
  "run_backup (still_env sample_tree) (sample_executor
        \<lparr>ex_processManager := \<lambda>c x. (([], Some ''exit status 1''), x), ex_uploader := quiet_uploader,
         ex_dirSize := \<lambda>p. Size 0 None, ex_cleanupCmd := ''/bin/other''\<rparr>) root_logger ''id'' (start_world ())
   = run_backup (still_env sample_tree) (sample_executor
        \<lparr>ex_processManager := \<lambda>c x. (([], Some ''exit status 1''), x)\<rparr>) root_logger ''id'' (start_world ())"
  using run_backup_stops_at_failure [where lg = root_logger and w = "start_world ()" and i = "''id''"
      and e = "sample_executor\<lparr>ex_processManager := \<lambda>c x. (([], Some ''exit status 1''), x)\<rparr>"
      and E = "still_env sample_tree" and u = quiet_uploader and d = "\<lambda>p. Size 0 None" and c = "''/bin/other''"]
  by (simp add: performBackup_def sample_executor_def NewExecutor_def case_prod_beta Let_def)

text \<open>The result of a run does not depend on the cleanup: with any other cleanup command, failing or
  not, \<open>Execute\<close> returns the same.\<close>

lemma Execute_ignores_cleanup:
  "fst (Execute E g (e\<lparr>ex_cleanupCmd := c\<rparr>) w) = fst (Execute E g e w)"
proof -
  have run: "fst (run_backup E (f\<lparr>ex_cleanupCmd := c\<rparr>) lg i v) = fst (run_backup E f lg i v)" for f lg i v
    by (simp add: run_backup_def case_prod_beta cleanup_frame performCleanup_no_panic split: res.split)
  have can: "backupCanBeStarted (e\<lparr>ex_cleanupCmd := c\<rparr>) =
      (fst (backupCanBeStarted e), (snd (backupCanBeStarted e))\<lparr>ex_cleanupCmd := c\<rparr>)"
    by (simp add: backupCanBeStarted_def)
  show ?thesis
    by (simp add: Execute_def case_prod_beta Let_def cleanup_frame can run split: bool.split)
qed

text \<open>The flag that says a backup is in progress is reset on every way out of a run that was not
  refused, a panic included; a refused run changes nothing of the executor; and no run
  changes any other field.\<close>

lemma Execute_resets_flag:
  "fst (snd (Execute E g e w)) =
     (if ex_backupInProgress e \<and> ex_exitIfBackupInProgress e then e else e\<lparr>ex_backupInProgress := False\<rparr>)"
  by (rule Execute_state)

text \<open>C27: The reported size is the sum of the sizes of the files below the folder: when the tree can be
  read, \<open>calculateDirSize\<close> returns no error and a 64-bit number that, read as \<open>int64\<close>, is the
  exact sum as long as it is below \<open>2^63\<close>.\<close>

theorem calculateDirSize_sum:
  assumes "e_stat E p = None" and "wf_tree (e_lstat E p)" and "clean_tree (e_lstat E p)"
    and "sum_list (map unat (tree_sizes (e_lstat E p))) < 2 ^ 63"
  shows "\<exists>z. calculateDirSize E p = Size z None
    \<and> sint z = int (sum_list (map unat (tree_sizes (e_lstat E p))))"
proof -
  let ?ws = "tree_sizes (e_lstat E p)"
  have u: "unat (sum_list ?ws) = sum_list (map unat ?ws)"
    using assms(4) by (intro unat_sum_list) simp
  then have "sint (sum_list ?ws) = int (sum_list (map unat ?ws))"
    using assms(4) by (simp add: sint_of_small)
  with calculateDirSize_clean [OF assms(1-3)] show ?thesis by blast
qed

theorem calculateDirSize_sum_witness:
  "\<exists>z. calculateDirSize (still_env sample_tree :: unit env) ''/var/db'' = Size z None \<and> sint z = 7"
  using calculateDirSize_sum [of "still_env sample_tree :: unit env" "''/var/db''"]
  by (simp add: sample_tree_ok) (simp add: sample_tree_def)

text \<open>C28: A file that vanishes between the listing of its directory and its \<open>Lstat\<close> makes
  \<open>calculateDirSize\<close> dereference a nil \<open>FileInfo\<close>: when everything else can be read it panics,
  and with it the run whose upload has already succeeded.\<close>

theorem calculateDirSize_vanished_panics:
  assumes "e_stat E p = None" and "wf_tree (e_lstat E p)" and "\<not> no_gone (e_lstat E p)"
    and "list_all (\<lambda>(ns, d, err). d = None \<or> err = None) (name_visits (e_lstat E p))"
  shows "\<exists>m. calculateDirSize E p = SizePanic m"
proof -
  have "\<exists>m. fst (each_until (at_visit dirSize_callback) vs s) = Panic m"
    if "list_all (\<lambda>(q, d, err). d = None \<or> err = None) vs" "\<exists>(q, d, err) \<in> set vs. d = None" for vs s
    using that
  proof (induction vs arbitrary: s)
    case (Cons v vs)
    obtain q d err where v: "v = (q, d, err)" by (cases v) auto
    show ?case
    proof (cases d)
      case None
      then show ?thesis by (simp add: v at_visit_def dirSize_callback_def)
    next
      case (Some i)
      with Cons.prems have "err = None" "\<exists>(q, d, err) \<in> set vs. d = None" by (auto simp: v)
      with Cons show ?thesis by (simp add: v Some at_visit_def dirSize_callback_def)
    qed
  qed simp
  moreover have "list_all (\<lambda>(q, d, err). d = None \<or> err = None) (visits p (e_lstat E p))"
    using assms(4) unfolding visits_name_visits(1) [OF assms(2)] by (fastforce simp: list_all_iff)
  moreover have "\<exists>(q, d, err) \<in> set (visits p (e_lstat E p)). d = None"
  proof -
    from assms(3) obtain ns err where "(ns, None, err) \<in> set (name_visits (e_lstat E p))"
      by (auto simp: no_gone_def)
    then have "(entry_path p ns, None, err) \<in> set (visits p (e_lstat E p))"
      by (force simp: visits_name_visits(1) [OF assms(2)])
    then show ?thesis by blast
  qed
  ultimately obtain m where "fst (each_until (at_visit dirSize_callback) (visits p (e_lstat E p)) 0) = Panic m"
    by blast
  then show ?thesis
    by (auto simp: calculateDirSize_def assms(1) filepath_Walk_visits split: prod.splits)
qed

theorem calculateDirSize_vanished_panics_witness:
  "\<exists>m. calculateDirSize (still_env (FDir [(''a'', FFile 3), (''b'', FGone ''no such file'')]) :: unit env) ''/var/db''
     = SizePanic m"
  by (rule calculateDirSize_vanished_panics) (simp_all add: valid_name_def no_gone_def)

end
