(* ===== verification/Executor_Threads.thy ===== *)
theory Executor_Threads
  imports Executor
begin

text \<open>
  Concurrent calls of \<open>Execute\<close> on one executor (the cron scheduler starts every job in a
  goroutine of its own): the two critical sections of \<open>src/executor/executor.go\<close> lines
  85--100 with the mutex they lock, and the deferred \<open>doneBackup\<close>, interleaved step by
  step.  The steps use \<open>backupCanBeStarted\<close> and \<open>doneBackup\<close> of the sequential model.  What a
  call does between its two critical sections is one step, which only the calls in a
  parameter \<open>ends\<close> have: the others stay in it for ever.
\<close>

section \<open>The calls and their steps\<close>

text \<open>Where a call of \<open>Execute\<close> is.\<close>

datatype call_pc =
    XIdle          \<comment> \<open>not called yet, or still identifying the service\<close>
  | XStart         \<comment> \<open>the service is identified, before \<open>Lock\<close> in \<open>backupCanBeStarted\<close>\<close>
  | XCheck         \<comment> \<open>holds the lock, before the test\<close>
  | XUnlock bool   \<comment> \<open>the result is known, before the deferred \<open>Unlock\<close>\<close>
  | XRefused       \<comment> \<open>returned the error that a backup is in progress\<close>
  | XRunning       \<comment> \<open>in \<open>performBackup\<close>, \<open>uploadBackup\<close> or \<open>performCleanup\<close>\<close>
  | XFinish        \<comment> \<open>leaving, before \<open>Lock\<close> in the deferred \<open>doneBackup\<close>\<close>
  | XReset         \<comment> \<open>holds the lock, before the flag is reset\<close>
  | XRelease       \<comment> \<open>the flag is reset, before the deferred \<open>Unlock\<close>\<close>
  | XDone          \<comment> \<open>returned\<close>

record 'x exec_state =
  xs_calls :: "nat \<Rightarrow> call_pc"
  xs_lock :: "nat option"
  xs_exec :: "'x executor"

definition exec_init :: "'x exec_state \<Rightarrow> bool" where
  "exec_init s = (xs_calls s = (\<lambda>i. XIdle) \<and> xs_lock s = None \<and> \<not> ex_backupInProgress (xs_exec s))"

text \<open>
  The body of a call (\<open>performBackup\<close>, \<open>uploadBackup\<close>, \<open>performCleanup\<close>) holds no lock of the
  executor and is one step, \<open>finish\<close>.  A body may block for ever, in a command or in \<open>Start\<close> of
  the process manager (\<open>shutdown_branch_leaks_lock\<close>): the step exists only for the calls in
  \<open>ends\<close>, an arbitrary predicate.
\<close>

inductive exec_step :: "(nat \<Rightarrow> bool) \<Rightarrow> 'x exec_state \<Rightarrow> 'x exec_state \<Rightarrow> bool"
  for ends :: "nat \<Rightarrow> bool"
where
  call: "xs_calls s i = XIdle \<Longrightarrow> exec_step ends s (s\<lparr>xs_calls := (xs_calls s)(i := XStart)\<rparr>)"
| lock: "xs_calls s i = XStart \<Longrightarrow> xs_lock s = None \<Longrightarrow>
    exec_step ends s (s\<lparr>xs_calls := (xs_calls s)(i := XCheck), xs_lock := Some i\<rparr>)"
| check: "xs_calls s i = XCheck \<Longrightarrow> backupCanBeStarted (xs_exec s) = (b, e) \<Longrightarrow>
    exec_step ends s (s\<lparr>xs_calls := (xs_calls s)(i := XUnlock b), xs_exec := e\<rparr>)"
| unlock: "xs_calls s i = XUnlock b \<Longrightarrow>
    exec_step ends s (s\<lparr>xs_calls := (xs_calls s)(i := if b then XRunning else XRefused), xs_lock := None\<rparr>)"
| finish: "xs_calls s i = XRunning \<Longrightarrow> ends i \<Longrightarrow> exec_step ends s (s\<lparr>xs_calls := (xs_calls s)(i := XFinish)\<rparr>)"
| lock_done: "xs_calls s i = XFinish \<Longrightarrow> xs_lock s = None \<Longrightarrow>
    exec_step ends s (s\<lparr>xs_calls := (xs_calls s)(i := XReset), xs_lock := Some i\<rparr>)"
| reset: "xs_calls s i = XReset \<Longrightarrow>
    exec_step ends s (s\<lparr>xs_calls := (xs_calls s)(i := XRelease), xs_exec := doneBackup (xs_exec s)\<rparr>)"
| release: "xs_calls s i = XRelease \<Longrightarrow>
    exec_step ends s (s\<lparr>xs_calls := (xs_calls s)(i := XDone), xs_lock := None\<rparr>)"

inductive_cases exec_stepE: "exec_step ends s t"

section \<open>Invariants\<close>

fun holds_lock :: "call_pc \<Rightarrow> bool" where
  "holds_lock XCheck = True"
| "holds_lock (XUnlock b) = True"
| "holds_lock XReset = True"
| "holds_lock XRelease = True"
| "holds_lock pc = False"

text \<open>The calls between setting and resetting the flag.\<close>

fun active :: "call_pc \<Rightarrow> bool" where
  "active (XUnlock b) = b"
| "active XRunning = True"
| "active XFinish = True"
| "active XReset = True"
| "active pc = False"

definition lock_inv :: "'x exec_state \<Rightarrow> bool" where
  "lock_inv s = (\<forall>i. holds_lock (xs_calls s i) \<longleftrightarrow> xs_lock s = Some i)"

definition flag_inv :: "'x exec_state \<Rightarrow> bool" where
  "flag_inv s = (ex_exitIfBackupInProgress (xs_exec s) \<longrightarrow>
     (\<forall>i j. active (xs_calls s i) \<and> active (xs_calls s j) \<longrightarrow> i = j)
     \<and> (ex_backupInProgress (xs_exec s) \<longleftrightarrow> (\<exists>i. active (xs_calls s i))))"

lemma lock_inv_step: "lock_inv s \<Longrightarrow> exec_step ends s t \<Longrightarrow> lock_inv t"
  by (erule exec_stepE) (force simp: lock_inv_def)+

lemma flag_inv_same:
  "flag_inv s \<Longrightarrow> xs_exec t = xs_exec s \<Longrightarrow> (\<And>k. active (xs_calls t k) = active (xs_calls s k)) \<Longrightarrow> flag_inv t"
  by (simp add: flag_inv_def)

lemma flag_inv_step:
  assumes "flag_inv s" and "exec_step ends s t"
  shows "flag_inv t"
  using assms(2)
proof (cases rule: exec_step.cases)
  case (check i b e)
  show ?thesis
  proof (cases b)
    case False
    with check have "xs_exec t = xs_exec s" "active (xs_calls t k) = active (xs_calls s k)" for k
      by (auto simp: backupCanBeStarted_def split: if_splits)
    with assms(1) show ?thesis by (rule flag_inv_same)
  next
    case True
    with check have e: "xs_exec t = (xs_exec s)\<lparr>ex_backupInProgress := True\<rparr>"
      and free: "\<not> (ex_backupInProgress (xs_exec s) \<and> ex_exitIfBackupInProgress (xs_exec s))"
      by (auto simp: backupCanBeStarted_def split: if_splits)
    have "active (xs_calls t k) \<longleftrightarrow> k = i" if "ex_exitIfBackupInProgress (xs_exec s)" for k
      using that free assms(1) check True by (auto simp: flag_inv_def)
    with e show ?thesis by (auto simp: flag_inv_def)
  qed
next
  case (reset i)
  have "\<not> active (xs_calls t k)" if "ex_exitIfBackupInProgress (xs_exec s)" for k
  proof
    assume k: "active (xs_calls t k)"
    with reset have "k \<noteq> i" "active (xs_calls s k)" by (auto split: if_splits)
    moreover have "active (xs_calls s i)" using reset by simp
    ultimately show False using assms(1) that by (auto simp: flag_inv_def)
  qed
  with reset show ?thesis by (auto simp: flag_inv_def doneBackup_def)
qed (rule flag_inv_same [OF assms(1)]; simp)+

definition exec_inv :: "'x exec_state \<Rightarrow> bool" where
  "exec_inv s = (lock_inv s \<and> flag_inv s)"

interpretation threads: inductive_invariant exec_init "exec_step ends" exec_inv for ends
proof
  show "exec_init s \<Longrightarrow> exec_inv s" for s :: "'x exec_state"
    by (simp add: exec_init_def exec_inv_def lock_inv_def flag_inv_def)
  show "exec_inv s \<Longrightarrow> exec_step ends s t \<Longrightarrow> exec_inv t" for s t :: "'x exec_state"
    by (auto simp: exec_inv_def intro: lock_inv_step flag_inv_step)
qed

text \<open>The configuration of the executor never changes.\<close>

lemma exec_step_config:
  "exec_step ends s t \<Longrightarrow> ex_exitIfBackupInProgress (xs_exec t) = ex_exitIfBackupInProgress (xs_exec s)"
  by (erule exec_stepE) (auto simp: backupCanBeStarted_def doneBackup_def split: if_splits)

definition no_refusal :: "'x exec_state \<Rightarrow> bool" where
  "no_refusal s = (ex_exitIfBackupInProgress (xs_exec s)
     \<or> (\<forall>i. xs_calls s i \<noteq> XRefused \<and> xs_calls s i \<noteq> XUnlock False))"

interpretation permissive: inductive_invariant exec_init "exec_step ends" no_refusal for ends
proof
  show "exec_init s \<Longrightarrow> no_refusal s" for s :: "'x exec_state"
    by (simp add: exec_init_def no_refusal_def)
  show "no_refusal s \<Longrightarrow> exec_step ends s t \<Longrightarrow> no_refusal t" for s t :: "'x exec_state"
    by (erule exec_stepE)
      (auto simp: no_refusal_def backupCanBeStarted_def doneBackup_def split: if_splits)
qed

section \<open>Progress\<close>

text \<open>The lock can always be released again without a step of any call but its owner.\<close>

lemma release_lock:
  assumes "lock_inv s"
  shows "\<exists>t. steps (exec_step ends) s t \<and> lock_inv t \<and> xs_lock t = None
    \<and> (\<forall>k. \<not> holds_lock (xs_calls s k) \<longrightarrow> xs_calls t k = xs_calls s k)"
proof (cases "xs_lock s")
  case (Some i)
  have unlocks: "\<exists>t. exec_step ends u t \<and> xs_lock t = None \<and> (\<forall>k. k \<noteq> i \<longrightarrow> xs_calls t k = xs_calls u k)"
    if "xs_calls u i = XUnlock b \<or> xs_calls u i = XRelease" for u :: "'x exec_state" and b
    using that
  proof
    assume "xs_calls u i = XUnlock b"
    from exec_step.unlock [OF this] show ?thesis by - (rule exI, rule conjI, assumption, simp)
  next
    assume "xs_calls u i = XRelease"
    from exec_step.release [OF this] show ?thesis by - (rule exI, rule conjI, assumption, simp)
  qed
  have pre: "\<exists>u. steps (exec_step ends) s u \<and> (\<exists>b. xs_calls u i = XUnlock b \<or> xs_calls u i = XRelease)
      \<and> (\<forall>k. k \<noteq> i \<longrightarrow> xs_calls u k = xs_calls s k)"
  proof (cases "xs_calls s i")
    case XCheck
    obtain b e where "backupCanBeStarted (xs_exec s) = (b, e)" by fastforce
    from exec_step.check [OF XCheck this] show ?thesis
      by (intro exI [of _ "s\<lparr>xs_calls := (xs_calls s)(i := XUnlock b), xs_exec := e\<rparr>"]) auto
  next
    case XReset
    from exec_step.reset [OF XReset] show ?thesis
      by (intro exI [of _ "s\<lparr>xs_calls := (xs_calls s)(i := XRelease), xs_exec := doneBackup (xs_exec s)\<rparr>"]) auto
  next
    case (XUnlock b)
    then show ?thesis by (intro exI [of _ s]) auto
  next
    case XRelease
    then show ?thesis by (intro exI [of _ s]) auto
  qed (use assms Some in \<open>auto simp: lock_inv_def dest: spec [of _ i]\<close>)
  then obtain u b where u: "steps (exec_step ends) s u" "xs_calls u i = XUnlock b \<or> xs_calls u i = XRelease"
    "\<forall>k. k \<noteq> i \<longrightarrow> xs_calls u k = xs_calls s k" by blast
  from unlocks [OF u(2)] obtain t where t: "exec_step ends u t" "xs_lock t = None"
    "\<forall>k. k \<noteq> i \<longrightarrow> xs_calls t k = xs_calls u k" by blast
  have st: "steps (exec_step ends) s t" using u(1) t(1) by auto
  then have "lock_inv t" by (rule steps_preserve) (use assms lock_inv_step in blast)+
  with st t u Some assms show ?thesis by (auto simp: lock_inv_def)
qed (use assms in auto)

text \<open>With the lock free a call can go on to its end.\<close>

lemma finish_call:
  assumes "xs_calls s i = XFinish" and "xs_lock s = None"
  shows "\<exists>t. steps (exec_step ends) s t \<and> xs_calls t i = XDone"
proof -
  let ?s1 = "s\<lparr>xs_calls := (xs_calls s)(i := XReset), xs_lock := Some i\<rparr>"
  let ?s2 = "?s1\<lparr>xs_calls := (xs_calls ?s1)(i := XRelease), xs_exec := doneBackup (xs_exec ?s1)\<rparr>"
  let ?s3 = "?s2\<lparr>xs_calls := (xs_calls ?s2)(i := XDone), xs_lock := None\<rparr>"
  have "exec_step ends s ?s1" using assms by (rule exec_step.lock_done)
  moreover have "exec_step ends ?s1 ?s2" by (rule exec_step.reset) simp
  moreover have "exec_step ends ?s2 ?s3" by (rule exec_step.release) simp
  ultimately have "steps (exec_step ends) s ?s3" by (meson converse_rtranclp_into_rtranclp rtranclp.rtrancl_refl)
  then show ?thesis by (intro exI [of _ ?s3]) simp
qed

lemma run_call:
  assumes "xs_calls s i = XRunning" and "xs_lock s = None" and "ends i"
  shows "\<exists>t. steps (exec_step ends) s t \<and> xs_calls t i = XDone"
proof -
  let ?s1 = "s\<lparr>xs_calls := (xs_calls s)(i := XFinish)\<rparr>"
  have "exec_step ends s ?s1" using assms(1,3) by (rule exec_step.finish)
  moreover obtain t where "steps (exec_step ends) ?s1 t" "xs_calls t i = XDone"
    using finish_call [of ?s1 i] assms(2) by auto
  ultimately show ?thesis by (meson converse_rtranclp_into_rtranclp)
qed

text \<open>The call has returned, or it is in a body that never ends.\<close>

definition returned_or_blocked :: "(nat \<Rightarrow> bool) \<Rightarrow> 'x exec_state \<Rightarrow> nat \<Rightarrow> bool" where
  "returned_or_blocked ends s i =
     (xs_calls s i = XDone \<or> xs_calls s i = XRefused \<or> xs_calls s i = XRunning \<and> \<not> ends i)"

lemma start_call:
  assumes "xs_calls s i = XStart" and "xs_lock s = None"
  shows "\<exists>t. steps (exec_step ends) s t \<and> returned_or_blocked ends t i"
proof -
  obtain b e where can: "backupCanBeStarted (xs_exec s) = (b, e)" by fastforce
  let ?s1 = "s\<lparr>xs_calls := (xs_calls s)(i := XCheck), xs_lock := Some i\<rparr>"
  let ?s2 = "?s1\<lparr>xs_calls := (xs_calls ?s1)(i := XUnlock b), xs_exec := e\<rparr>"
  let ?s3 = "?s2\<lparr>xs_calls := (xs_calls ?s2)(i := if b then XRunning else XRefused), xs_lock := None\<rparr>"
  have "exec_step ends s ?s1" using assms by (rule exec_step.lock)
  moreover have "exec_step ends ?s1 ?s2" by (rule exec_step.check) (simp_all add: can)
  moreover have "exec_step ends ?s2 ?s3" by (rule exec_step.unlock) simp
  ultimately have st: "steps (exec_step ends) s ?s3" by (meson converse_rtranclp_into_rtranclp rtranclp.rtrancl_refl)
  show ?thesis
  proof (cases "b \<and> ends i")
    case True
    then obtain t where t: "steps (exec_step ends) ?s3 t" "xs_calls t i = XDone"
      using run_call [of ?s3 i ends] by auto
    have "steps (exec_step ends) s t" by (rule rtranclp_trans [OF st t(1)])
    with t(2) show ?thesis unfolding returned_or_blocked_def by blast
  next
    case False
    with st show ?thesis by (intro exI [of _ ?s3]) (auto simp: returned_or_blocked_def)
  qed
qed

section \<open>A run of two calls\<close>

text \<open>The state in which call 0 runs and call 1 has been checked.\<close>

definition race_start :: "unit exec_state" where
  "race_start = \<lparr>xs_calls = \<lambda>i. XIdle, xs_lock = None, xs_exec = sample_executor\<rparr>"

definition race_running :: "unit exec_state" where
  "race_running = \<lparr>xs_calls = (\<lambda>i. XIdle)(0 := XRunning), xs_lock = None,
     xs_exec = sample_executor\<lparr>ex_backupInProgress := True\<rparr>\<rparr>"

lemma sample_executor_flags [simp]:
  "ex_exitIfBackupInProgress sample_executor" "\<not> ex_backupInProgress sample_executor"
  by (simp_all add: sample_executor_def NewExecutor_def)

lemma race_running_reach: "reach exec_init (exec_step ends) race_running"
proof -
  let ?s1 = "race_start\<lparr>xs_calls := (xs_calls race_start)(0 := XStart)\<rparr>"
  let ?s2 = "?s1\<lparr>xs_calls := (xs_calls ?s1)(0 := XCheck), xs_lock := Some 0\<rparr>"
  let ?s3 = "?s2\<lparr>xs_calls := (xs_calls ?s2)(0 := XUnlock True),
    xs_exec := (xs_exec ?s2)\<lparr>ex_backupInProgress := True\<rparr>\<rparr>"
  let ?s4 = "?s3\<lparr>xs_calls := (xs_calls ?s3)(0 := if True then XRunning else XRefused), xs_lock := None\<rparr>"
  have r0: "reach exec_init (exec_step ends) race_start"
    by (rule reach_init) (simp add: exec_init_def race_start_def)
  have r1: "reach exec_init (exec_step ends) ?s1"
    by (rule reach_step [OF r0], rule exec_step.call) (simp add: race_start_def)
  have r2: "reach exec_init (exec_step ends) ?s2"
    by (rule reach_step [OF r1], rule exec_step.lock) (simp_all add: race_start_def)
  have r3: "reach exec_init (exec_step ends) ?s3"
    by (rule reach_step [OF r2], rule exec_step.check) (simp_all add: race_start_def backupCanBeStarted_def)
  have "reach exec_init (exec_step ends) ?s4"
    by (rule reach_step [OF r3], rule exec_step.unlock) simp
  then show ?thesis by (simp add: race_start_def race_running_def)
qed

text \<open>Then call 1 begins and takes the lock.\<close>

definition race_checking :: "unit exec_state" where
  "race_checking = race_running\<lparr>xs_calls := (xs_calls race_running)(1 := XCheck), xs_lock := Some 1\<rparr>"

lemma race_checking_reach: "reach exec_init (exec_step ends) race_checking"
proof -
  let ?s1 = "race_running\<lparr>xs_calls := (xs_calls race_running)(1 := XStart)\<rparr>"
  let ?s2 = "?s1\<lparr>xs_calls := (xs_calls ?s1)(1 := XCheck), xs_lock := Some 1\<rparr>"
  have r1: "reach exec_init (exec_step ends) ?s1"
    by (rule reach_step [OF race_running_reach], rule exec_step.call) (simp add: race_running_def)
  have "reach exec_init (exec_step ends) ?s2"
    by (rule reach_step [OF r1], rule exec_step.lock) (simp_all add: race_running_def)
  then show ?thesis by (simp add: race_checking_def race_running_def)
qed

section \<open>Properties\<close>

text \<open>C4: Mutual exclusion: when the executor is configured to exit if a backup is in progress, at most
  one call is making, uploading or cleaning up a backup at any time, in every interleaving
  of any number of calls.\<close>

theorem one_backup_at_a_time:
  assumes "reach exec_init (exec_step ends) s" and "ex_exitIfBackupInProgress (xs_exec s)"
    and "xs_calls s i = XRunning" and "xs_calls s j = XRunning"
  shows "i = j"
  using threads.inv_reach [OF assms(1)] assms(2-4) by (auto simp: exec_inv_def flag_inv_def)

theorem one_backup_at_a_time_witness:
  "reach exec_init (exec_step (\<lambda>i. True)) race_running \<and> {i. xs_calls race_running i = XRunning} = {0}"
proof -
  have "ex_exitIfBackupInProgress (xs_exec race_running)" "xs_calls race_running 0 = XRunning"
    by (simp_all add: race_running_def)
  from one_backup_at_a_time [OF race_running_reach this] this race_running_reach show ?thesis by auto
qed

text \<open>C21: A call is refused only while another call is between setting and resetting the flag, so a
  refusal never comes from a backup that is over.\<close>

theorem refused_only_while_active:
  assumes "reach exec_init (exec_step ends) s" and "exec_step ends s t"
    and "xs_calls s i \<noteq> XUnlock False" and "xs_calls t i = XUnlock False"
  shows "\<exists>j. j \<noteq> i \<and> active (xs_calls s j)"
proof -
  have inv: "flag_inv s" using threads.inv_reach [OF assms(1)] by (simp add: exec_inv_def)
  from assms(2-4) have "xs_calls s i = XCheck" "ex_backupInProgress (xs_exec s)"
    "ex_exitIfBackupInProgress (xs_exec s)"
    by (auto elim!: exec_stepE simp: backupCanBeStarted_def split: if_splits)
  moreover from this inv obtain j where "active (xs_calls s j)" by (auto simp: flag_inv_def)
  ultimately show ?thesis by (metis active.simps(7))
qed

theorem refused_only_while_active_witness:
  "\<exists>j. j \<noteq> 1 \<and> active (xs_calls race_checking j)"
proof -
  have "exec_step (\<lambda>i. True) race_checking (race_checking\<lparr>xs_calls := (xs_calls race_checking)(1 := XUnlock False),
      xs_exec := xs_exec race_checking\<rparr>)"
    by (rule exec_step.check) (simp_all add: race_checking_def race_running_def backupCanBeStarted_def)
  from refused_only_while_active [OF race_checking_reach this, of 1] show ?thesis
    by (simp add: race_checking_def)
qed

text \<open>Without that configuration no call is ever refused.\<close>

lemma never_refused_if_permissive:
  assumes "reach exec_init (exec_step ends) s" and "\<not> ex_exitIfBackupInProgress (xs_exec s)"
  shows "xs_calls s i \<noteq> XRefused"
  using permissive.inv_reach [OF assms(1)] assms(2) by (auto simp: no_refusal_def)

text \<open>C22: The executor's mutex holds no call up for ever, whatever the bodies of the calls do: for any set
  of calls whose bodies (backup, upload and cleanup) end, from every reachable state a call
  that has identified its service can return, with its backup done or refused, unless it is
  itself in a body that does not end; in particular it can return when only its own body
  ends and the bodies of all other calls block.\<close>

theorem every_call_can_return:
  assumes "reach exec_init (exec_step ends) s" and "xs_calls s i \<noteq> XIdle"
  shows "\<exists>t. steps (exec_step ends) s t
    \<and> (xs_calls t i = XDone \<or> xs_calls t i = XRefused \<or> xs_calls t i = XRunning \<and> \<not> ends i)"
proof -
  have "lock_inv s" using threads.inv_reach [OF assms(1)] by (simp add: exec_inv_def)
  from release_lock [OF this, of ends] obtain t where t: "steps (exec_step ends) s t" "lock_inv t"
    "xs_lock t = None" "\<forall>k. \<not> holds_lock (xs_calls s k) \<longrightarrow> xs_calls t k = xs_calls s k" by blast
  have began: "xs_calls v i \<noteq> XIdle" if "xs_calls u i \<noteq> XIdle" "exec_step ends u v" for u v :: "'a exec_state"
    using that(2,1) by (cases rule: exec_step.cases) (auto split: if_splits)
  have "xs_calls t i \<noteq> XIdle" 
    by (rule steps_preserve [where P = "\<lambda>u. xs_calls u i \<noteq> XIdle", OF t(1) assms(2)]) (rule began)
  moreover have "\<not> holds_lock (xs_calls t i)" using t(2,3) by (simp add: lock_inv_def)
  moreover have "\<exists>v. steps (exec_step ends) t v \<and> returned_or_blocked ends v i" if "xs_calls t i = XRunning"
    using run_call [OF that t(3), of ends] that by (cases "ends i") (auto simp: returned_or_blocked_def)
  ultimately have "\<exists>v. steps (exec_step ends) t v \<and> returned_or_blocked ends v i"
    using start_call [OF _ t(3), of i ends] finish_call [OF _ t(3), of i ends]
    by (cases "xs_calls t i") (auto simp: returned_or_blocked_def)
  with t(1) show ?thesis unfolding returned_or_blocked_def by (meson rtranclp_trans)
qed

text \<open>Call 0 is in a body that never ends; call 1 returns all the same.\<close>

theorem every_call_can_return_witness:
  "xs_calls race_checking 0 = XRunning
   \<and> (\<exists>t. steps (exec_step (\<lambda>i. i = 1)) race_checking t \<and> (xs_calls t 1 = XDone \<or> xs_calls t 1 = XRefused))"
  using every_call_can_return [OF race_checking_reach, of 1 "\<lambda>i. i = 1"]
  by (auto simp: race_checking_def race_running_def)

end
