(* ===== verification/Scheduler.thy ===== *)
theory Scheduler
  imports Executor
begin

text \<open>
  The scheduler (\<open>src/scheduler/scheduler.go\<close>): the job that cron runs, which executes a
  backup and sends an alert when it fails, and the start of the schedule.  The cron parser
  and the alerts client are parameters; the executor is any implementation of the
  interface \<open>Executor\<close>.
\<close>

section \<open>The alerts client and cron as parameters\<close>

text \<open>\<open>SendServiceAlert(product, subject, serviceInstanceID, content)\<close>.\<close>

type_synonym 'x alerts_client =
  "string \<Rightarrow> string \<Rightarrow> string \<Rightarrow> string \<Rightarrow> 'x \<Rightarrow> gerror option \<times> 'x"

text \<open>The error with which \<open>AddFunc\<close> rejects a schedule.\<close>

type_synonym cron_parser = "string \<Rightarrow> gerror option"

section \<open>The job\<close>

definition alert_subject :: string where
  "alert_subject = ''Service Backup Failed''"

definition alert_content :: "exec_error \<Rightarrow> string" where
  "alert_content err = ''A backup run has failed with the following error: '' @ error_text err"

definition send_alert ::
  "backup_config \<Rightarrow> 'x alerts_client \<Rightarrow> logger \<Rightarrow> exec_error \<Rightarrow> 'x world \<Rightarrow> unit res \<times> 'x world" where
  "send_alert conf client lg backupErr w =
     (let w1 = log_info lg ''Sending alert.'' [] w in
      case bc_Alerts conf of
        None \<Rightarrow> (Panic ''nil pointer dereference'', w1)
      | Some al \<Rightarrow>
          (case backupErr of
             OtherError e \<Rightarrow> (Panic ''interface conversion'', w1)
           | ServiceInstanceError e serviceInstanceID \<Rightarrow>
               (case on_ext (client (al_ProductName al) alert_subject serviceInstanceID
                       (alert_content backupErr)) w1 of
                  (Some err, w2) \<Rightarrow> (Ok (), log_error lg ''error sending service alert'' err w2)
                | (None, w2) \<Rightarrow> (Ok (), log_info lg ''Sent alert.'' [] w2))))"

definition backup_job ::
  "('s, 'x) execute_fn \<Rightarrow> backup_config \<Rightarrow> 'x alerts_client option \<Rightarrow> logger \<Rightarrow> string \<Rightarrow> 's \<Rightarrow> 'x world
   \<Rightarrow> unit res \<times> 's \<times> 'x world" where
  "backup_job execute conf alertsClient lg guid s w =
     (case execute guid s w of
        (Panicked m, s1, w1) \<Rightarrow> (Panic m, s1, w1)
      | (Done None, s1, w1) \<Rightarrow> (Ok (), s1, w1)
      | (Done (Some backupErr), s1, w1) \<Rightarrow>
          (case alertsClient of
             None \<Rightarrow> (Ok (), s1, log_info lg ''Alerts not configured.'' [] w1)
           | Some client \<Rightarrow>
               (case send_alert conf client lg backupErr w1 of (r, w2) \<Rightarrow> (r, s1, w2))))"

section \<open>The schedule\<close>

record scheduler =
  sch_cronSchedule :: string
  sch_logger :: logger

text \<open>\<open>NewScheduler\<close>: the exit code or the scheduler.\<close>

definition NewScheduler ::
  "cron_parser \<Rightarrow> backup_config \<Rightarrow> logger \<Rightarrow> 'x world \<Rightarrow> (nat + scheduler) \<times> 'x world" where
  "NewScheduler cron conf lg w =
     (case cron (bc_CronSchedule conf) of
        Some err \<Rightarrow> (Inl 2, log_error lg ''Error scheduling job'' err w)
      | None \<Rightarrow> (Inr \<lparr>sch_cronSchedule = bc_CronSchedule conf, sch_logger = lg\<rparr>, w))"

text \<open>
  \<open>Run\<close>: the start line, then the jobs as cron triggers them, here one after the other,
  until a job panics and takes the process down.  (The runner waits for a signal that is
  never sent, so \<open>Run\<close> itself does not return.)
\<close>

fun run_jobs ::
  "(string \<Rightarrow> 's \<Rightarrow> 'x world \<Rightarrow> unit res \<times> 's \<times> 'x world) \<Rightarrow> string list \<Rightarrow> 's \<Rightarrow> 'x world
   \<Rightarrow> unit res \<times> 's \<times> 'x world" where
  "run_jobs job [] s w = (Ok (), s, w)"
| "run_jobs job (guid # guids) s w =
     (case job guid s w of
        (Ok _, s1, w1) \<Rightarrow> run_jobs job guids s1 w1
      | (Err e, s1, w1) \<Rightarrow> (Err e, s1, w1)
      | (Panic m, s1, w1) \<Rightarrow> (Panic m, s1, w1))"

definition Scheduler_Run ::
  "scheduler \<Rightarrow> (string \<Rightarrow> 's \<Rightarrow> 'x world \<Rightarrow> unit res \<times> 's \<times> 'x world) \<Rightarrow> string list \<Rightarrow> 's \<Rightarrow> 'x world
   \<Rightarrow> unit res \<times> 's \<times> 'x world" where
  "Scheduler_Run sch job guids s w =
     run_jobs job guids s (log_info (sch_logger sch) ''Service-backup Started'' [] w)"

section \<open>What the contract of the executor gives\<close>

text \<open>An alerts client is made only from the alerts section of the configuration.\<close>

definition alerts_wired :: "backup_config \<Rightarrow> 'x alerts_client option \<Rightarrow> bool" where
  "alerts_wired conf client = (client = None \<or> bc_Alerts conf \<noteq> None)"

lemma send_alert_grows: "world_grows u w \<Longrightarrow> world_grows u (snd (send_alert conf client lg err w))"
  by (simp add: send_alert_def case_prod_beta Let_def grows_intros split: option.split exec_error.split)

context executor_contract
begin

lemma job_panic:
  assumes "alerts_wired conf client" and "fst (backup_job execute conf client lg g s w) = Panic m"
  shows "fst (execute g s w) = Panicked m"
proof -
  obtain r s1 w1 where r: "execute g s w = (r, s1, w1)" by (metis prod_cases3)
  show ?thesis
  proof (cases r)
    case (Panicked n)
    with assms(2) r show ?thesis by (simp add: backup_job_def)
  next
    case (Done err)
    have "err = None \<or> (\<exists>e i. err = Some (ServiceInstanceError e i))"
      using error_typed [of g s w] r Done by (cases err) auto
    then show ?thesis
      using assms r Done
      by (auto simp: backup_job_def send_alert_def alerts_wired_def Let_def
          split: option.splits prod.splits)
  qed
qed

lemma job_inv: "inv s \<Longrightarrow> inv (fst (snd (backup_job execute conf client lg g s w)))"
  using inv_execute [of s g w]
  by (auto simp: backup_job_def split: prod.splits exec_result.splits option.splits)

lemma job_grows:
  assumes "inv s"
  shows "world_grows w (snd (snd (backup_job execute conf client lg g s w)))"
proof -
  have g: "world_grows w (snd (snd (execute g s w)))" using assms by (rule execute_grows)
  show ?thesis
    by (simp add: backup_job_def case_prod_beta g grows_intros send_alert_grows
        split: exec_result.split option.split)
qed

text \<open>
  Any number of jobs: they all run, or the run of the executor in one of them panicked, in
  a state that has every property the executor keeps.
\<close>

lemma jobs_outcome:
  assumes "alerts_wired conf client" and keeps: "\<And>g s w. J s \<Longrightarrow> J (fst (snd (execute g s w)))"
    and "J s"
  shows "fst (run_jobs (backup_job execute conf client lg) gs s w) = Ok ()
    \<or> (\<exists>m g s' w'. fst (run_jobs (backup_job execute conf client lg) gs s w) = Panic m \<and> g \<in> set gs \<and> J s'
          \<and> fst (execute g s' w') = Panicked m)"
  using assms(3)
proof (induction gs arbitrary: s w)
  case (Cons g gs)
  obtain r s1 w1 where job: "backup_job execute conf client lg g s w = (r, s1, w1)" by (metis prod_cases3)
  show ?case
  proof (cases r)
    case (Ok u)
    have "s1 = fst (snd (execute g s w))"
      using job by (auto simp: backup_job_def split: prod.splits exec_result.splits option.splits)
    then have "J s1" using keeps [OF Cons.prems] by simp
    from Cons.IH [OF this, of w1] Ok job show ?thesis by auto
  next
    case (Panic m)
    then have "fst (execute g s w) = Panicked m"
      by (intro job_panic [where lg = lg, OF assms(1)]) (simp add: job)
    with Panic job Cons.prems show ?thesis by auto
  next
    case (Err e)
    with job show ?thesis
      by (auto simp: backup_job_def send_alert_def Let_def
          split: prod.splits exec_result.splits option.splits exec_error.splits)
  qed
qed simp

end

section \<open>Properties\<close>

text \<open>C25: Exactly one alert is sent when a backup fails and alerts are configured, with the configured
  product, the identifier of the service instance and the text of the error, and none
  otherwise: the outside state after the job is the one after the run of the executor, or
  that one with the alert sent.\<close>

theorem backup_job_alert:
  assumes "alerts_wired conf client"
  shows "w_ext (snd (snd (backup_job (Execute E) conf client lg g e w))) =
    (case (fst (Execute E g e w), client, bc_Alerts conf) of
       (Done (Some (ServiceInstanceError m i)), Some send, Some al) \<Rightarrow>
         snd (send (al_ProductName al) alert_subject i
           (''A backup run has failed with the following error: '' @ m) (w_ext (snd (snd (Execute E g e w)))))
     | _ \<Rightarrow> w_ext (snd (snd (Execute E g e w))))"
proof -
  obtain r e1 w1 where r: "Execute E g e w = (r, e1, w1)" by (metis prod_cases3)
  show ?thesis
  proof (cases r)
    case (Done err)
    have "err = None \<or> (\<exists>m i. err = Some (ServiceInstanceError m i))"
      using Execute_error [of E g e w] r Done by (cases err) auto
    with assms r Done show ?thesis
      by (auto simp: backup_job_def send_alert_def alerts_wired_def alert_content_def Let_def
          case_prod_beta split: option.splits)
  qed (simp add: backup_job_def r)
qed

text \<open>An alerts client that keeps the alerts it sends.\<close>

definition mem_alerts :: "(string \<times> string \<times> string \<times> string) list alerts_client" where
  "mem_alerts product subject ident content x = (None, x @ [(product, subject, ident, content)])"

definition sample_alerts :: alerts where
  "sample_alerts = \<lparr>al_ProductName = ''MySQL'', al_Config =
     \<lparr>ac_CloudController = \<lparr>cc_URL = [], cc_User = [], cc_Password = []\<rparr>,
      ac_Notifications = \<lparr>nt_ServiceURL = [], nt_CFOrg = [], nt_CFSpace = [], nt_ReplyTo = [],
        nt_ClientID = [], nt_ClientSecret = []\<rparr>,
      ac_GlobalTimeoutSeconds = 0, ac_SkipSSLValidation = None\<rparr>\<rparr>"

theorem backup_job_alert_witness:
  "w_ext (snd (snd (backup_job (Execute (still_env sample_tree)) (zero_BackupConfig\<lparr>bc_Alerts := Some sample_alerts\<rparr>)
      (Some mem_alerts) root_logger ''guid'' (sample_executor\<lparr>ex_backupInProgress := True\<rparr>) (start_world []))))
   = [(''MySQL'', ''Service Backup Failed'', [],
       ''A backup run has failed with the following error: '' @ in_progress_msg)]"
proof -
  have "Execute (still_env sample_tree) ''guid'' (sample_executor\<lparr>ex_backupInProgress := True\<rparr>)
      (start_world ([] :: (string \<times> string \<times> string \<times> string) list))
    = (Done (Some (ServiceInstanceError in_progress_msg [])), sample_executor\<lparr>ex_backupInProgress := True\<rparr>,
       log_error (session_logger (sample_executor :: unit executor) ''guid'') in_progress_msg in_progress_msg (start_world []))"
    by (simp add: Execute_def sample_executor_def NewExecutor_def identifyService_def backupCanBeStarted_def
        identified_logger_def session_logger_def)
  then show ?thesis
    by (subst backup_job_alert) (simp_all add: alerts_wired_def mem_alerts_def sample_alerts_def alert_subject_def)
qed

end
