(* ===== verification/Service_Main.thy ===== *)
theory Service_Main
  imports Scheduler
begin

text \<open>
  The two programs: the service (\<open>src/main.go\<close>) and the manual backup
  (\<open>src/cmd/manual-backup/main.go\<close>).  They share their first part, which parses the
  configuration, makes the uploaders and chooses the executor.  The handler of the
  termination signal waits for \<open>Terminate\<close> of the process manager (\<open>Process_Manager\<close>),
  writes a line and exits with code 1.
\<close>

section \<open>The executor behind the interface\<close>

datatype 'x any_executor = DummyEx dummy_executor | BackupEx "'x executor"

fun execute_any :: "'x env \<Rightarrow> ('x any_executor, 'x) execute_fn" where
  "execute_any E guid (DummyEx d) w =
     (case Dummy_Execute guid d w of (r, d1, w1) \<Rightarrow> (r, DummyEx d1, w1))"
| "execute_any E guid (BackupEx e) w =
     (case Execute E guid e w of (r, e1, w1) \<Rightarrow> (r, BackupEx e1, w1))"

fun any_inv :: "'x any_executor \<Rightarrow> bool" where
  "any_inv (DummyEx d) = True"
| "any_inv (BackupEx e) = uploader_ok (ex_uploader e)"

lemma execute_any_error:
  "fst (execute_any E g s w) = Done (Some err) \<Longrightarrow> \<exists>m i. err = ServiceInstanceError m i"
  by (cases s) (auto simp: case_prod_beta dest: dummy.error_typed backup.error_typed)

interpretation chosen: executor_contract "execute_any E" any_inv for E :: "'x env"
proof
  fix g and s :: "'x any_executor" and w :: "'x world" and err
  show "any_inv s \<Longrightarrow> any_inv (fst (snd (execute_any E g s w)))"
    by (cases s) (auto simp: case_prod_beta backup.inv_execute)
  show "fst (execute_any E g s w) = Done (Some err) \<Longrightarrow> \<exists>m i. err = ServiceInstanceError m i"
    by (rule execute_any_error)
  show "any_inv s \<Longrightarrow> world_grows w (snd (snd (execute_any E g s w)))"
    by (cases s) (auto simp: case_prod_beta dummy.execute_grows backup.execute_grows)
qed

section \<open>The shared first part\<close>

text \<open>How a program goes on: a panic, an exit code, or a value to go on with.\<close>

datatype 'a started = Crashed string | Exited nat | Started 'a

definition choose_executor ::
  "'x env \<Rightarrow> backup_config \<Rightarrow> 'x uploader list \<Rightarrow> logger \<Rightarrow> 'x process_manager \<Rightarrow> 'x world
   \<Rightarrow> (backup_config \<times> 'x any_executor) \<times> 'x world" where
  "choose_executor E conf us lg pm w =
     (if NoDestinations conf then
        ((if bc_CronSchedule conf = [] then conf\<lparr>bc_CronSchedule := ''@monthly''\<rparr> else conf,
          DummyEx (NewDummyExecutor lg)),
         log_info lg ''No destination provided - skipping backup'' [] w)
      else
        ((conf, BackupEx (NewExecutor E (multi_uploader us) (bc_SourceFolder conf) (bc_SourceExecutable conf)
                  (bc_CleanupExecutable conf) (bc_ServiceIdentifierExecutable conf)
                  (bc_ExitIfInProgress conf) lg pm [])), w))"

definition setup_backup ::
  "'x env \<Rightarrow> 'x services \<Rightarrow> (string \<Rightarrow> gerror + backup_config) \<Rightarrow> string list \<Rightarrow> logger \<Rightarrow> 'x process_manager
   \<Rightarrow> 'x world \<Rightarrow> (backup_config \<times> 'x any_executor) started \<times> 'x world" where
  "setup_backup E S unmarshal args lg pm w =
     (case args of
        _ # configPath # _ \<Rightarrow>
          (case Parse E unmarshal configPath lg w of
             ((conf, Some err), w1) \<Rightarrow> (Exited 2, log_error lg ''failed to parse config'' err w1)
           | ((conf, None), w1) \<Rightarrow>
               (case Initialize E S conf lg [] w1 of
                  (Panic m, w2) \<Rightarrow> (Crashed m, w2)
                | (Err err, w2) \<Rightarrow> (Exited 2, log_error lg ''failed to initialize uploader'' err w2)
                | (Ok us, w2) \<Rightarrow>
                    (case choose_executor E conf us lg pm w2 of (started, w3) \<Rightarrow> (Started started, w3))))
      | _ \<Rightarrow> (Crashed ''index out of range'', w))"

section \<open>cmd/manual-backup/main.go\<close>

definition Manual_main ::
  "'x env \<Rightarrow> 'x services \<Rightarrow> (string \<Rightarrow> gerror + backup_config) \<Rightarrow> string list \<Rightarrow> 'x process_manager \<Rightarrow> string
   \<Rightarrow> 'x world \<Rightarrow> unit started \<times> 'x world" where
  "Manual_main E S unmarshal args pm guid w =
     (case setup_backup E S unmarshal args root_logger pm w of
        (Crashed m, w1) \<Rightarrow> (Crashed m, w1)
      | (Exited n, w1) \<Rightarrow> (Exited n, w1)
      | (Started (conf, ex), w1) \<Rightarrow>
          (case execute_any E guid ex w1 of
             (Panicked m, ex1, w2) \<Rightarrow> (Crashed m, w2)
           | (Done None, ex1, w2) \<Rightarrow> (Exited 0, w2)
           | (Done (Some err), ex1, w2) \<Rightarrow>
               (Exited 2, log_error root_logger ''Error running backup'' (error_text err) w2)))"

section \<open>main.go\<close>

text \<open>Everything up to \<open>scheduler.Run\<close>; \<open>newAlerts\<close> is \<open>alerts.New\<close>.\<close>

record 'x service =
  sv_config :: backup_config
  sv_executor :: "'x any_executor"
  sv_alerts :: "'x alerts_client option"
  sv_scheduler :: scheduler

definition Service_start ::
  "'x env \<Rightarrow> 'x services \<Rightarrow> (string \<Rightarrow> gerror + backup_config) \<Rightarrow> cron_parser
   \<Rightarrow> (alerts_config \<Rightarrow> 'x alerts_client) \<Rightarrow> string list \<Rightarrow> 'x process_manager
   \<Rightarrow> 'x world \<Rightarrow> 'x service started \<times> 'x world" where
  "Service_start E S unmarshal cron newAlerts args pm w =
     (case setup_backup E S unmarshal args root_logger pm w of
        (Crashed m, w1) \<Rightarrow> (Crashed m, w1)
      | (Exited n, w1) \<Rightarrow> (Exited n, w1)
      | (Started (conf, ex), w1) \<Rightarrow>
          (let client = map_option (\<lambda>al. newAlerts (al_Config al)) (bc_Alerts conf) in
           case NewScheduler cron conf root_logger w1 of
             (Inl n, w2) \<Rightarrow> (Exited n, w2)
           | (Inr sch, w2) \<Rightarrow>
               (Started \<lparr>sv_config = conf, sv_executor = ex, sv_alerts = client, sv_scheduler = sch\<rparr>, w2)))"

text \<open>\<open>main\<close> with the jobs that cron triggers.\<close>

definition Service_main ::
  "'x env \<Rightarrow> 'x services \<Rightarrow> (string \<Rightarrow> gerror + backup_config) \<Rightarrow> cron_parser
   \<Rightarrow> (alerts_config \<Rightarrow> 'x alerts_client) \<Rightarrow> string list \<Rightarrow> 'x process_manager \<Rightarrow> string list
   \<Rightarrow> 'x world \<Rightarrow> 'x any_executor started \<times> 'x world" where
  "Service_main E S unmarshal cron newAlerts args pm guids w =
     (case Service_start E S unmarshal cron newAlerts args pm w of
        (Crashed m, w1) \<Rightarrow> (Crashed m, w1)
      | (Exited n, w1) \<Rightarrow> (Exited n, w1)
      | (Started sv, w1) \<Rightarrow>
          (case Scheduler_Run (sv_scheduler sv)
                  (backup_job (execute_any E) (sv_config sv) (sv_alerts sv) root_logger) guids
                  (sv_executor sv) w1 of
             (Panic m, ex, w2) \<Rightarrow> (Crashed m, w2)
           | (_, ex, w2) \<Rightarrow> (Started ex, w2)))"

text \<open>The handler of \<open>SIGTERM\<close>, once \<open>Terminate\<close> has returned.\<close>

definition after_Terminate :: "'x world \<Rightarrow> unit started \<times> 'x world" where
  "after_Terminate w =
     (Exited 1, log_info root_logger ''All backup processes terminated. Exiting'' [] w)"

section \<open>Lemmas\<close>

lemma Initialize_configured:
  assumes "Initialize E S conf lg [] w = (Ok us, w')"
  shows "\<exists>ca. us = configured E S conf ca \<and> w' = w \<and> length us = length (bc_Destinations conf)
    \<and> (needs_ca (bc_Destinations conf) \<longrightarrow> CACertPath E = Ok ca)"
proof -
  let ?ds = "bc_Destinations conf"
  have init: "init_uploaders E S (default_opts E conf) lg ?ds w = (Ok us, w')"
    using assms by (simp add: Initialize_def)
  have ok: "list_all (\<lambda>d. known_type (dest_Type d)) ?ds \<and> (needs_ca ?ds \<longrightarrow> (\<exists>ca. CACertPath E = Ok ca))"
    using init_uploaders_Err [OF _ CACertPath_no_panic, of ?ds E S conf lg w] init by auto
  then obtain ca where ca: "needs_ca ?ds \<longrightarrow> CACertPath E = Ok ca" by blast
  have "length (List.map_filter (uploader_for E S conf ca) ds) = length ds"
    if "list_all (\<lambda>d. known_type (dest_Type d)) ds" for ds
    using that
    by (induction ds) (auto simp: List.map_filter_def known_type_def uploader_for_def)
  with ok ca init init_uploaders_Ok [of ?ds E ca S conf lg w] show ?thesis
    by (auto simp: configured_def)
qed

lemma setup_backup_Started:
  assumes "setup_backup E S unmarshal args lg pm w = (Started (conf, ex), w')"
  shows "any_inv ex \<and> (\<exists>prog path rest conf0 us w1. args = prog # path # rest
    \<and> Parse E unmarshal path lg w = ((conf0, None), w1) \<and> Initialize E S conf0 lg [] w1 = (Ok us, w1)
    \<and> choose_executor E conf0 us lg pm w1 = ((conf, ex), w'))"
proof -
  obtain prog path rest where args: "args = prog # path # rest"
    using assms by (auto simp: setup_backup_def split: list.splits)
  obtain conf0 w1 where p: "Parse E unmarshal path lg w = ((conf0, None), w1)"
    using assms by (auto simp: setup_backup_def args split: prod.splits option.splits)
  obtain us w2 where i: "Initialize E S conf0 lg [] w1 = (Ok us, w2)"
    and ch: "choose_executor E conf0 us lg pm w2 = ((conf, ex), w')"
    using assms by (auto simp: setup_backup_def args p split: prod.splits res.splits)
  from Initialize_configured [OF i] obtain ca where us: "us = configured E S conf0 ca" "w2 = w1" by auto
  have "any_inv ex"
    using ch multi.uploader_contract_axioms [of E S conf0 ca]
    by (auto simp: choose_executor_def us NewExecutor_def uploader_ok_def multi_uploader_def split: if_splits)
  with args p i ch us show ?thesis by auto
qed

lemma execute_BackupEx:
  "execute_any E g (BackupEx e) w = (Done None, ex', w') \<Longrightarrow> \<exists>e'. Execute E g e w = (Done None, e', w')"
  by (auto split: prod.splits)

text \<open>The only thing that runs change of an executor is the flag.\<close>

fun with_flag :: "bool \<Rightarrow> 'x any_executor \<Rightarrow> 'x any_executor" where
  "with_flag b (DummyEx d) = DummyEx d"
| "with_flag b (BackupEx e) = BackupEx (e\<lparr>ex_backupInProgress := b\<rparr>)"

lemma with_flag_self: "\<exists>b. ex = with_flag b ex"
proof (cases ex)
  case (BackupEx e)
  have "ex = with_flag (ex_backupInProgress e) ex" by (simp add: BackupEx)
  then show ?thesis ..
qed simp

lemma execute_any_state: "\<exists>c. fst (snd (execute_any E g (with_flag b ex) w)) = with_flag c ex"
proof (cases ex)
  case (DummyEx d)
  then show ?thesis by (simp add: Dummy_Execute_def)
next
  case (BackupEx e)
  have "fst (snd (execute_any E g (with_flag b ex) w)) = with_flag b ex
      \<or> fst (snd (execute_any E g (with_flag b ex) w)) = with_flag False ex"
    by (simp add: BackupEx case_prod_beta Execute_state)
  then show ?thesis by blast
qed

section \<open>A concrete configuration\<close>

text \<open>One store behind S3 and GCS, and an Azure that accepts no client.\<close>

definition sample_services :: "(string \<times> string \<rightharpoonup> string) services" where
  "sample_services = \<lparr>sv_s3 = mem_s3,
     sv_azure = \<lparr>az_newClient = \<lambda>c. Some ''no account'', az_createIfNotExists = \<lambda>c b x. (None, x),
       az_createBlockBlob = \<lambda>c b n x. (None, x), az_putBlock = \<lambda>c b n i d x. (None, x),
       az_putBlockList = \<lambda>c b n is x. (None, x)\<rparr>,
     sv_gcs = mem_gcs\<rparr>"

definition sample_dest :: destination where
  "sample_dest = \<lparr>dest_Type = ''s3'', dest_Name = ''offsite'', dest_Config =
     [''bucket_name'' \<mapsto> IString ''backups'', ''bucket_path'' \<mapsto> IString ''db'', ''region'' \<mapsto> IString ''eu-west-1'']\<rparr>"

definition sample_config :: backup_config where
  "sample_config = zero_BackupConfig\<lparr>bc_Destinations := [sample_dest], bc_SourceFolder := ''/var/db'',
     bc_SourceExecutable := ''/bin/dump --all'', bc_CronSchedule := ''@daily'', bc_AddDeploymentName := True,
     bc_DeploymentName := ''prod''\<rparr>"

abbreviation sample_env :: "(string \<times> string \<rightharpoonup> string) env" where
  "sample_env \<equiv> still_env sample_tree"

abbreviation sample_pm :: "(string \<times> string \<rightharpoonup> string) process_manager" where
  "sample_pm \<equiv> \<lambda>c x. (([], None), x)"

lemma sample_Parse:
  "bc_AddDeploymentName c \<or> bc_DeploymentName c = [] \<Longrightarrow>
     Parse (still_env node) (\<lambda>yaml. Inr c) path lg w = ((c, None), w)"
  by (cases c) (auto simp: Parse_def os_ReadFile_def path_file_def read_all_def)

lemma sample_Initialize:
  "Initialize sample_env sample_services sample_config lg [] w
   = (Ok [s3_uploader sample_env mem_s3 (factory_S3 sample_env sample_config sample_dest (hd certFiles))], w)"
  by (simp add: Initialize_def sample_config_def zero_BackupConfig_def sample_dest_def sample_services_def
      CACertPath_def certFiles_def default_factory_def)

lemma sample_S3_Ok: "fst (S3_Upload sample_env mem_s3 c ''/var/db'' lg pm w) = Ok ()"
  by (rule S3_Upload_Ok) (simp_all add: mem_s3_laws sample_tree_ok)

lemma run_all_Ok:
  assumes "\<And>u lg v. u \<in> set us \<Longrightarrow> fst (upl_Upload u l lg pm v) = Ok ()"
  shows "list_all (\<lambda>r. r = Ok ()) (fst (run_all us l lg pm w))"
  using assms by (induction us arbitrary: w) (auto simp: case_prod_beta)

text \<open>With uploaders that succeed the run and the manual backup succeed.\<close>

lemma sample_Execute:
  assumes "\<And>lg v. fst (upl_Upload (ex_uploader e) ''/var/db'' lg (\<lambda>c x. (([], None), x)) v) = Ok ()"
    and "ex_sourceFolder e = ''/var/db''" "ex_processManager e = (\<lambda>c x. (([], None), x))"
    "ex_dirSize e = calculateDirSize (still_env sample_tree :: 'x env)" "\<not> ex_backupInProgress e"
  shows "fst (Execute (still_env sample_tree :: 'x env) g e w) = Done None"
proof -
  have sz: "calculateDirSize (still_env sample_tree :: 'x env) ''/var/db'' = Size (sum_list (tree_sizes sample_tree)) None"
    by (subst calculateDirSize_clean) (simp_all add: sample_tree_ok)
  show ?thesis
    by (simp add: Execute_def backupCanBeStarted_def run_backup_def performBackup_def uploadBackup_def
        performCleanup_no_panic case_prod_beta Let_def assms sz split: res.split)
qed

lemma sample_Manual_main_any:
  assumes "bc_AddDeploymentName conf" and "\<not> NoDestinations conf" and "bc_SourceFolder conf = ''/var/db''"
    and "\<And>lg v. Initialize (still_env sample_tree :: 'x env) S conf lg [] v = (Ok us, v)"
    and "\<And>u lg v. u \<in> set us \<Longrightarrow> fst (upl_Upload u ''/var/db'' lg (\<lambda>c x. (([], None), x)) v) = Ok ()"
  shows "fst (Manual_main (still_env sample_tree :: 'x env) S (\<lambda>yaml. Inr conf) [''prog'', ''/etc/backup.yml'']
     (\<lambda>c x. (([], None), x)) ''guid'' w) = Exited 0"
proof -
  have parse: "Parse (still_env sample_tree :: 'x env) (\<lambda>yaml. Inr conf) path lg v = ((conf, None), v)" for path lg v
    by (rule sample_Parse) (simp add: assms(1))
  have "fst (Multi_Upload us ''/var/db'' lg (\<lambda>c x. (([], None), x)) v) = Ok ()" for lg v
    by (simp add: Multi_Upload_success run_all_Ok assms(5))
  then have "fst (Execute (still_env sample_tree :: 'x env) ''guid'' (NewExecutor (still_env sample_tree)
      (multi_uploader us) ''/var/db'' a b c d root_logger (\<lambda>c x. (([], None), x)) []) w) = Done None" for a b c d
    by (intro sample_Execute) (simp_all add: NewExecutor_def multi_uploader_def)
  then show ?thesis
    by (simp add: Manual_main_def setup_backup_def parse assms(2-4) choose_executor_def
        case_prod_beta split: exec_result.split option.split)
qed

lemma sample_Manual_main:
  "fst (Manual_main sample_env sample_services (\<lambda>yaml. Inr sample_config) [''prog'', ''/etc/backup.yml'']
     sample_pm ''guid'' w) = Exited 0"
  by (rule sample_Manual_main_any [OF _ _ _ sample_Initialize])
    (simp_all add: sample_config_def NoDestinations_def s3_uploader_def sample_S3_Ok)

section \<open>Properties\<close>

text \<open>When the manual backup exits with code 0, the configuration was read and decoded, every
  destination has an uploader, and either there are no destinations or the upload of the
  source folder to every single destination succeeded.\<close>

lemma Manual_main_success:
  assumes "Manual_main E S unmarshal args pm guid w = (Exited 0, w')"
  shows "\<exists>prog path rest conf us w1. args = prog # path # rest
    \<and> Parse E unmarshal path root_logger w = ((conf, None), w1)
    \<and> length us = length (bc_Destinations conf)
    \<and> (NoDestinations conf \<or> (\<exists>lg w2. list_all (\<lambda>r. r = Ok ()) (fst (run_all us (bc_SourceFolder conf) lg pm w2))))"
proof -
  obtain conf0 ex w1 where set: "setup_backup E S unmarshal args root_logger pm w = (Started (conf0, ex), w1)"
    using assms by (auto simp: Manual_main_def setup_backup_def choose_executor_def split: list.splits
        prod.splits option.splits res.splits started.splits if_splits)
  then obtain ex' where run: "execute_any E guid ex w1 = (Done None, ex', w')"
    using assms by (auto simp: Manual_main_def split: prod.splits exec_result.splits option.splits)
  from setup_backup_Started [OF set] obtain prog path rest conf us v where
    args: "args = prog # path # rest" and parse: "Parse E unmarshal path root_logger w = ((conf, None), v)"
    and init: "Initialize E S conf root_logger [] v = (Ok us, v)"
    and choose: "choose_executor E conf us root_logger pm v = ((conf0, ex), w1)" by blast
  have len: "length us = length (bc_Destinations conf)" using Initialize_configured [OF init] by auto
  have "\<exists>lg w2. list_all (\<lambda>r. r = Ok ()) (fst (run_all us (bc_SourceFolder conf) lg pm w2))"
    if "\<not> NoDestinations conf"
  proof -
    from choose that obtain e where ex: "ex = BackupEx e"
      and e: "ex_uploader e = multi_uploader us" "ex_sourceFolder e = bc_SourceFolder conf" "ex_processManager e = pm"
      by (auto simp: choose_executor_def NewExecutor_def)
    obtain e' where "Execute E guid e w1 = (Done None, e', w')"
      using run ex execute_BackupEx by blast
    from Execute_uploaded [OF this] obtain lg w2 where
      "fst (uploadBackup E (e\<lparr>ex_backupInProgress := True\<rparr>) lg w2) = Ok ()" by blast
    from uploadBackup_Ok(1) [OF this] e show ?thesis
      by (auto simp: multi_uploader_def Multi_Upload_success)
  qed
  with args parse len show ?thesis by blast
qed

text \<open>Without destinations the manual backup does nothing and succeeds: it exits with code 0, launches
  no command and leaves the outside state as it is.\<close>

lemma Manual_main_no_destinations:
  assumes "Parse E unmarshal path root_logger w = ((conf, None), w1)" and "NoDestinations conf"
  shows "\<exists>w'. Manual_main E S unmarshal (prog # path # rest) pm guid w = (Exited 0, w')
    \<and> w_ext w' = w_ext w \<and> w_cmds w' = w_cmds w \<and> w_tmp w' = w_tmp w"
proof -
  have "w1 = w" using assms(1) by (auto simp: Parse_def split: sum.splits)
  moreover have "Initialize E S conf root_logger [] w1 = (Ok [], w1)"
    using assms(2) by (simp add: Initialize_def NoDestinations_def)
  ultimately show ?thesis
    using assms by (simp add: Manual_main_def setup_backup_def choose_executor_def NewDummyExecutor_def Dummy_Execute_def)
qed

text \<open>Without destinations and without a schedule the service still starts: it schedules its job
  monthly, provided cron accepts \<open>@monthly\<close>.\<close>

lemma Service_start_default_schedule:
  assumes "Parse E unmarshal path root_logger w = ((conf, None), w1)" and "NoDestinations conf"
    and "bc_CronSchedule conf = []" and "cron ''@monthly'' = None"
  shows "\<exists>sv w'. Service_start E S unmarshal cron newAlerts (prog # path # rest) pm w = (Started sv, w')
    \<and> sch_cronSchedule (sv_scheduler sv) = ''@monthly'' \<and> sv_executor sv = DummyEx (NewDummyExecutor root_logger)"
proof -
  have "Initialize E S conf root_logger [] w1 = (Ok [], w1)"
    using assms(2) by (simp add: Initialize_def NoDestinations_def)
  then show ?thesis
    using assms by (simp add: Service_start_def setup_backup_def choose_executor_def NewScheduler_def)
qed

text \<open>C19: A service that has started goes on through any number of jobs, failed backups and failed
  alerts included; it never exits, and it crashes only when a run of its own executor,
  with the in-progress flag set or not, panicked.\<close>

theorem Service_main_goes_on:
  assumes "Service_start E S unmarshal cron newAlerts args pm w = (Started sv, w1)"
  shows "(\<exists>ex w'. Service_main E S unmarshal cron newAlerts args pm guids w = (Started ex, w'))
    \<or> (\<exists>m w' g b v. Service_main E S unmarshal cron newAlerts args pm guids w = (Crashed m, w')
          \<and> g \<in> set guids \<and> fst (execute_any E g (with_flag b (sv_executor sv)) v) = Panicked m)"
proof -
  obtain conf ex v where set: "setup_backup E S unmarshal args root_logger pm w = (Started (conf, ex), v)"
    and sv: "sv_config sv = conf" "sv_executor sv = ex"
      "sv_alerts sv = map_option (\<lambda>al. newAlerts (al_Config al)) (bc_Alerts conf)"
    using assms(1) by (auto simp: Service_start_def Let_def split: prod.splits started.splits sum.splits)
  have wired: "alerts_wired (sv_config sv) (sv_alerts sv)"
    by (cases "bc_Alerts conf") (simp_all add: alerts_wired_def sv)
  let ?job = "backup_job (execute_any E) (sv_config sv) (sv_alerts sv) root_logger"
  let ?w = "log_info (sch_logger (sv_scheduler sv)) ''Service-backup Started'' [] w1"
  have "fst (run_jobs ?job guids ex ?w) = Ok ()
    \<or> (\<exists>m g s' w'. fst (run_jobs ?job guids ex ?w) = Panic m \<and> g \<in> set guids
        \<and> (\<exists>b. s' = with_flag b ex) \<and> fst (execute_any E g s' w') = Panicked m)"
    by (rule chosen.jobs_outcome [OF wired]) (auto simp: execute_any_state intro: with_flag_self)
  then show ?thesis
    by (elim disjE exE conjE)
      (auto simp: Service_main_def assms(1) Scheduler_Run_def sv case_prod_beta split: res.splits)
qed

theorem Service_main_goes_on_witness:
  "\<exists>ex w'. Service_main sample_env sample_services (\<lambda>yaml. Inr zero_BackupConfig) (\<lambda>s. None)
     (\<lambda>c p s i t x. (None, x)) [''prog'', ''/etc/backup.yml''] sample_pm [''g1'', ''g2''] (start_world Map.empty)
     = (Started ex, w')"
proof -
  let ?start = "Service_start sample_env sample_services (\<lambda>yaml. Inr zero_BackupConfig) (\<lambda>s. None)
      (\<lambda>c p s i t x. (None, x)) [''prog'', ''/etc/backup.yml''] sample_pm (start_world Map.empty)"
  obtain sv w1 where sv: "?start = (Started sv, w1)" "sv_executor sv = DummyEx (NewDummyExecutor root_logger)"
    by (simp add: Service_start_def setup_backup_def sample_Parse choose_executor_def NewScheduler_def
        zero_BackupConfig_def Initialize_def NoDestinations_def Let_def)
  have "fst (execute_any sample_env g (with_flag b (sv_executor sv)) v) \<noteq> Panicked m" for g b v m
    by (simp add: sv Dummy_Execute_def)
  with Service_main_goes_on [where guids = "[''g1'', ''g2'']", OF sv(1)] show ?thesis by blast
qed

text \<open>C20: Every error that a run returns through the interface \<open>Executor\<close>, whichever implementation is
  behind it, has the dynamic type \<open>ServiceInstanceError\<close> and carries the identifier of the
  service instance that was found in this run; so the scheduler's type assertion on it holds
  and the alert it makes of it is sent for that instance.\<close>

theorem run_errors_typed:
  assumes "fst (execute_any E g s w) = Done (Some err)"
  shows "\<exists>m e. s = BackupEx e \<and> err = ServiceInstanceError m (fst (identifyService E e (session_logger e g) w))
    \<and> fst (send_alert (conf\<lparr>bc_Alerts := Some al\<rparr>) client lg err v) = Ok ()"
proof (cases s)
  case (DummyEx d)
  with assms show ?thesis by (simp add: Dummy_Execute_def)
next
  case (BackupEx e)
  with assms have "fst (Execute E g e w) = Done (Some err)" by (simp add: case_prod_beta)
  from Execute_error [OF this] obtain m
    where "err = ServiceInstanceError m (fst (identifyService E e (session_logger e g) w))" by blast
  with BackupEx show ?thesis by (simp add: send_alert_def case_prod_beta Let_def split: option.split)
qed

theorem run_errors_typed_witness:
  "\<exists>m. ServiceInstanceError in_progress_msg [] = ServiceInstanceError m (fst (identifyService (still_env sample_tree)
      ((sample_executor :: unit executor)\<lparr>ex_backupInProgress := True\<rparr>)
      (session_logger ((sample_executor :: unit executor)\<lparr>ex_backupInProgress := True\<rparr>) ''guid'') (start_world ())))"
proof -
  let ?e = "(sample_executor :: unit executor)\<lparr>ex_backupInProgress := True\<rparr>"
  have "fst (execute_any (still_env sample_tree) ''guid'' (BackupEx ?e) (start_world ()))
      = Done (Some (ServiceInstanceError in_progress_msg []))"
    by (simp add: case_prod_beta Execute_def sample_executor_def NewExecutor_def identifyService_def
        backupCanBeStarted_def)
  from run_errors_typed [OF this, where conf = zero_BackupConfig and al = sample_alerts
      and client = "\<lambda>p s i t x. (None, x)" and lg = root_logger and v = "start_world ()"]
  show ?thesis by auto
qed

end
