(* ===== verification/Storing.thy ===== *)
theory Storing
  imports Uploaders
begin

text \<open>
  What a list of destinations leaves in the cloud stores.  The contract of an uploader that
  stores objects is the locale \<open>storing_uploader\<close>; the S3, Azure and GCS clients have it for
  their own store, and every client for a store it does not use, with no objects.  The
  multi-uploader composes the contracts of its uploaders.
\<close>

section \<open>The contract\<close>

text \<open>
  A successful upload of the folder adds to the store the objects that belong to the clock
  reading at its start, and changes nothing else, as long as the commands it launches leave
  the store alone (\<open>lawful\<close>).
\<close>

locale storing_uploader =
  fixes upload :: "'x upload_fn"
    and folder :: string
    and store :: "'x \<Rightarrow> 'k \<rightharpoonup> string"
    and objects :: "nat \<Rightarrow> 'k \<rightharpoonup> string"
    and lawful :: "'x process_manager \<Rightarrow> bool"
  assumes stores: "lawful pm \<Longrightarrow> upload folder lg pm w = (Ok (), w') \<Longrightarrow>
    store (w_ext w') = store (w_ext w) ++ objects (w_now w)"
begin

lemma stored_object:
  "lawful pm \<Longrightarrow> upload folder lg pm w = (Ok (), w') \<Longrightarrow> objects (w_now w) k = Some d \<Longrightarrow>
     store (w_ext w') k = Some d"
  by (simp add: stores)

lemma other_object:
  "lawful pm \<Longrightarrow> upload folder lg pm w = (Ok (), w') \<Longrightarrow> objects (w_now w) k = None \<Longrightarrow>
     store (w_ext w') k = store (w_ext w) k"
  by (simp add: stores map_add_def)

end

section \<open>Calls that leave a store alone\<close>

definition s3_inert :: "'x s3_api \<Rightarrow> ('x \<Rightarrow> 'o) \<Rightarrow> bool" where
  "s3_inert A st =
     ((\<forall>c x. st (snd (api_loadConfig A c x)) = st x) \<and> (\<forall>c b x. st (snd (api_headBucket A c b x)) = st x)
      \<and> (\<forall>c b r x. st (snd (api_createBucket A c b r x)) = st x)
      \<and> (\<forall>c b k d x. st (snd (api_putObject A c b k d x)) = st x))"

definition azure_inert :: "'x azure_api \<Rightarrow> ('x \<Rightarrow> 'o) \<Rightarrow> bool" where
  "azure_inert A st =
     ((\<forall>s c x. st (snd (az_createIfNotExists A s c x)) = st x)
      \<and> (\<forall>s c n x. st (snd (az_createBlockBlob A s c n x)) = st x)
      \<and> (\<forall>s c n i d x. st (snd (az_putBlock A s c n i d x)) = st x)
      \<and> (\<forall>s c n is x. st (snd (az_putBlockList A s c n is x)) = st x))"

definition gcs_inert :: "'x gcs_api \<Rightarrow> ('x \<Rightarrow> 'o) \<Rightarrow> bool" where
  "gcs_inert A st =
     ((\<forall>p x. st (snd (gcs_newClient A p x)) = st x) \<and> (\<forall>p b x. st (snd (gcs_createBucket A p b x)) = st x)
      \<and> (\<forall>b n d c x. st (snd (gcs_write A b n d c x)) = st x) \<and> (\<forall>b n d x. st (snd (gcs_close A b n d x)) = st x))"

definition commands_keep :: "'x env \<Rightarrow> 'x process_manager \<Rightarrow> ('x \<Rightarrow> 'o) \<Rightarrow> bool" where
  "commands_keep E pm st =
     ((\<forall>c x. st (snd (e_combined E c x)) = st x) \<and> (\<forall>c x. st (snd (pm c x)) = st x))"

lemma walk_keeps:
  assumes "\<And>p d e v. st (w_ext (snd (fn p d e v))) = st (w_ext v)"
  shows "st (w_ext (snd (filepath_Walk lstat fn root w))) = st (w_ext w)"
  unfolding filepath_Walk_visits
  by (rule each_until_invariant [where I = "\<lambda>t. st (w_ext t) = st (w_ext w)"])
    (auto simp: at_visit_def assms split: prod.splits)

lemma S3_Upload_inert:
  assumes "s3_inert A st" and fn: "s3_remotePathFn c = RemotePathFunc E base dep"
  shows "st (w_ext (snd (S3_Upload E A c l lg pm w))) = st (w_ext w)"
proof -
  have put: "st (w_ext (snd (S3_UploadFile E A lg k p r v))) = st (w_ext v)" for k p r v
    using assms(1) by (simp add: S3_UploadFile_def s3_inert_def case_prod_beta Let_def split: sum.split option.split)
  have dir: "st (w_ext (snd (S3_UploadDir E A k lg l r v))) = st (w_ext v)" for k r v
    by (simp add: S3_UploadDir_callback case_prod_beta,
        rule walk_keeps) (simp add: upload_callback_def put split: option.split)
  have bucket: "st (w_ext (snd (CreateBucketIfNeeded A c k r lg v))) = st (w_ext v)" for k r v
    using assms(1) by (simp add: CreateBucketIfNeeded_def bucketExists_def createBucket_def s3_inert_def
        case_prod_beta split: res.split bool.split option.split head_error.split)
  have client: "st (w_ext (snd (CreateS3Client A lg a k e r v))) = st (w_ext v)" for a k e r v
    using assms(1) by (simp add: CreateS3Client_def s3_inert_def case_prod_beta Let_def split: option.split)
  show ?thesis
    by (simp add: S3_Upload_def S3_Upload_body_def fn case_prod_beta dir bucket client split: res.split)
qed

lemma put_chunks_inert:
  assumes "azure_inert A st"
  shows "st (w_ext (snd (put_chunks A sdk c b f off i bs w))) = st (w_ext w)"
  using assms
proof (induction A sdk c b f off i bs w rule: put_chunks.induct)
  case (1 A sdk c b f off i bs w)
  show ?case
  proof (cases "file_Read f off ChunkSize")
    case (RData chunk)
    obtain e w1 where p: "on_ext (az_putBlock A sdk c b (blockID i) chunk) w = (e, w1)" by fastforce
    then have k: "st (w_ext w1) = st (w_ext w)"
      using "1.prems" on_ext_result(2) [OF p] by (simp add: azure_inert_def)
    show ?thesis
    proof (cases e)
      case None
      with "1.IH" [OF RData p [unfolded None, symmetric] refl "1.prems"] RData p k show ?thesis
        by (subst put_chunks.simps) simp
    next
      case (Some x)
      with RData p k show ?thesis by (subst put_chunks.simps) simp
    qed
  qed (subst put_chunks.simps; simp)+
qed

lemma Azure_Upload_inert:
  assumes "azure_inert A st" and fn: "azc_remotePathFn a = RemotePathFunc E base dep"
  shows "st (w_ext (snd (Azure_Upload E A a l lg pm w))) = st (w_ext w)"
proof -
  have put: "st (w_ext (snd (Azure_uploadFile E A lg k c p r v))) = st (w_ext v)" for k c p r v
    using assms(1) by (simp add: Azure_uploadFile_def azure_inert_def case_prod_beta Let_def
        put_chunks_inert [OF assms(1)] split: sum.split option.split res.split)
  have walk: "st (w_ext (snd (filepath_Walk (e_lstat E)
      (upload_callback (Azure_uploadFile E A lg k c) r l) l v))) = st (w_ext v)" for k c r v
    by (rule walk_keeps) (simp add: upload_callback_def put split: option.split)
  have dir: "st (w_ext (snd (Azure_uploadDir E A a l r lg v))) = st (w_ext v)" for r v
    using assms(1) by (simp add: Azure_uploadDir_walk azure_inert_def case_prod_beta walk split: option.split)
  show ?thesis by (simp add: Azure_Upload_def fn case_prod_beta dir)
qed

lemma io_Copy_inert:
  assumes "gcs_inert A st"
  shows "st (w_ext (snd (snd (io_Copy A b n f off d w)))) = st (w_ext w)"
  using assms
proof (induction A b n f off d w rule: io_Copy.induct)
  case (1 A b n f off d w)
  show ?case
  proof (cases "file_Read f off copyBufferSize")
    case (RData chunk)
    obtain e w1 where p: "on_ext (gcs_write A b n d chunk) w = (e, w1)" by fastforce
    then have k: "st (w_ext w1) = st (w_ext w)"
      using "1.prems" on_ext_result(2) [OF p] by (simp add: gcs_inert_def)
    show ?thesis
      using "1.IH" [OF RData p [symmetric] _ "1.prems"] RData p k
      by (cases e) (auto simp: io_Copy.simps [of A b n f off])
  qed (simp_all add: io_Copy.simps [of A b n f off])
qed

lemma GCS_Upload_inert:
  assumes "gcs_inert A st" and fn: "gc_remotePathFn s = RemotePathFunc E base dep"
  shows "st (w_ext (snd (GCS_Upload E A s dir lg pm w))) = st (w_ext w)"
proof -
  have up: "st (w_ext (snd (GCS_uploadFile E A s dir p b lg v))) = st (w_ext v)" for p b v
    using assms(1) by (simp add: GCS_uploadFile_def gcs_inert_def case_prod_beta Let_def fn
        io_Copy_inert [OF assms(1)] split: res.split sum.split)
  have walk: "st (w_ext (snd (filepath_Walk (e_lstat E) (GCS_callback E A s dir b lg) dir v))) = st (w_ext v)" for b v
    by (rule walk_keeps) (simp add: GCS_callback_def case_prod_beta gcs_errs_def Let_def up
        split: option.split res.split)
  have bucket: "st (w_ext (snd (ensureBucketExists A s v))) = st (w_ext v)" for v
    using assms(1) by (simp add: ensureBucketExists_def case_prod_beta gcs_inert_def
        split: res.split bool.split option.split)
  show ?thesis
    using assms(1) by (simp add: GCS_Upload_def case_prod_beta gcs_errs_def Let_def gcs_inert_def bucket walk
        split: option.split res.split)
qed

lemma SCP_Upload_inert:
  assumes "commands_keep E pm st" and fn: "sc_remotePathFn c = RemotePathFunc E base dep"
  shows "st (w_ext (snd (SCP_Upload E c l lg pm w))) = st (w_ext w)"
proof -
  have tmp: "w_ext (snd (writeTempFile E p d v)) = w_ext v" for p d v
    by (simp add: writeTempFile_def split: sum.split)
  have hosts: "st (w_ext (snd (generateKnownHosts E c lg v))) = st (w_ext v)" for v
    using assms(1) by (simp add: generateKnownHosts_def commands_keep_def case_prod_beta Let_def tmp split: option.split)
  have copies: "st (w_ext (snd (each_until (scp_copy c k h d l lg pm) fs v))) = st (w_ext v)" for k h d fs v
    by (rule each_until_invariant [where I = "\<lambda>t. st (w_ext t) = st (w_ext v)"])
      (use assms(1) in \<open>simp_all add: scp_copy_def commands_keep_def case_prod_beta Let_def split: option.split\<close>)
  have mkdir: "st (w_ext (snd (ensureRemoteDirectoryExists E c p k h lg v))) = st (w_ext v)" for p k h v
    using assms(1) by (simp add: ensureRemoteDirectoryExists_def commands_keep_def case_prod_beta Let_def split: option.split)
  have transfer: "st (w_ext (snd (SCP_transfer E c k h l lg pm v))) = st (w_ext v)" for k h v
    by (simp add: SCP_transfer_def fn case_prod_beta copies mkdir split: res.split sum.split)
  show ?thesis
    by (simp add: SCP_Upload_def generateBackupKey_def os_Remove_def case_prod_beta tmp hosts transfer split: res.split)
qed

section \<open>A service as one client sees it\<close>

text \<open>
  The calls of an SDK by one client, whatever client is passed: a client of the program makes
  all its calls with the SDK client it created, so its upload through the SDK is its upload
  through this view.
\<close>

definition s3_as :: "sdk_client \<Rightarrow> 'x s3_api \<Rightarrow> 'x s3_api" where
  "s3_as k A = \<lparr>api_loadConfig = \<lambda>_. api_loadConfig A k, api_headBucket = \<lambda>_. api_headBucket A k,
     api_createBucket = \<lambda>_. api_createBucket A k, api_putObject = \<lambda>_. api_putObject A k\<rparr>"

definition azure_as :: "az_sdk \<Rightarrow> 'x azure_api \<Rightarrow> 'x azure_api" where
  "azure_as k A = \<lparr>az_newClient = \<lambda>_. az_newClient A k, az_createIfNotExists = \<lambda>_. az_createIfNotExists A k,
     az_createBlockBlob = \<lambda>_. az_createBlockBlob A k, az_putBlock = \<lambda>_. az_putBlock A k,
     az_putBlockList = \<lambda>_. az_putBlockList A k\<rparr>"

lemma s3_as_sel [simp]:
  "api_loadConfig (s3_as k A) c = api_loadConfig A k" "api_headBucket (s3_as k A) c = api_headBucket A k"
  "api_createBucket (s3_as k A) c = api_createBucket A k" "api_putObject (s3_as k A) c = api_putObject A k"
  by (simp_all add: s3_as_def)

lemma azure_as_sel [simp]:
  "az_newClient (azure_as k A) c = az_newClient A k" "az_createIfNotExists (azure_as k A) c = az_createIfNotExists A k"
  "az_createBlockBlob (azure_as k A) c = az_createBlockBlob A k" "az_putBlock (azure_as k A) c = az_putBlock A k"
  "az_putBlockList (azure_as k A) c = az_putBlockList A k"
  by (simp_all add: azure_as_def)

definition sdk_of :: "'x s3_client \<Rightarrow> sdk_client" where
  "sdk_of c = \<lparr>sdk_region = (if length (s3_region c) = 0 then ''us-west-2'' else s3_region c),
     sdk_accessKey = s3_accessKey c, sdk_secretKey = s3_secretKey c,
     sdk_endpoint = (if length (s3_endpointURL c) = 0 then None else Some (s3_endpointURL c))\<rparr>"

lemma S3_UploadDir_as: "S3_UploadDir E (s3_as k A) client lg l r = S3_UploadDir E A k lg l r"
proof -
  have "S3_UploadFile E (s3_as k A) lg client = S3_UploadFile E A lg k"
    by (intro ext) (simp only: S3_UploadFile_def s3_as_sel)
  then show ?thesis by (intro ext) (simp only: S3_UploadDir_callback)
qed

lemma CreateBucketIfNeeded_as:
  "CreateBucketIfNeeded (s3_as k A) c client r lg = CreateBucketIfNeeded A c k r lg"
  by (intro ext) (simp only: CreateBucketIfNeeded_def bucketExists_def createBucket_def s3_as_sel)

lemma CreateS3Client_as:
  "CreateS3Client (s3_as (sdk_of c) A) lg (s3_accessKey c) (s3_secretKey c) (s3_endpointURL c) (s3_region c) w
   = CreateS3Client A lg (s3_accessKey c) (s3_secretKey c) (s3_endpointURL c) (s3_region c) w"
  by (simp only: CreateS3Client_def s3_as_sel sdk_of_def Let_def)

lemma CreateS3Client_client:
  "CreateS3Client A lg (s3_accessKey c) (s3_secretKey c) (s3_endpointURL c) (s3_region c) w = (Ok client, w')
   \<Longrightarrow> client = sdk_of c"
  by (auto simp: CreateS3Client_def sdk_of_def Let_def split: prod.splits option.splits)

lemma S3_Upload_as: "S3_Upload E (s3_as (sdk_of c) A) c = S3_Upload E A c"
proof (intro ext)
  fix l lg pm w
  have "S3_Upload_body E (s3_as (sdk_of c) A) c l lg w = S3_Upload_body E A c l lg w"
    unfolding S3_Upload_body_def CreateS3Client_as CreateBucketIfNeeded_as S3_UploadDir_as
    by (intro prod.case_cong refl res.case_cong) (auto dest: CreateS3Client_client)
  then show "S3_Upload E (s3_as (sdk_of c) A) c l lg pm w = S3_Upload E A c l lg pm w"
    by (simp add: S3_Upload_def)
qed

lemma put_chunks_as:
  "put_chunks (azure_as k A) sdk c b f off i bs w = put_chunks A k c b f off i bs w"
proof (induction A k c b f off i bs w rule: put_chunks.induct)
  case (1 A k c b f off i bs w)
  show ?case
    unfolding put_chunks.simps [of "azure_as k A" sdk c b f off i bs w] put_chunks.simps [of A k c b f off i bs w]
      azure_as_sel
    using "1.IH" by (auto split: read_result.split prod.split option.split)
qed

lemma Azure_Upload_as: "Azure_Upload E (azure_as (Azure_sdk a) A) a = Azure_Upload E A a"
proof -
  have "Azure_uploadFile E (azure_as (Azure_sdk a) A) lg (Azure_sdk a) = Azure_uploadFile E A lg (Azure_sdk a)" for lg
    by (intro ext) (simp only: Azure_uploadFile_def put_chunks_as azure_as_sel)
  then show ?thesis
    by (intro ext) (simp only: Azure_Upload_def Azure_uploadDir_walk azure_as_sel)
qed

lemma inert_as: "s3_inert A st \<Longrightarrow> s3_inert (s3_as k A) st" "azure_inert B st \<Longrightarrow> azure_inert (azure_as m B) st"
  by (simp_all add: s3_inert_def s3_as_def azure_inert_def azure_as_def)

section \<open>The clients have the contract\<close>

definition good_folder :: "'x env \<Rightarrow> string \<Rightarrow> bool" where
  "good_folder E folder =
     (wf_tree (e_lstat E folder) \<and> plain_folder folder \<and> folder_once folder (e_lstat E folder)
      \<and> [] \<notin> set (file_names (e_lstat E folder)))"

interpretation s3_stored: storing_uploader "S3_Upload E A c" folder objs
  "\<lambda>t. map_of (s3_objects E folder (remotePathOn base dep (t_date (e_clock E t))))"
  "\<lambda>pm. s3_stores A objs \<and> s3_keeps A objs \<and> s3_remotePathFn c = RemotePathFunc E base dep
     \<and> good_folder E folder \<and> (\<forall>d. \<not> is_rooted (remotePathOn base dep d))"
  for E A c folder objs base dep
  by unfold_locales (auto simp: good_folder_def dest: S3_Upload_stores)

interpretation azure_stored: storing_uploader "Azure_Upload E A a" folder blobs
  "\<lambda>t. map_of (azure_objects E (azc_container a) folder (remotePathOn base dep (t_date (e_clock E t))))"
  "\<lambda>pm. azure_service A blobs blocks \<and> azc_remotePathFn a = RemotePathFunc E base dep \<and> good_folder E folder"
  for E A a folder blobs blocks base dep
  by unfold_locales (auto simp: good_folder_def dest: Azure_Upload_stores)

interpretation gcs_stored: storing_uploader "GCS_Upload E A s" folder objs
  "\<lambda>t. map_of (gcs_objects E (gc_bucketName s) base dep folder (Suc t) (file_names (e_lstat E folder)))"
  "\<lambda>pm. gcs_service A objs \<and> (\<forall>b n d x. fst (gcs_close A b n d x) = None)
     \<and> gc_remotePathFn s = RemotePathFunc E base dep \<and> good_folder E folder"
  for E A s folder objs base dep
  by unfold_locales (auto simp: good_folder_def dest: GCS_Upload_stores [rotated 5])

interpretation s3_other: storing_uploader "S3_Upload E A c" folder st "\<lambda>t. Map.empty"
  "\<lambda>pm. s3_inert A st \<and> s3_remotePathFn c = RemotePathFunc E base dep"
  for E A c folder st base dep
  by unfold_locales (metis S3_Upload_inert map_add_empty snd_conv)

interpretation azure_other: storing_uploader "Azure_Upload E A a" folder st "\<lambda>t. Map.empty"
  "\<lambda>pm. azure_inert A st \<and> azc_remotePathFn a = RemotePathFunc E base dep"
  for E A a folder st base dep
  by unfold_locales (metis Azure_Upload_inert map_add_empty snd_conv)

interpretation gcs_other: storing_uploader "GCS_Upload E A s" folder st "\<lambda>t. Map.empty"
  "\<lambda>pm. gcs_inert A st \<and> gc_remotePathFn s = RemotePathFunc E base dep"
  for E A s folder st base dep
  by unfold_locales (metis GCS_Upload_inert map_add_empty snd_conv)

interpretation scp_other: storing_uploader "SCP_Upload E c" folder st "\<lambda>t. Map.empty"
  "\<lambda>pm. commands_keep E pm st \<and> sc_remotePathFn c = RemotePathFunc E base dep"
  for E c folder st base dep
  by unfold_locales (metis SCP_Upload_inert map_add_empty snd_conv)

lemma storing_mono:
  "storing_uploader u f st ob L \<Longrightarrow> (\<And>pm. L' pm \<Longrightarrow> L pm) \<Longrightarrow> storing_uploader u f st ob L'"
  by (auto simp: storing_uploader_def)

section \<open>What a destination stores\<close>

text \<open>The remote path of a day, and the objects of a destination whose upload starts at clock reading \<open>t\<close>.\<close>

definition s3_remote :: "backup_config \<Rightarrow> destination \<Rightarrow> date \<Rightarrow> string" where
  "s3_remote conf dest d =
     remotePathOn (toString (dest_Config dest ''bucket_name'') @ ''/'' @ toString (dest_Config dest ''bucket_path''))
       (bc_DeploymentName conf) d"

definition azure_remote :: "backup_config \<Rightarrow> destination \<Rightarrow> date \<Rightarrow> string" where
  "azure_remote conf dest d = remotePathOn (toString (dest_Config dest ''path'')) (bc_DeploymentName conf) d"

text \<open>The endpoint of an S3 destination, and the account of an Azure one with its endpoint.\<close>

definition s3_endpoint :: "destination \<Rightarrow> string option" where
  "s3_endpoint dest =
     (let url = toString (dest_Config dest ''endpoint_url'') in if url = [] then None else Some url)"

definition azure_account :: "destination \<Rightarrow> string \<times> string" where
  "azure_account dest =
     (let url = toString (dest_Config dest ''endpoint'')
      in (toString (dest_Config dest ''storage_account''), if url = [] then az_DefaultBaseURL else url))"

definition s3_part ::
  "'x env \<Rightarrow> backup_config \<Rightarrow> string option \<Rightarrow> destination \<Rightarrow> nat \<Rightarrow> string \<times> string \<rightharpoonup> string" where
  "s3_part E conf ep dest t =
     (if dest_Type dest = ''s3'' \<and> s3_endpoint dest = ep
      then map_of (s3_objects E (bc_SourceFolder conf) (s3_remote conf dest (t_date (e_clock E t))))
      else Map.empty)"

definition azure_part ::
  "'x env \<Rightarrow> backup_config \<Rightarrow> string \<times> string \<Rightarrow> destination \<Rightarrow> nat \<Rightarrow> blob_id \<rightharpoonup> string" where
  "azure_part E conf account dest t =
     (if dest_Type dest = ''azure'' \<and> azure_account dest = account
      then map_of (azure_objects E (toString (dest_Config dest ''container'')) (bc_SourceFolder conf)
             (azure_remote conf dest (t_date (e_clock E t))))
      else Map.empty)"

definition gcs_part :: "'x env \<Rightarrow> backup_config \<Rightarrow> destination \<Rightarrow> nat \<Rightarrow> string \<times> string \<rightharpoonup> string" where
  "gcs_part E conf dest t =
     (if dest_Type dest = ''gcs''
      then map_of (gcs_objects E (toString (dest_Config dest ''bucket_name'')) [] (bc_DeploymentName conf)
             (bc_SourceFolder conf) (Suc t) (file_names (e_lstat E (bc_SourceFolder conf))))
      else Map.empty)"

text \<open>
  What is assumed of the services and the commands.  S3 has a store of objects per endpoint and
  Azure one of blobs per account and endpoint; a call does what it documents to the store of
  the client that makes it and nothing to the other stores; Google Cloud Storage has one
  store, since its bucket names are global.  Commands leave all stores alone.
\<close>

definition s3_endpoints :: "'x s3_api \<Rightarrow> (string option \<Rightarrow> 'x \<Rightarrow> string \<times> string \<rightharpoonup> string) \<Rightarrow> bool" where
  "s3_endpoints A s3o =
     (\<forall>k. s3_stores (s3_as k A) (s3o (sdk_endpoint k)) \<and> s3_keeps (s3_as k A) (s3o (sdk_endpoint k))
        \<and> (\<forall>ep. ep \<noteq> sdk_endpoint k \<longrightarrow> s3_inert (s3_as k A) (s3o ep)))"

definition azure_accounts ::
  "'x azure_api \<Rightarrow> (string \<times> string \<Rightarrow> 'x \<Rightarrow> blob_id \<rightharpoonup> string)
   \<Rightarrow> (string \<times> string \<Rightarrow> 'x \<Rightarrow> blob_id \<Rightarrow> string \<rightharpoonup> string) \<Rightarrow> bool" where
  "azure_accounts A blobs blocks =
     (\<forall>k. azure_service (azure_as k A) (blobs (az_account k, az_endpoint k)) (blocks (az_account k, az_endpoint k))
        \<and> (\<forall>ac. ac \<noteq> (az_account k, az_endpoint k) \<longrightarrow> azure_inert (azure_as k A) (blobs ac)))"

definition cloud_services ::
  "'x env \<Rightarrow> 'x services \<Rightarrow> (string option \<Rightarrow> 'x \<Rightarrow> string \<times> string \<rightharpoonup> string)
   \<Rightarrow> (string \<times> string \<Rightarrow> 'x \<Rightarrow> blob_id \<rightharpoonup> string)
   \<Rightarrow> (string \<times> string \<Rightarrow> 'x \<Rightarrow> blob_id \<Rightarrow> string \<rightharpoonup> string) \<Rightarrow> ('x \<Rightarrow> gcs_objects_map)
   \<Rightarrow> 'x process_manager \<Rightarrow> bool" where
  "cloud_services E S s3o blobs blocks gco pm =
     ((s3_endpoints (sv_s3 S) s3o \<and> (\<forall>ac. s3_inert (sv_s3 S) (blobs ac)) \<and> s3_inert (sv_s3 S) gco)
      \<and> (azure_accounts (sv_azure S) blobs blocks \<and> (\<forall>ep. azure_inert (sv_azure S) (s3o ep))
           \<and> azure_inert (sv_azure S) gco)
      \<and> (gcs_service (sv_gcs S) gco \<and> (\<forall>ep. gcs_inert (sv_gcs S) (s3o ep)) \<and> (\<forall>ac. gcs_inert (sv_gcs S) (blobs ac)))
      \<and> (\<forall>ep. commands_keep E pm (s3o ep)) \<and> (\<forall>ac. commands_keep E pm (blobs ac)) \<and> commands_keep E pm gco)"

text \<open>The writers of Google Cloud Storage close without an error.\<close>

definition gcs_closes :: "'x services \<Rightarrow> bool" where
  "gcs_closes S = (\<forall>b n d x. fst (gcs_close (sv_gcs S) b n d x) = None)"

lemma remotePathOn_bucket:
  "valid_name b \<Longrightarrow> \<not> is_rooted (remotePathOn (b @ ''/'' @ p) dep d)"
  by (cases b) (auto simp: valid_name_def remotePathOn_def pathPrefix_def is_rooted_def)

definition named_bucket :: "destination \<Rightarrow> bool" where
  "named_bucket dest =
     (if dest_Type dest = ''s3'' then valid_name (toString (dest_Config dest ''bucket_name'')) else True)"

lemma factory_paths:
  "s3_remotePathFn (factory_S3 E conf dest ca) = RemotePathFunc E (toString (dest_Config dest ''bucket_name'')
     @ ''/'' @ toString (dest_Config dest ''bucket_path'')) (bc_DeploymentName conf)"
  "azc_remotePathFn (factory_Azure E conf dest)
     = RemotePathFunc E (toString (dest_Config dest ''path'')) (bc_DeploymentName conf)"
  "azc_container (factory_Azure E conf dest) = toString (dest_Config dest ''container'')"
  "gc_remotePathFn (factory_GCS E conf dest) = RemotePathFunc E [] (bc_DeploymentName conf)"
  "gc_bucketName (factory_GCS E conf dest) = toString (dest_Config dest ''bucket_name'')"
  "sc_remotePathFn (factory_SCP E conf dest)
     = RemotePathFunc E (toString (dest_Config dest ''destination'')) (bc_DeploymentName conf)"
  by (simp_all add: factory_S3_def S3_New_def factory_Azure_def Azure_New_def factory_GCS_def GCS_New_def
      factory_SCP_def SCP_New_def Let_def)

lemma uploader_for_cases:
  assumes "uploader_for E S conf ca dest = Some u"
  obtains (s3) "dest_Type dest = ''s3''" "upl_Upload u = S3_Upload E (sv_s3 S) (factory_S3 E conf dest ca)"
  | (scp) "dest_Type dest = ''scp''" "upl_Upload u = SCP_Upload E (factory_SCP E conf dest)"
  | (azure) "dest_Type dest = ''azure''" "upl_Upload u = Azure_Upload E (sv_azure S) (factory_Azure E conf dest)"
  | (gcs) "dest_Type dest = ''gcs''" "upl_Upload u = GCS_Upload E (sv_gcs S) (factory_GCS E conf dest)"
  using assms
  by (auto simp: uploader_for_def s3_uploader_def scp_uploader_def azure_uploader_def gcs_uploader_def
      split: if_splits)

lemma factory_sdk:
  "sdk_endpoint (sdk_of (factory_S3 E conf dest ca)) = s3_endpoint dest"
  "(az_account (Azure_sdk (factory_Azure E conf dest)), az_endpoint (Azure_sdk (factory_Azure E conf dest)))
     = azure_account dest"
  by (simp_all add: sdk_of_def s3_endpoint_def factory_S3_def S3_New_def azure_account_def Azure_sdk_def
      factory_Azure_def Azure_New_def Let_def)

definition cloud_run ::
  "'x env \<Rightarrow> 'x services \<Rightarrow> backup_config \<Rightarrow> (string option \<Rightarrow> 'x \<Rightarrow> string \<times> string \<rightharpoonup> string)
   \<Rightarrow> (string \<times> string \<Rightarrow> 'x \<Rightarrow> blob_id \<rightharpoonup> string)
   \<Rightarrow> (string \<times> string \<Rightarrow> 'x \<Rightarrow> blob_id \<Rightarrow> string \<rightharpoonup> string) \<Rightarrow> ('x \<Rightarrow> gcs_objects_map)
   \<Rightarrow> 'x process_manager \<Rightarrow> bool" where
  "cloud_run E S conf s3o blobs blocks gco pm =
     (cloud_services E S s3o blobs blocks gco pm \<and> good_folder E (bc_SourceFolder conf))"

lemma cloud_run_frames:
  assumes "cloud_run E S conf s3o blobs blocks gco pm"
  shows "commands_keep E pm (s3o ep)" "commands_keep E pm (blobs ac)" "commands_keep E pm gco"
    "s3_inert (s3_as k (sv_s3 S)) (blobs ac)" "s3_inert (s3_as k (sv_s3 S)) gco"
    "azure_inert (azure_as m (sv_azure S)) (s3o ep)" "azure_inert (azure_as m (sv_azure S)) gco"
    "gcs_inert (sv_gcs S) (s3o ep)" "gcs_inert (sv_gcs S) (blobs ac)"
  using assms by (cases ac; simp add: cloud_run_def cloud_services_def inert_as)+

text \<open>A destination stores nothing in a store that its own client leaves alone.\<close>

lemma uploader_for_other:
  assumes "uploader_for E S conf ca dest = Some u"
    and "\<And>pm. L pm \<Longrightarrow> commands_keep E pm st"
    and "\<And>pm. L pm \<Longrightarrow> dest_Type dest = ''s3'' \<Longrightarrow> s3_inert (s3_as (sdk_of (factory_S3 E conf dest ca)) (sv_s3 S)) st"
    and "\<And>pm. L pm \<Longrightarrow> dest_Type dest = ''azure'' \<Longrightarrow>
      azure_inert (azure_as (Azure_sdk (factory_Azure E conf dest)) (sv_azure S)) st"
    and "\<And>pm. L pm \<Longrightarrow> dest_Type dest = ''gcs'' \<Longrightarrow> gcs_inert (sv_gcs S) st"
  shows "storing_uploader (upl_Upload u) folder st (\<lambda>t. Map.empty) L"
  using assms(1)
proof (cases rule: uploader_for_cases)
  case s3
  show ?thesis
    unfolding s3(2) S3_Upload_as [symmetric, of E "sv_s3 S"]
    by (rule storing_mono [OF s3_other.storing_uploader_axioms])
      (use assms(3) s3(1) in \<open>simp add: factory_paths\<close>)
next
  case scp
  show ?thesis
    unfolding scp(2) by (rule storing_mono [OF scp_other.storing_uploader_axioms])
      (use assms(2) in \<open>simp add: factory_paths\<close>)
next
  case azure
  show ?thesis
    unfolding azure(2) Azure_Upload_as [symmetric, of E "sv_azure S"]
    by (rule storing_mono [OF azure_other.storing_uploader_axioms])
      (use assms(4) azure(1) in \<open>simp add: factory_paths\<close>)
next
  case gcs
  show ?thesis
    unfolding gcs(2) by (rule storing_mono [OF gcs_other.storing_uploader_axioms])
      (use assms(5) gcs(1) in \<open>simp add: factory_paths\<close>)
qed

lemma uploader_for_s3:
  assumes "uploader_for E S conf ca dest = Some u" and "named_bucket dest"
  shows "storing_uploader (upl_Upload u) (bc_SourceFolder conf) (s3o ep) (s3_part E conf ep dest)
    (cloud_run E S conf s3o blobs blocks gco)"
proof (cases "dest_Type dest = ''s3'' \<and> s3_endpoint dest = ep")
  case True
  let ?k = "sdk_of (factory_S3 E conf dest ca)"
  have u: "upl_Upload u = S3_Upload E (sv_s3 S) (factory_S3 E conf dest ca)"
    using True uploader_for_cases [OF assms(1)] by auto
  have "\<not> is_rooted (s3_remote conf dest d)" for d
    using assms(2) True unfolding s3_remote_def named_bucket_def by (intro remotePathOn_bucket) simp
  moreover have "s3_stores (s3_as ?k (sv_s3 S)) (s3o ep) \<and> s3_keeps (s3_as ?k (sv_s3 S)) (s3o ep)"
    if "cloud_run E S conf s3o blobs blocks gco pm" for pm
    using that True factory_sdk(1) [of E conf dest ca]
    unfolding cloud_run_def cloud_services_def s3_endpoints_def by metis
  ultimately show ?thesis
    unfolding u s3_part_def s3_remote_def if_P [OF True] S3_Upload_as [symmetric, of E "sv_s3 S"]
    by (intro storing_mono [OF s3_stored.storing_uploader_axioms])
      (simp add: cloud_run_def factory_paths, blast)
next
  case False
  then have part: "s3_part E conf ep dest = (\<lambda>t. Map.empty)" by (intro ext) (auto simp: s3_part_def)
  have "s3_inert (s3_as (sdk_of (factory_S3 E conf dest ca)) (sv_s3 S)) (s3o ep)"
    if "cloud_run E S conf s3o blobs blocks gco pm" "dest_Type dest = ''s3''" for pm
    using that False factory_sdk(1) [of E conf dest ca]
    unfolding cloud_run_def cloud_services_def s3_endpoints_def by metis
  then show ?thesis
    unfolding part by (rule uploader_for_other [OF assms(1), rotated]) (auto dest: cloud_run_frames)
qed

lemma uploader_for_azure:
  assumes "uploader_for E S conf ca dest = Some u"
  shows "storing_uploader (upl_Upload u) (bc_SourceFolder conf) (blobs ac) (azure_part E conf ac dest)
    (cloud_run E S conf s3o blobs blocks gco)"
proof (cases "dest_Type dest = ''azure'' \<and> azure_account dest = ac")
  case True
  let ?k = "Azure_sdk (factory_Azure E conf dest)"
  have u: "upl_Upload u = Azure_Upload E (sv_azure S) (factory_Azure E conf dest)"
    using True uploader_for_cases [OF assms(1)] by auto
  have "azure_service (azure_as ?k (sv_azure S)) (blobs ac) (blocks ac)"
    if "cloud_run E S conf s3o blobs blocks gco pm" for pm
    using that True factory_sdk(2) [of E conf dest]
    unfolding cloud_run_def cloud_services_def azure_accounts_def by metis
  then show ?thesis
    unfolding u azure_part_def azure_remote_def if_P [OF True]
      factory_paths(3) [where E = E and conf = conf and dest = dest, symmetric]
      Azure_Upload_as [symmetric, of E "sv_azure S"]
    by (intro storing_mono [OF azure_stored.storing_uploader_axioms [where blocks = "blocks ac"]])
      (simp add: cloud_run_def factory_paths, blast)
next
  case False
  then have part: "azure_part E conf ac dest = (\<lambda>t. Map.empty)" by (intro ext) (auto simp: azure_part_def)
  have "azure_inert (azure_as (Azure_sdk (factory_Azure E conf dest)) (sv_azure S)) (blobs ac)"
    if "cloud_run E S conf s3o blobs blocks gco pm" "dest_Type dest = ''azure''" for pm
    using that False factory_sdk(2) [of E conf dest]
    unfolding cloud_run_def cloud_services_def azure_accounts_def by metis
  then show ?thesis
    unfolding part by (rule uploader_for_other [OF assms(1), rotated 2]) (auto dest: cloud_run_frames)
qed

lemma uploader_for_gcs:
  assumes "uploader_for E S conf ca dest = Some u" and "gcs_closes S"
  shows "storing_uploader (upl_Upload u) (bc_SourceFolder conf) gco (gcs_part E conf dest)
    (cloud_run E S conf s3o blobs blocks gco)"
proof (cases "dest_Type dest = ''gcs''")
  case True
  then have u: "upl_Upload u = GCS_Upload E (sv_gcs S) (factory_GCS E conf dest)"
    using uploader_for_cases [OF assms(1)] by auto
  show ?thesis
    unfolding u gcs_part_def if_P [OF True]
      factory_paths(5) [where E = E and conf = conf and dest = dest, symmetric]
    by (rule storing_mono [OF gcs_stored.storing_uploader_axioms])
      (use assms(2) in \<open>simp add: cloud_run_def cloud_services_def factory_paths gcs_closes_def\<close>)
next
  case False
  then have "gcs_part E conf dest = (\<lambda>t. Map.empty)" by (intro ext) (simp add: gcs_part_def)
  then show ?thesis
    using False by (simp only:) (rule uploader_for_other [OF assms(1)], auto dest: cloud_run_frames)
qed

section \<open>All destinations\<close>

text \<open>The clock reading at which each upload starts, and what all destinations leave in a store.\<close>

fun start_times :: "'x uploader list \<Rightarrow> string \<Rightarrow> logger \<Rightarrow> 'x process_manager \<Rightarrow> 'x world \<Rightarrow> nat list" where
  "start_times [] l lg pm w = []"
| "start_times (u # us) l lg pm w =
     w_now w # start_times us l lg pm (snd (upl_Upload u l (destination_logger lg (upl_Name u)) pm w))"

definition stored_by :: "('d \<Rightarrow> nat \<Rightarrow> 'k \<rightharpoonup> string) \<Rightarrow> 'd list \<Rightarrow> nat list \<Rightarrow> ('k \<rightharpoonup> string) \<Rightarrow> ('k \<rightharpoonup> string)" where
  "stored_by part dests ts st = foldl (\<lambda>m (d, t). m ++ part d t) st (zip dests ts)"

lemma start_times_sorted:
  "list_all uploader_ok us \<Longrightarrow> length (start_times us l lg pm w) = length us
     \<and> sorted (start_times us l lg pm w) \<and> (\<forall>t \<in> set (start_times us l lg pm w). w_now w \<le> t)"
proof (induction us arbitrary: w)
  case (Cons u us)
  let ?w = "snd (upl_Upload u l (destination_logger lg (upl_Name u)) pm w)"
  have "w_now w \<le> w_now ?w"
    using Cons.prems uploader_contract.upload_grows [of "upl_Upload u"]
    by (auto simp: uploader_ok_def world_grows_def)
  with Cons.IH [of ?w] Cons.prems show ?case by force
qed simp

lemma run_all_stored:
  assumes "list_all2 (\<lambda>u d. storing_uploader (upl_Upload u) folder store (part d) L) us dests"
    and "L pm" and "list_all (\<lambda>r. r = Ok ()) (fst (run_all us folder lg pm w))"
  shows "store (w_ext (snd (run_all us folder lg pm w)))
    = stored_by part dests (start_times us folder lg pm w) (store (w_ext w))"
  using assms(1,3)
proof (induction us dests arbitrary: w rule: list_all2_induct)
  case (Cons u us d ds)
  obtain r w1 where u: "upl_Upload u folder (destination_logger lg (upl_Name u)) pm w = (r, w1)" by fastforce
  obtain rs w2 where us: "run_all us folder lg pm w1 = (rs, w2)" by fastforce
  from Cons.prems have r: "r = Ok ()" "list_all (\<lambda>r. r = Ok ()) (fst (run_all us folder lg pm w1))"
    by (simp_all add: u us)
  have "store (w_ext w1) = store (w_ext w) ++ part d (w_now w)"
    by (rule storing_uploader.stores [OF Cons.hyps(1) assms(2) u [unfolded r(1)]])
  with Cons.IH [OF r(2)] show ?case by (simp add: u us stored_by_def)
qed (simp add: stored_by_def)

lemma configured_all2:
  assumes "list_all (\<lambda>d. known_type (dest_Type d)) dests"
    and "\<And>d u. d \<in> set dests \<Longrightarrow> uploader_for E S conf ca d = Some u \<Longrightarrow> P u d"
  shows "list_all2 P (List.map_filter (uploader_for E S conf ca) dests) dests"
  using assms
proof (induction dests)
  case (Cons d ds)
  then obtain u where "uploader_for E S conf ca d = Some u"
    by (auto simp: known_type_def uploader_for_def)
  with Cons show ?case by (simp add: List.map_filter_def)
qed (simp add: List.map_filter_def)

lemma Multi_Upload_run_all:
  assumes "Multi_Upload us l lg pm w = (Ok (), w')"
  shows "w' = snd (run_all us l lg pm w) \<and> list_all (\<lambda>r. r = Ok ()) (fst (run_all us l lg pm w))"
proof -
  have ok: "list_all (\<lambda>r. r = Ok ()) (fst (run_all us l lg pm w))"
    using assms Multi_Upload_success [of us l lg pm w] by simp
  then have "list_all (\<lambda>r. \<not> is_panic r) (fst (run_all us l lg pm w))" by (auto simp: list_all_iff)
  with assms ok show ?thesis by (simp add: Multi_Upload_def multi_loop_run_all)
qed

section \<open>The stores side by side\<close>

type_synonym cloud =
  "(string option \<Rightarrow> (string \<times> string \<rightharpoonup> string)) \<times> (string \<times> string \<Rightarrow> mem_azure_state) \<times> gcs_objects_map"

fun on_s3 ::
  "sdk_client \<Rightarrow> ((string \<times> string \<rightharpoonup> string) \<Rightarrow> 'r \<times> (string \<times> string \<rightharpoonup> string)) \<Rightarrow> cloud \<Rightarrow> 'r \<times> cloud" where
  "on_s3 k f (a, b, c) = (case f (a (sdk_endpoint k)) of (r, a1) \<Rightarrow> (r, a(sdk_endpoint k := a1), b, c))"

fun on_azure :: "az_sdk \<Rightarrow> (mem_azure_state \<Rightarrow> 'r \<times> mem_azure_state) \<Rightarrow> cloud \<Rightarrow> 'r \<times> cloud" where
  "on_azure k f (a, b, c) =
     (case f (b (az_account k, az_endpoint k)) of (r, b1) \<Rightarrow> (r, a, b((az_account k, az_endpoint k) := b1), c))"

fun on_gcs :: "(gcs_objects_map \<Rightarrow> 'r \<times> gcs_objects_map) \<Rightarrow> cloud \<Rightarrow> 'r \<times> cloud" where
  "on_gcs f (a, b, c) = (case f c of (r, c1) \<Rightarrow> (r, a, b, c1))"

definition mem_cloud :: "cloud services" where
  "mem_cloud =
     \<lparr>sv_s3 = \<lparr>api_loadConfig = \<lambda>k. on_s3 k (api_loadConfig mem_s3 k),
        api_headBucket = \<lambda>k b. on_s3 k (api_headBucket mem_s3 k b),
        api_createBucket = \<lambda>k b r. on_s3 k (api_createBucket mem_s3 k b r),
        api_putObject = \<lambda>k b n d. on_s3 k (api_putObject mem_s3 k b n d)\<rparr>,
      sv_azure = \<lparr>az_newClient = az_newClient mem_azure,
        az_createIfNotExists = \<lambda>s c. on_azure s (az_createIfNotExists mem_azure s c),
        az_createBlockBlob = \<lambda>s c n. on_azure s (az_createBlockBlob mem_azure s c n),
        az_putBlock = \<lambda>s c n i d. on_azure s (az_putBlock mem_azure s c n i d),
        az_putBlockList = \<lambda>s c n is. on_azure s (az_putBlockList mem_azure s c n is)\<rparr>,
      sv_gcs = \<lparr>gcs_newClient = \<lambda>p. on_gcs (gcs_newClient mem_gcs p), gcs_buckets = \<lambda>p x. gcs_buckets mem_gcs p (snd (snd x)),
        gcs_createBucket = \<lambda>p b. on_gcs (gcs_createBucket mem_gcs p b),
        gcs_write = \<lambda>b n d c. on_gcs (gcs_write mem_gcs b n d c),
        gcs_close = \<lambda>b n d. on_gcs (gcs_close mem_gcs b n d)\<rparr>\<rparr>"

text \<open>The stores of the model in memory.\<close>

definition cloud_s3 :: "string option \<Rightarrow> cloud \<Rightarrow> string \<times> string \<rightharpoonup> string" where
  "cloud_s3 ep x = fst x ep"

definition cloud_blobs :: "string \<times> string \<Rightarrow> cloud \<Rightarrow> blob_id \<rightharpoonup> string" where
  "cloud_blobs ac x = fst (fst (snd x) ac)"

definition cloud_blocks :: "string \<times> string \<Rightarrow> cloud \<Rightarrow> blob_id \<Rightarrow> string \<rightharpoonup> string" where
  "cloud_blocks ac x = snd (fst (snd x) ac)"

definition cloud_gcs :: "cloud \<Rightarrow> gcs_objects_map" where
  "cloud_gcs x = snd (snd x)"

lemmas cloud_stores = cloud_s3_def cloud_blobs_def cloud_blocks_def cloud_gcs_def

lemma mem_cloud_s3:
  "s3_endpoints (sv_s3 mem_cloud) cloud_s3" "s3_inert (sv_s3 mem_cloud) (cloud_blobs ac)"
  "s3_inert (sv_s3 mem_cloud) cloud_gcs"
  by (auto simp: mem_cloud_def s3_endpoints_def s3_stores_def s3_keeps_def s3_inert_def cloud_stores mem_s3_def
      split: prod.splits)

lemma mem_cloud_azure:
  "azure_accounts (sv_azure mem_cloud) cloud_blobs cloud_blocks" "azure_inert (sv_azure mem_cloud) (cloud_s3 ep)"
  "azure_inert (sv_azure mem_cloud) cloud_gcs"
  by (auto simp: mem_cloud_def azure_accounts_def azure_service_def took_effect_def azure_inert_def cloud_stores
      mem_azure_def split: prod.splits)

lemma mem_cloud_gcs:
  "gcs_service (sv_gcs mem_cloud) cloud_gcs" "gcs_inert (sv_gcs mem_cloud) (cloud_s3 ep)"
  "gcs_inert (sv_gcs mem_cloud) (cloud_blobs ac)" "gcs_closes mem_cloud"
  by (auto simp: mem_cloud_def gcs_service_def gcs_inert_def gcs_closes_def cloud_stores mem_gcs_def)

lemma mem_cloud_services:
  "cloud_services (still_env node) mem_cloud cloud_s3 cloud_blobs cloud_blocks cloud_gcs (\<lambda>c x. (([], None), x))"
  by (simp add: cloud_services_def mem_cloud_s3 mem_cloud_azure mem_cloud_gcs commands_keep_def still_env_def)

lemma mem_cloud_accepts:
  "s3_reliable (sv_s3 mem_cloud)" "azure_reliable (sv_azure mem_cloud)" "gcs_accepts (sv_gcs mem_cloud)"
  by (auto simp: mem_cloud_def s3_reliable_def azure_reliable_def gcs_accepts_def mem_s3_def mem_azure_def mem_gcs_def
      split: prod.splits)

end
