(* ===== verification/Test_Doubles.thy ===== *)
theory Test_Doubles
  imports Uploaders
begin

text \<open>
  The test doubles of the two interfaces that the program's tests replace: the process
  manager (\<open>src/process/fakes/process_manager.go\<close>) and the uploader factory
  (\<open>src/upload/fakes/uploader_factory.go\<close>).  Every method of a double has the same five
  functions over its own stub, argument list and configured results; they are defined once
  and used by the methods.  The laws of a double are the locale \<open>fake_double\<close>, which is
  interpreted for the five methods; a mutex of a double is held for no longer than a
  function runs, so a function is one step.
\<close>

section \<open>The fields and functions of one method\<close>

text \<open>
  The stub is a closure with a state \<open>'s\<close> of its own; it does not call the double.  A
  result for the n-th call is looked up by the number of calls before it.
\<close>

record ('a, 'r, 's) fake_method =
  fm_stub :: "('a \<Rightarrow> 's \<Rightarrow> 'r \<times> 's) option"
  fm_argsForCall :: "'a list"
  fm_returns :: 'r
  fm_returnsOnCall :: "int \<rightharpoonup> 'r"

definition fm_zero :: "'r \<Rightarrow> ('a, 'r, 's) fake_method" where
  "fm_zero zero = \<lparr>fm_stub = None, fm_argsForCall = [], fm_returns = zero, fm_returnsOnCall = Map.empty\<rparr>"

definition fm_callCount :: "('a, 'r, 's) fake_method \<Rightarrow> int" where
  "fm_callCount m = int (length (fm_argsForCall m))"

definition fm_specific :: "('a, 'r, 's) fake_method \<Rightarrow> 'r option" where
  "fm_specific m = fm_returnsOnCall m (fm_callCount m)"

definition fm_record :: "'a \<Rightarrow> ('a, 'r, 's) fake_method \<Rightarrow> ('a, 'r, 's) fake_method" where
  "fm_record a m = m\<lparr>fm_argsForCall := fm_argsForCall m @ [a]\<rparr>"

definition fm_result :: "'a \<Rightarrow> 'r option \<Rightarrow> ('a, 'r, 's) fake_method \<Rightarrow> 's \<Rightarrow> 'r \<times> 's" where
  "fm_result a specific m s =
     (case fm_stub m of
        Some stub \<Rightarrow> stub a s
      | None \<Rightarrow> (case specific of Some ret \<Rightarrow> (ret, s) | None \<Rightarrow> (fm_returns m, s)))"

definition fm_argsAt :: "int \<Rightarrow> ('a, 'r, 's) fake_method \<Rightarrow> 'a res" where
  "fm_argsAt i m =
     (if 0 \<le> i \<and> i < fm_callCount m then Ok (fm_argsForCall m ! nat i) else Panic ''index out of range'')"

definition fm_setReturns :: "'r \<Rightarrow> ('a, 'r, 's) fake_method \<Rightarrow> ('a, 'r, 's) fake_method" where
  "fm_setReturns r m = m\<lparr>fm_stub := None, fm_returns := r\<rparr>"

definition fm_setReturnsOnCall :: "int \<Rightarrow> 'r \<Rightarrow> ('a, 'r, 's) fake_method \<Rightarrow> ('a, 'r, 's) fake_method" where
  "fm_setReturnsOnCall i r m = m\<lparr>fm_stub := None, fm_returnsOnCall := (fm_returnsOnCall m)(i \<mapsto> r)\<rparr>"

section \<open>The recorded invocations\<close>

text \<open>The \<open>interface{}\<close> values that the doubles record; a nil map is the empty one.\<close>

datatype fake_arg = ArgCmd cmd | ArgDestination destination | ArgString string

type_synonym invocations = "string \<rightharpoonup> fake_arg list list"

definition recordInvocation :: "string \<Rightarrow> fake_arg list \<Rightarrow> invocations \<Rightarrow> invocations" where
  "recordInvocation key args recorded =
     (case recorded key of None \<Rightarrow> recorded(key \<mapsto> [args]) | Some calls \<Rightarrow> recorded(key \<mapsto> calls @ [args]))"

section \<open>The fake process manager\<close>

record 's fake_process_manager =
  fpm_Start :: "(cmd, string \<times> gerror option, 's) fake_method"
  fpm_invocations :: invocations

definition newFakeProcessManager :: "'s fake_process_manager" where
  "newFakeProcessManager = \<lparr>fpm_Start = fm_zero ([], None), fpm_invocations = Map.empty\<rparr>"

definition FakePM_Start ::
  "cmd \<Rightarrow> 's fake_process_manager \<Rightarrow> 's \<Rightarrow> ((string \<times> gerror option) \<times> 's fake_process_manager) \<times> 's" where
  "FakePM_Start arg1 fake s =
     (let specificReturn = fm_specific (fpm_Start fake);
          fake1 = fake\<lparr>fpm_Start := fm_record arg1 (fpm_Start fake),
                       fpm_invocations := recordInvocation ''Start'' [ArgCmd arg1] (fpm_invocations fake)\<rparr>
      in case fm_result arg1 specificReturn (fpm_Start fake1) s of (ret, s1) \<Rightarrow> ((ret, fake1), s1))"

definition FakePM_StartCallCount :: "'s fake_process_manager \<Rightarrow> int" where
  "FakePM_StartCallCount fake = fm_callCount (fpm_Start fake)"

definition FakePM_StartArgsForCall :: "int \<Rightarrow> 's fake_process_manager \<Rightarrow> cmd res" where
  "FakePM_StartArgsForCall i fake = fm_argsAt i (fpm_Start fake)"

definition FakePM_StartReturns ::
  "string \<Rightarrow> gerror option \<Rightarrow> 's fake_process_manager \<Rightarrow> 's fake_process_manager" where
  "FakePM_StartReturns result1 result2 fake =
     fake\<lparr>fpm_Start := fm_setReturns (result1, result2) (fpm_Start fake)\<rparr>"

definition FakePM_StartReturnsOnCall ::
  "int \<Rightarrow> string \<Rightarrow> gerror option \<Rightarrow> 's fake_process_manager \<Rightarrow> 's fake_process_manager" where
  "FakePM_StartReturnsOnCall i result1 result2 fake =
     fake\<lparr>fpm_Start := fm_setReturnsOnCall i (result1, result2) (fpm_Start fake)\<rparr>"

definition FakePM_Invocations :: "'s fake_process_manager \<Rightarrow> invocations" where
  "FakePM_Invocations fake = fpm_invocations fake"

section \<open>The fake uploader factory\<close>

text \<open>The results are pointers to clients, so a method that is not configured returns nil.\<close>

record ('x, 's) fake_uploader_factory =
  ffa_S3 :: "(destination \<times> string, 'x s3_client option, 's) fake_method"
  ffa_SCP :: "(destination, 'x scp_client option, 's) fake_method"
  ffa_Azure :: "(destination, 'x azure_client option, 's) fake_method"
  ffa_GCS :: "(destination, 'x gcs_client option, 's) fake_method"
  ffa_invocations :: invocations

definition newFakeUploaderFactory :: "('x, 's) fake_uploader_factory" where
  "newFakeUploaderFactory = \<lparr>ffa_S3 = fm_zero None, ffa_SCP = fm_zero None, ffa_Azure = fm_zero None,
     ffa_GCS = fm_zero None, ffa_invocations = Map.empty\<rparr>"

definition FakeFactory_S3 ::
  "destination \<Rightarrow> string \<Rightarrow> ('x, 's) fake_uploader_factory \<Rightarrow> 's
   \<Rightarrow> ('x s3_client option \<times> ('x, 's) fake_uploader_factory) \<times> 's" where
  "FakeFactory_S3 destination caCertPath fake s =
     (let specificReturn = fm_specific (ffa_S3 fake);
          fake1 = fake\<lparr>ffa_S3 := fm_record (destination, caCertPath) (ffa_S3 fake),
                       ffa_invocations := recordInvocation ''S3''
                         [ArgDestination destination, ArgString caCertPath] (ffa_invocations fake)\<rparr>
      in case fm_result (destination, caCertPath) specificReturn (ffa_S3 fake1) s of
           (ret, s1) \<Rightarrow> ((ret, fake1), s1))"

definition FakeFactory_S3CallCount :: "('x, 's) fake_uploader_factory \<Rightarrow> int" where
  "FakeFactory_S3CallCount fake = fm_callCount (ffa_S3 fake)"

definition FakeFactory_S3ArgsForCall ::
  "int \<Rightarrow> ('x, 's) fake_uploader_factory \<Rightarrow> (destination \<times> string) res" where
  "FakeFactory_S3ArgsForCall i fake = fm_argsAt i (ffa_S3 fake)"

definition FakeFactory_S3Returns ::
  "'x s3_client option \<Rightarrow> ('x, 's) fake_uploader_factory \<Rightarrow> ('x, 's) fake_uploader_factory" where
  "FakeFactory_S3Returns result1 fake = fake\<lparr>ffa_S3 := fm_setReturns result1 (ffa_S3 fake)\<rparr>"

definition FakeFactory_S3ReturnsOnCall ::
  "int \<Rightarrow> 'x s3_client option \<Rightarrow> ('x, 's) fake_uploader_factory \<Rightarrow> ('x, 's) fake_uploader_factory" where
  "FakeFactory_S3ReturnsOnCall i result1 fake =
     fake\<lparr>ffa_S3 := fm_setReturnsOnCall i result1 (ffa_S3 fake)\<rparr>"

definition FakeFactory_SCP ::
  "destination \<Rightarrow> ('x, 's) fake_uploader_factory \<Rightarrow> 's
   \<Rightarrow> ('x scp_client option \<times> ('x, 's) fake_uploader_factory) \<times> 's" where
  "FakeFactory_SCP destination fake s =
     (let specificReturn = fm_specific (ffa_SCP fake);
          fake1 = fake\<lparr>ffa_SCP := fm_record destination (ffa_SCP fake),
                       ffa_invocations := recordInvocation ''SCP'' [ArgDestination destination] (ffa_invocations fake)\<rparr>
      in case fm_result destination specificReturn (ffa_SCP fake1) s of (ret, s1) \<Rightarrow> ((ret, fake1), s1))"

definition FakeFactory_SCPCallCount :: "('x, 's) fake_uploader_factory \<Rightarrow> int" where
  "FakeFactory_SCPCallCount fake = fm_callCount (ffa_SCP fake)"

definition FakeFactory_SCPArgsForCall :: "int \<Rightarrow> ('x, 's) fake_uploader_factory \<Rightarrow> destination res" where
  "FakeFactory_SCPArgsForCall i fake = fm_argsAt i (ffa_SCP fake)"

definition FakeFactory_SCPReturns ::
  "'x scp_client option \<Rightarrow> ('x, 's) fake_uploader_factory \<Rightarrow> ('x, 's) fake_uploader_factory" where
  "FakeFactory_SCPReturns result1 fake = fake\<lparr>ffa_SCP := fm_setReturns result1 (ffa_SCP fake)\<rparr>"

definition FakeFactory_SCPReturnsOnCall ::
  "int \<Rightarrow> 'x scp_client option \<Rightarrow> ('x, 's) fake_uploader_factory \<Rightarrow> ('x, 's) fake_uploader_factory" where
  "FakeFactory_SCPReturnsOnCall i result1 fake =
     fake\<lparr>ffa_SCP := fm_setReturnsOnCall i result1 (ffa_SCP fake)\<rparr>"

definition FakeFactory_Azure ::
  "destination \<Rightarrow> ('x, 's) fake_uploader_factory \<Rightarrow> 's
   \<Rightarrow> ('x azure_client option \<times> ('x, 's) fake_uploader_factory) \<times> 's" where
  "FakeFactory_Azure destination fake s =
     (let specificReturn = fm_specific (ffa_Azure fake);
          fake1 = fake\<lparr>ffa_Azure := fm_record destination (ffa_Azure fake),
                       ffa_invocations := recordInvocation ''Azure'' [ArgDestination destination] (ffa_invocations fake)\<rparr>
      in case fm_result destination specificReturn (ffa_Azure fake1) s of (ret, s1) \<Rightarrow> ((ret, fake1), s1))"

definition FakeFactory_AzureCallCount :: "('x, 's) fake_uploader_factory \<Rightarrow> int" where
  "FakeFactory_AzureCallCount fake = fm_callCount (ffa_Azure fake)"

definition FakeFactory_AzureArgsForCall :: "int \<Rightarrow> ('x, 's) fake_uploader_factory \<Rightarrow> destination res" where
  "FakeFactory_AzureArgsForCall i fake = fm_argsAt i (ffa_Azure fake)"

definition FakeFactory_AzureReturns ::
  "'x azure_client option \<Rightarrow> ('x, 's) fake_uploader_factory \<Rightarrow> ('x, 's) fake_uploader_factory" where
  "FakeFactory_AzureReturns result1 fake = fake\<lparr>ffa_Azure := fm_setReturns result1 (ffa_Azure fake)\<rparr>"

definition FakeFactory_AzureReturnsOnCall ::
  "int \<Rightarrow> 'x azure_client option \<Rightarrow> ('x, 's) fake_uploader_factory \<Rightarrow> ('x, 's) fake_uploader_factory" where
  "FakeFactory_AzureReturnsOnCall i result1 fake =
     fake\<lparr>ffa_Azure := fm_setReturnsOnCall i result1 (ffa_Azure fake)\<rparr>"

definition FakeFactory_GCS ::
  "destination \<Rightarrow> ('x, 's) fake_uploader_factory \<Rightarrow> 's
   \<Rightarrow> ('x gcs_client option \<times> ('x, 's) fake_uploader_factory) \<times> 's" where
  "FakeFactory_GCS destination fake s =
     (let specificReturn = fm_specific (ffa_GCS fake);
          fake1 = fake\<lparr>ffa_GCS := fm_record destination (ffa_GCS fake),
                       ffa_invocations := recordInvocation ''GCS'' [ArgDestination destination] (ffa_invocations fake)\<rparr>
      in case fm_result destination specificReturn (ffa_GCS fake1) s of (ret, s1) \<Rightarrow> ((ret, fake1), s1))"

definition FakeFactory_GCSCallCount :: "('x, 's) fake_uploader_factory \<Rightarrow> int" where
  "FakeFactory_GCSCallCount fake = fm_callCount (ffa_GCS fake)"

definition FakeFactory_GCSArgsForCall :: "int \<Rightarrow> ('x, 's) fake_uploader_factory \<Rightarrow> destination res" where
  "FakeFactory_GCSArgsForCall i fake = fm_argsAt i (ffa_GCS fake)"

definition FakeFactory_GCSReturns ::
  "'x gcs_client option \<Rightarrow> ('x, 's) fake_uploader_factory \<Rightarrow> ('x, 's) fake_uploader_factory" where
  "FakeFactory_GCSReturns result1 fake = fake\<lparr>ffa_GCS := fm_setReturns result1 (ffa_GCS fake)\<rparr>"

definition FakeFactory_GCSReturnsOnCall ::
  "int \<Rightarrow> 'x gcs_client option \<Rightarrow> ('x, 's) fake_uploader_factory \<Rightarrow> ('x, 's) fake_uploader_factory" where
  "FakeFactory_GCSReturnsOnCall i result1 fake =
     fake\<lparr>ffa_GCS := fm_setReturnsOnCall i result1 (ffa_GCS fake)\<rparr>"

definition FakeFactory_Invocations :: "('x, 's) fake_uploader_factory \<Rightarrow> invocations" where
  "FakeFactory_Invocations fake = ffa_invocations fake"

section \<open>The contract of a double\<close>

lemmas fm_defs = fm_zero_def fm_callCount_def fm_specific_def fm_record_def fm_result_def fm_argsAt_def
  fm_setReturns_def fm_setReturnsOnCall_def

text \<open>What the tests rely on: a sequence of calls of one method.\<close>

fun call_all :: "('a \<Rightarrow> 'f \<Rightarrow> 's \<Rightarrow> ('r \<times> 'f) \<times> 's) \<Rightarrow> 'a list \<Rightarrow> 'f \<Rightarrow> 's \<Rightarrow> ('r list \<times> 'f) \<times> 's" where
  "call_all call [] f s = (([], f), s)"
| "call_all call (a # as) f s =
     (case call a f s of
        ((r, f1), s1) \<Rightarrow> (case call_all call as f1 s1 of ((rs, f2), s2) \<Rightarrow> ((r # rs, f2), s2)))"

text \<open>The result configured for the n-th call.\<close>

definition fm_configured :: "('a, 'r, 's) fake_method \<Rightarrow> int \<Rightarrow> 'r" where
  "fm_configured m i = (case fm_returnsOnCall m i of Some r \<Rightarrow> r | None \<Rightarrow> fm_returns m)"

lemma fm_configured_make [simp]:
  "fm_configured \<lparr>fm_stub = st, fm_argsForCall = as, fm_returns = r, fm_returnsOnCall = on\<rparr> i
     = (case on i of Some x \<Rightarrow> x | None \<Rightarrow> r)"
  by (simp add: fm_configured_def split: option.split)

text \<open>A stub called along a list, with its own state.\<close>

fun stub_all :: "('a \<Rightarrow> 's \<Rightarrow> 'r \<times> 's) \<Rightarrow> 'a list \<Rightarrow> 's \<Rightarrow> 'r list \<times> 's" where
  "stub_all g [] s = ([], s)"
| "stub_all g (a # as) s = (case g a s of (r, s1) \<Rightarrow> (case stub_all g as s1 of (rs, s2) \<Rightarrow> (r # rs, s2)))"

text \<open>The invocations under a key agree with the arguments of the method.\<close>

definition agrees :: "string \<Rightarrow> ('a \<Rightarrow> fake_arg list) \<Rightarrow> invocations \<Rightarrow> 'a list \<Rightarrow> bool" where
  "agrees key enc recorded as = (recorded key = (if as = [] then None else Some (map enc as)))"

lemma recordInvocation_agrees:
  "agrees key enc recorded as \<Longrightarrow> agrees key enc (recordInvocation key (enc a) recorded) (as @ [a])"
  by (auto simp: agrees_def recordInvocation_def split: if_splits)

lemma recordInvocation_other [simp]: "k \<noteq> key \<Longrightarrow> recordInvocation key args recorded k = recorded k"
  by (simp add: recordInvocation_def split: option.split)

text \<open>
  The laws of one method of a double: its call appends the arguments to the list and to the
  invocations under its key, and its result comes from the stub, else from the result set
  for this call, else from the default.
\<close>

locale fake_double =
  fixes call :: "'a \<Rightarrow> 'f \<Rightarrow> 's \<Rightarrow> ('r \<times> 'f) \<times> 's"
    and part :: "'f \<Rightarrow> ('a, 'r, 's) fake_method"
    and invs :: "'f \<Rightarrow> invocations"
    and key :: string
    and enc :: "'a \<Rightarrow> fake_arg list"
  assumes call_part: "part (snd (fst (call a f s))) = fm_record a (part f)"
    and call_invs: "invs (snd (fst (call a f s))) = recordInvocation key (enc a) (invs f)"
    and call_value: "(fst (fst (call a f s)), snd (call a f s)) = fm_result a (fm_specific (part f)) (part f) s"
begin

lemma calls_part:
  "part (snd (fst (call_all call as f s))) = (part f)\<lparr>fm_argsForCall := fm_argsForCall (part f) @ as\<rparr>"
proof (induction as arbitrary: f s)
  case (Cons a as)
  then show ?case using call_part [of a f s] by (simp add: case_prod_beta fm_record_def)
qed simp

lemma calls_agree:
  "agrees key enc (invs f) (fm_argsForCall (part f)) \<Longrightarrow>
   agrees key enc (invs (snd (fst (call_all call as f s)))) (fm_argsForCall (part f) @ as)"
proof (induction as arbitrary: f s)
  case (Cons a as)
  have "agrees key enc (invs (snd (fst (call a f s)))) (fm_argsForCall (part (snd (fst (call a f s)))))"
    using recordInvocation_agrees [OF Cons.prems] by (simp add: call_part call_invs fm_record_def)
  from Cons.IH [OF this] show ?case by (simp add: case_prod_beta call_part fm_record_def)
qed simp

lemma calls_other_keys: "k \<noteq> key \<Longrightarrow> invs (snd (fst (call_all call as f s))) k = invs f k"
  by (induction as arbitrary: f s) (simp_all add: case_prod_beta call_invs)

lemma calls_configured:
  "fm_stub (part f) = None \<Longrightarrow>
   fst (fst (call_all call as f s))
     = map (\<lambda>i. fm_configured (part f) (fm_callCount (part f) + int i)) [0..<length as]
   \<and> snd (call_all call as f s) = s"
proof (induction as arbitrary: f s)
  case (Cons a as)
  obtain r f1 s1 where c: "call a f s = ((r, f1), s1)" by (metis prod.collapse)
  have part: "part f1 = fm_record a (part f)" using call_part [of a f s] by (simp add: c)
  have "r = fm_configured (part f) (fm_callCount (part f)) \<and> s1 = s"
    using call_value [of a f s] Cons.prems
    by (simp add: c fm_result_def fm_specific_def fm_configured_def split: option.splits)
  moreover have "fm_stub (part f1) = None" using Cons.prems by (simp add: part fm_record_def)
  note Cons.IH [OF this, of s]
  moreover have "fm_configured (part f1) = fm_configured (part f)"
    by (simp add: part fm_record_def fm_configured_def fun_eq_iff split: option.split)
  moreover have "fm_callCount (part f1) = fm_callCount (part f) + 1"
    by (simp add: part fm_record_def fm_callCount_def)
  ultimately show ?case
    by (simp add: c case_prod_beta upt_conv_Cons map_Suc_upt [symmetric] add.assoc del: upt_Suc)
qed simp

lemma calls_stub:
  "fm_stub (part f) = Some g \<Longrightarrow>
   (fst (fst (call_all call as f s)), snd (call_all call as f s)) = stub_all g as s"
proof (induction as arbitrary: f s)
  case (Cons a as)
  obtain r f1 s1 where c: "call a f s = ((r, f1), s1)" by (metis prod.collapse)
  have "fm_stub (part f1) = Some g" using call_part [of a f s] Cons.prems by (simp add: c fm_record_def)
  note rest = Cons.IH [OF this, of s1]
  have "g a s = (r, s1)" using call_value [of a f s] Cons.prems by (simp add: c fm_result_def)
  with rest show ?case by (simp add: c case_prod_beta prod_eq_iff)
qed simp

end

interpretation fake_start: fake_double FakePM_Start fpm_Start fpm_invocations "''Start''" "\<lambda>c. [ArgCmd c]"
  by unfold_locales (simp_all add: FakePM_Start_def fm_result_def fm_record_def Let_def case_prod_beta split: option.split)

interpretation fake_s3: fake_double "\<lambda>(d, ca). FakeFactory_S3 d ca" ffa_S3 ffa_invocations "''S3''"
  "\<lambda>(d, ca). [ArgDestination d, ArgString ca]"
  by unfold_locales (simp_all add: FakeFactory_S3_def fm_result_def fm_record_def Let_def case_prod_beta split: option.split)

interpretation fake_scp: fake_double FakeFactory_SCP ffa_SCP ffa_invocations "''SCP''" "\<lambda>d. [ArgDestination d]"
  by unfold_locales (simp_all add: FakeFactory_SCP_def fm_result_def fm_record_def Let_def case_prod_beta split: option.split)

interpretation fake_azure: fake_double FakeFactory_Azure ffa_Azure ffa_invocations "''Azure''" "\<lambda>d. [ArgDestination d]"
  by unfold_locales (simp_all add: FakeFactory_Azure_def fm_result_def fm_record_def Let_def case_prod_beta split: option.split)

interpretation fake_gcs: fake_double FakeFactory_GCS ffa_GCS ffa_invocations "''GCS''" "\<lambda>d. [ArgDestination d]"
  by unfold_locales (simp_all add: FakeFactory_GCS_def fm_result_def fm_record_def Let_def case_prod_beta split: option.split)

section \<open>Properties\<close>

text \<open>A fake process manager with a default result and the results of single calls.\<close>

definition configured_fake ::
  "string \<times> gerror option \<Rightarrow> (int \<times> string \<times> gerror option) list \<Rightarrow> 's fake_process_manager" where
  "configured_fake usual overrides =
     fold (\<lambda>(i, out, err). FakePM_StartReturnsOnCall i out err) overrides
       (FakePM_StartReturns (fst usual) (snd usual) newFakeProcessManager)"

lemma configured_fake_fields:
  "fpm_Start (configured_fake usual overrides) =
     \<lparr>fm_stub = None, fm_argsForCall = [], fm_returns = usual, fm_returnsOnCall = map_of (rev overrides)\<rparr>
   \<and> fpm_invocations (configured_fake usual overrides) = Map.empty"
proof (induction overrides rule: rev_induct)
  case (snoc x xs)
  then show ?case
    by (cases x) (simp add: configured_fake_def FakePM_StartReturnsOnCall_def fm_setReturnsOnCall_def fun_eq_iff)
qed (simp add: configured_fake_def FakePM_StartReturns_def newFakeProcessManager_def fm_defs)

text \<open>C39: The fake process manager replays and records: after \<open>StartReturns\<close> and any list of
  \<open>StartReturnsOnCall\<close> a sequence of calls of \<open>Start\<close> returns, call by call, the last result
  set for that call, else the default; \<open>StartCallCount\<close> is their number, \<open>StartArgsForCall\<close>
  gives the command of each and panics outside the range, and \<open>Invocations\<close> has the commands
  in order under the key \<open>Start\<close> and nothing else.\<close>

theorem fake_Start_replays:
  "let run = call_all FakePM_Start cs (configured_fake usual overrides) s; fake = snd (fst run) in
   fst (fst run) = map (\<lambda>i. case map_of (rev overrides) (int i) of Some r \<Rightarrow> r | None \<Rightarrow> usual) [0..<length cs]
   \<and> snd run = s
   \<and> FakePM_StartCallCount fake = int (length cs)
   \<and> (\<forall>i. FakePM_StartArgsForCall i fake
        = (if 0 \<le> i \<and> i < int (length cs) then Ok (cs ! nat i) else Panic ''index out of range''))
   \<and> FakePM_Invocations fake = (if cs = [] then Map.empty else [''Start'' \<mapsto> map (\<lambda>c. [ArgCmd c]) cs])"
proof -
  let ?f = "configured_fake usual overrides :: 'a fake_process_manager"
  let ?g = "snd (fst (call_all FakePM_Start cs ?f s))"
  note c = configured_fake_fields [of usual overrides]
  have part: "fm_argsForCall (fpm_Start ?g) = cs" by (simp add: fake_start.calls_part c)
  have "agrees ''Start'' (\<lambda>c. [ArgCmd c]) (fpm_invocations ?f) (fm_argsForCall (fpm_Start ?f))"
    by (simp add: c agrees_def)
  from fake_start.calls_agree [OF this, of cs s]
  have "fpm_invocations ?g k = (if cs = [] then Map.empty else [''Start'' \<mapsto> map (\<lambda>c. [ArgCmd c]) cs]) k" for k
    using fake_start.calls_other_keys [of k cs ?f s]
    by (cases "k = ''Start''") (simp_all add: agrees_def c)
  then have "FakePM_Invocations ?g = (if cs = [] then Map.empty else [''Start'' \<mapsto> map (\<lambda>c. [ArgCmd c]) cs])"
    by (simp add: FakePM_Invocations_def fun_eq_iff)
  with fake_start.calls_configured [of ?f cs s] part show ?thesis
    by (simp add: Let_def c fm_callCount_def FakePM_StartCallCount_def
        FakePM_StartArgsForCall_def fm_argsAt_def)
qed

end
