(* ===== verification/S3_Test_Client.thy ===== *)
theory S3_Test_Client
  imports Uploaders
begin

text \<open>
  The client of the integration tests (\<open>src/s3testclient/s3_test_client.go\<close>), which drives the
  AWS CLI with the command line of the S3 client: listing, download, deletion of a path and
  of a bucket.  A failed \<open>Expect\<close> of the test framework panics.  \<open>time.Sleep\<close> before the
  second try of the bucket deletion only passes time and is left out; the process manager
  that \<open>New\<close> makes is an argument.
\<close>

section \<open>The client\<close>

record 'x s3_test_client =
  stc_client :: "'x s3_client"
  stc_ProcessMgr :: "'x process_manager"


definition S3Test_New ::
  "'x env \<Rightarrow> 'x process_manager \<Rightarrow> string \<Rightarrow> string \<Rightarrow> string \<Rightarrow> string \<Rightarrow> string \<Rightarrow> 'x s3_test_client res" where
  "S3Test_New E pm endpointURL accessKeyID secretAccessKey basePath region =
     (case CACertPath E of
        Panic m \<Rightarrow> Panic m
      | Err e \<Rightarrow> Panic e
      | Ok caCertPath \<Rightarrow>
          Ok \<lparr>stc_client = S3_New ''s3_test_client'' ''aws'' endpointURL region accessKeyID secretAccessKey
                caCertPath (RemotePathFunc E basePath []),
              stc_ProcessMgr = pm\<rparr>)"

definition region_args :: "string \<Rightarrow> string list" where
  "region_args region = (if region \<noteq> [] then [''--region'', region] else [])"

definition append_args :: "string list \<Rightarrow> cmd \<Rightarrow> cmd" where
  "append_args args c = c\<lparr>cmd_args := cmd_args c @ args\<rparr>"

section \<open>Listing\<close>

definition newline :: char where
  "newline = CHR 0x0A"

definition list_cmd :: "'x s3_test_client \<Rightarrow> string \<Rightarrow> string \<Rightarrow> cmd" where
  "list_cmd c bucketName region =
     S3Cmd (stc_client c) (region_args region @ [''ls'', ''--recursive'', ''s3://'' @ bucketName @ ''/''])"

fun listed_keys :: "string list \<Rightarrow> string list" where
  "listed_keys [] = []"
| "listed_keys (line # lines) =
     (let cols = str_fields line in
      if length cols < 4 then listed_keys lines else cols ! 3 # listed_keys lines)"

definition ListRemotePath ::
  "'x env \<Rightarrow> 'x s3_test_client \<Rightarrow> string \<Rightarrow> string \<Rightarrow> 'x world \<Rightarrow> string list res \<times> 'x world" where
  "ListRemotePath E c bucketName region w =
     (case combinedOutput E (list_cmd c bucketName region) w of
        ((out, Some err), w1) \<Rightarrow> (Err (''command failed: '' @ out @ [newline] @ ''with error:'' @ err), w1)
      | ((out, None), w1) \<Rightarrow> (Ok (listed_keys (str_split newline out)), w1))"

definition RemotePathExistsInBucket ::
  "'x env \<Rightarrow> 'x s3_test_client \<Rightarrow> string \<Rightarrow> string \<Rightarrow> 'x world \<Rightarrow> bool res \<times> 'x world" where
  "RemotePathExistsInBucket E c bucketName remotePath w =
     (case ListRemotePath E c bucketName ''us-west-2'' w of
        (Panic m, w1) \<Rightarrow> (Panic m, w1)
      | (Err e, w1) \<Rightarrow> (Panic e, w1)
      | (Ok keys, w1) \<Rightarrow> (Ok (list_ex (\<lambda>key. str_contains key remotePath) keys), w1))"

section \<open>Commands of the process manager\<close>

definition S3Test_RunCommand :: "'x s3_test_client \<Rightarrow> cmd \<Rightarrow> string \<Rightarrow> 'x world \<Rightarrow> unit res \<times> 'x world" where
  "S3Test_RunCommand c command stepName w =
     (case start_with (stc_ProcessMgr c) command w of
        ((out, Some err), w1) \<Rightarrow> (Err (''error in '' @ stepName @ '': '' @ err @ '', output: '' @ out), w1)
      | ((out, None), w1) \<Rightarrow> (Ok (), w1))"

definition sync_cmd :: "'x s3_test_client \<Rightarrow> string \<Rightarrow> string \<Rightarrow> string \<Rightarrow> cmd" where
  "sync_cmd c bucketName remotePath localPath =
     append_args [''sync'', ''s3://'' @ bucketName @ ''/'' @ remotePath, localPath] (S3Cmd (stc_client c) [])"

text \<open>\<open>mkdirAll\<close> is \<open>os.MkdirAll\<close> with the mode 0777: its answer and what it does outside.\<close>

definition DownloadRemoteDirectory ::
  "(string \<Rightarrow> 'x \<Rightarrow> gerror option \<times> 'x) \<Rightarrow> 'x s3_test_client \<Rightarrow> string \<Rightarrow> string \<Rightarrow> string \<Rightarrow> 'x world
   \<Rightarrow> unit res \<times> 'x world" where
  "DownloadRemoteDirectory mkdirAll c bucketName remotePath localPath w =
     (case on_ext (mkdirAll localPath) w of
        (Some err, w1) \<Rightarrow> (Err err, w1)
      | (None, w1) \<Rightarrow>
          S3Test_RunCommand c (sync_cmd c bucketName remotePath localPath) ''download remote'' w1)"

definition rm_cmd :: "'x s3_test_client \<Rightarrow> string \<Rightarrow> string \<Rightarrow> string \<Rightarrow> cmd" where
  "rm_cmd c bucketName remotePath region =
     append_args ([''rm'', ''--recursive'', ''s3://'' @ bucketName @ ''/'' @ remotePath])
       (append_args (region_args region) (S3Cmd (stc_client c) []))"

definition DeleteRemotePath ::
  "'x s3_test_client \<Rightarrow> string \<Rightarrow> string \<Rightarrow> string \<Rightarrow> 'x world \<Rightarrow> unit res \<times> 'x world" where
  "DeleteRemotePath c bucketName remotePath region w =
     S3Test_RunCommand c (rm_cmd c bucketName remotePath region) ''delete remote path'' w"

definition rb_cmd :: "'x s3_test_client \<Rightarrow> string \<Rightarrow> string \<Rightarrow> cmd" where
  "rb_cmd c bucketName region =
     S3Cmd (stc_client c) (region_args region @ [''rb'', ''--force'', ''s3://'' @ bucketName])"

text \<open>The bucket is removed after its objects, and the removal is tried twice.\<close>

definition remove_bucket :: "'x s3_test_client \<Rightarrow> string \<Rightarrow> string \<Rightarrow> 'x world \<Rightarrow> unit res \<times> 'x world" where
  "remove_bucket c bucketName region w =
     (case S3Test_RunCommand c (rb_cmd c bucketName region) ''delete bucket'' w of
        (Panic m, w1) \<Rightarrow> (Panic m, w1)
      | (Ok _, w1) \<Rightarrow> (Ok (), w1)
      | (Err _, w1) \<Rightarrow>
          (case S3Test_RunCommand c (rb_cmd c bucketName region) ''retry delete bucket'' w1 of
             (Err e, w2) \<Rightarrow> (Panic e, w2)
           | (r, w2) \<Rightarrow> (r, w2)))"

definition DeleteBucket :: "'x s3_test_client \<Rightarrow> string \<Rightarrow> string \<Rightarrow> 'x world \<Rightarrow> unit res \<times> 'x world" where
  "DeleteBucket c bucketName region w =
     (case DeleteRemotePath c bucketName [] region w of
        (Panic m, w1) \<Rightarrow> (Panic m, w1)
      | (Err e, w1) \<Rightarrow> if str_contains e ''NoSuchBucket'' then (Ok (), w1) else (Panic e, w1)
      | (Ok _, w1) \<Rightarrow> remove_bucket c bucketName region w1)"

section \<open>Deletion\<close>

lemma RunCommand_cmds [simp]: "w_cmds (snd (S3Test_RunCommand c command step w)) = w_cmds w @ [command]"
  by (simp add: S3Test_RunCommand_def case_prod_beta split: option.split)

lemma RunCommand_no_panic [simp]: "fst (S3Test_RunCommand c command step w) \<noteq> Panic m"
  by (simp add: S3Test_RunCommand_def case_prod_beta split: option.split)

text \<open>A deletion returns or fails the test; it launches the removal of the bucket at most twice.\<close>

lemma remove_bucket_cmds:
  "fst (remove_bucket c b r w) \<noteq> Err e"
  "w_cmds (snd (remove_bucket c b r w)) = w_cmds w @ [rb_cmd c b r]
   \<or> w_cmds (snd (remove_bucket c b r w)) = w_cmds w @ [rb_cmd c b r, rb_cmd c b r]"
  using RunCommand_cmds [of c "rb_cmd c b r"]
  by (auto simp: remove_bucket_def case_prod_beta split: res.split)

lemma DeleteBucket_cmds:
  "fst (DeleteBucket c b r w) \<noteq> Err e"
  "\<exists>n \<le> 2. w_cmds (snd (DeleteBucket c b r w)) = w_cmds w @ rm_cmd c b [] r # replicate n (rb_cmd c b r)"
proof -
  let ?d = "DeleteRemotePath c b [] r w"
  show "fst (DeleteBucket c b r w) \<noteq> Err e"
    using remove_bucket_cmds(1) [of c b r "snd ?d" e]
    by (auto simp: DeleteBucket_def case_prod_beta split: res.split)
  have rm: "w_cmds (snd ?d) = w_cmds w @ [rm_cmd c b [] r]" by (simp add: DeleteRemotePath_def)
  show "\<exists>n \<le> 2. w_cmds (snd (DeleteBucket c b r w)) = w_cmds w @ rm_cmd c b [] r # replicate n (rb_cmd c b r)"
  proof (cases "fst ?d")
    case (Ok u)
    then have "snd (DeleteBucket c b r w) = snd (remove_bucket c b r (snd ?d))"
      by (simp add: DeleteBucket_def case_prod_beta)
    with remove_bucket_cmds(2) [of c b r "snd ?d"] rm show ?thesis
      by (auto intro: exI [of _ 1] exI [of _ 2] simp: numeral_2_eq_2)
  next
    case (Err x)
    then have "snd (DeleteBucket c b r w) = snd ?d" by (simp add: DeleteBucket_def case_prod_beta)
    with rm show ?thesis by (intro exI [of _ 0]) simp
  next
    case (Panic m)
    then show ?thesis by (simp add: DeleteRemotePath_def)
  qed
qed

section \<open>What a listing says\<close>

text \<open>
  The output format of \<open>aws s3 ls --recursive\<close>: a line per object with its date, time, size
  (aligned to the right) and key.
\<close>

record ls_entry =
  le_date :: string
  le_time :: string
  le_padding :: nat
  le_size :: string
  le_key :: string

definition ls_line :: "ls_entry \<Rightarrow> string" where
  "ls_line e = le_date e @ '' '' @ le_time e @ '' '' @ replicate (le_padding e) (CHR '' '')
     @ le_size e @ '' '' @ le_key e"

definition ls_output :: "ls_entry list \<Rightarrow> string" where
  "ls_output es = concat (map (\<lambda>e. ls_line e @ [newline]) es)"

definition ls_entry_ok :: "ls_entry \<Rightarrow> bool" where
  "ls_entry_ok e = (list_all is_word [le_date e, le_time e, le_size e] \<and> newline \<notin> set (le_key e)
     \<and> le_key e \<noteq> [] \<and> \<not> is_space (hd (le_key e)))"

text \<open>What the client takes for the key: the key up to its first white space.\<close>

definition first_word :: "string \<Rightarrow> string" where
  "first_word s = takeWhile (\<lambda>c. \<not> is_space c) s"

lemma first_word_id_iff: "first_word s = s \<longleftrightarrow> list_all (\<lambda>c. \<not> is_space c) s"
  by (simp add: first_word_def takeWhile_eq_all_conv list_all_iff)

lemma is_space_blank [simp]: "is_space (CHR '' '')"
  by (simp add: is_space_def)

lemma is_space_newline [simp]: "is_space newline"
  by (simp add: is_space_def newline_def)

lemma newline_not_blank [simp]: "CHR '' '' \<noteq> newline" "newline \<noteq> CHR '' ''"
  by (simp_all add: newline_def)

lemma newline_not_in_word: "is_word w \<Longrightarrow> newline \<notin> set w"
  by (auto simp: is_word_def list_all_iff)

lemma str_fields_blank_word:
  assumes "is_word w"
  shows "str_fields (w @ CHR '' '' # s) = w # str_fields s"
  using str_fields_word [OF assms, of "CHR '' '' # s"] by (simp add: str_fields_space)

lemma str_fields_hd:
  assumes "s \<noteq> []" and "\<not> is_space (hd s)"
  shows "\<exists>rest. str_fields s = first_word s # rest"
proof (cases s)
  case (Cons c t)
  with assms(2) show ?thesis by (simp add: str_fields.simps [of "c # t"] first_word_def)
qed (simp add: assms(1))

lemma ls_line_fields:
  assumes "ls_entry_ok e"
  shows "\<exists>rest. str_fields (ls_line e) = le_date e # le_time e # le_size e # first_word (le_key e) # rest"
proof -
  have w: "is_word (le_date e)" "is_word (le_time e)" "is_word (le_size e)"
    and k: "le_key e \<noteq> []" "\<not> is_space (hd (le_key e))"
    using assms by (simp_all add: ls_entry_ok_def)
  from str_fields_hd [OF k] show ?thesis
    by (simp add: ls_line_def w str_fields_blank_word str_fields_spaces list_all_iff)
qed

lemma newline_not_in_line: "ls_entry_ok e \<Longrightarrow> newline \<notin> set (ls_line e)"
  using newline_not_in_word by (auto simp: ls_line_def ls_entry_ok_def)

lemma listed_keys_output:
  "list_all ls_entry_ok es \<Longrightarrow>
   listed_keys (str_split newline (ls_output es)) = map (\<lambda>e. first_word (le_key e)) es"
proof (induction es)
  case Nil
  then show ?case by (simp add: ls_output_def)
next
  case (Cons e es)
  then have "str_split newline (ls_output (e # es)) = ls_line e # str_split newline (ls_output es)"
    by (simp add: ls_output_def str_split_append_sep newline_not_in_line)
  moreover obtain rest
    where "str_fields (ls_line e) = le_date e # le_time e # le_size e # first_word (le_key e) # rest"
    using ls_line_fields [of e] Cons.prems by auto
  ultimately show ?case using Cons by simp
qed

section \<open>Properties\<close>

text \<open>C38: Listing reads back what the CLI prints: when the command succeeds with a line per object,
  \<open>ListRemotePath\<close> returns the objects' keys in order, each cut at its first white space, so
  it returns exactly the keys when no key has white space in it, and a listing with a key
  that has some is misread; one command is launched.\<close>

theorem ListRemotePath_lists:
  assumes "fst (e_combined E (list_cmd c bucket region) (w_ext w)) = (ls_output es, None)"
    and "list_all ls_entry_ok es"
  shows "fst (ListRemotePath E c bucket region w) = Ok (map (\<lambda>e. first_word (le_key e)) es)
    \<and> (fst (ListRemotePath E c bucket region w) = Ok (map le_key es)
         \<longleftrightarrow> list_all (\<lambda>e. is_word (le_key e)) es)
    \<and> w_cmds (snd (ListRemotePath E c bucket region w)) = w_cmds w @ [list_cmd c bucket region]"
proof -
  have r: "fst (ListRemotePath E c bucket region w) = Ok (map (\<lambda>e. first_word (le_key e)) es)"
    by (simp add: ListRemotePath_def case_prod_beta assms(1) listed_keys_output [OF assms(2)])
  moreover have "Ok (map (\<lambda>e. first_word (le_key e)) es) = Ok (map le_key es)
      \<longleftrightarrow> list_all (\<lambda>e. is_word (le_key e)) es"
    using assms(2) by (auto simp: first_word_id_iff is_word_def ls_entry_ok_def list_all_iff)
  moreover have "w_cmds (snd (ListRemotePath E c bucket region w)) = w_cmds w @ [list_cmd c bucket region]"
    by (simp add: ListRemotePath_def case_prod_beta split: option.split)
  ultimately show ?thesis by simp
qed

definition sample_listing :: "ls_entry list" where
  "sample_listing =
     [\<lparr>le_date = ''2024-09-30'', le_time = ''12:00:01'', le_padding = 8, le_size = ''42'', le_key = ''db/a''\<rparr>,
      \<lparr>le_date = ''2024-09-30'', le_time = ''12:00:02'', le_padding = 9, le_size = ''7'', le_key = ''db/b c''\<rparr>]"

theorem ListRemotePath_lists_witness:
  "\<exists>c. S3Test_New (still_env (FDir [])) (\<lambda>c x. (([], None), x)) [] ''id'' ''secret'' ''db'' [] = Ok c
     \<and> fst (ListRemotePath ((still_env (FDir []))\<lparr>e_combined := \<lambda>c x. ((ls_output sample_listing, None), x)\<rparr>)
           c ''backups'' [] (start_world ())) = Ok [''db/a'', ''db/b'']"
proof -
  obtain c :: "unit s3_test_client"
    where c: "S3Test_New (still_env (FDir [])) (\<lambda>c x. (([], None), x)) [] ''id'' ''secret'' ''db'' [] = Ok c"
    by (simp add: S3Test_New_def CACertPath_def certFiles_def)
  have "list_all ls_entry_ok sample_listing"
    by (simp add: sample_listing_def ls_entry_ok_def is_word_def is_space_def newline_def)
  with ListRemotePath_lists [of "(still_env (FDir []))\<lparr>e_combined := \<lambda>c x. ((ls_output sample_listing, None), x)\<rparr>"
      c "''backups''" "[]" "start_world ()" sample_listing] c
  show ?thesis by (auto simp: sample_listing_def first_word_def is_space_def)
qed

end
