(* ===== verification/Test_Fixtures.thy ===== *)
theory Test_Fixtures
  imports Uploaders
begin

text \<open>
  The small programs and helpers of the integration tests: the programs that trap a
  \<open>SIGTERM\<close> in place of the backup command, \<open>aws\<close>, \<open>scp\<close> and the like
  (\<open>InterruptibleSleep\<close> of \<open>src/process_manager_integration/fixtures/shared/lib.go\<close> and the
  five \<open>main\<close> functions that call it), the helpers of \<open>src/testhelpers\<close>, and
  \<open>src/config/real_file_system.go\<close>.
\<close>

section \<open>shared/lib.go\<close>

text \<open>
  The state of a fixture: what the file system is (\<open>'s\<close>), the lines it logged and the times
  it slept.  \<open>os.Create\<close> is an answer of the kernel, and so is which channel of the \<open>select\<close>
  is ready first, given the duration of the timer.
\<close>

record 's fixture =
  fx_files :: 's
  fx_log :: "string list"
  fx_slept :: "64 word list"

datatype wake = TimeIsUp | Sigterm

record 's fixture_env =
  fe_create :: "string \<Rightarrow> 's \<Rightarrow> gerror option \<times> 's"
  fe_wake :: "64 word \<Rightarrow> wake"

text \<open>How a fixture ends: with an exit code (\<open>log.Fatal\<close> gives 1) or a panic.\<close>

datatype fixture_end = FExit nat | FPanic string

definition fx_println :: "string \<Rightarrow> 's fixture \<Rightarrow> 's fixture" where
  "fx_println line s = s\<lparr>fx_log := fx_log s @ [line]\<rparr>"

text \<open>A helper returns \<open>Inl\<close> where it has ended the program.\<close>

definition fx_createFile :: "'s fixture_env \<Rightarrow> string \<Rightarrow> 's fixture \<Rightarrow> (fixture_end + unit) \<times> 's fixture" where
  "fx_createFile F name s =
     (case fe_create F name (fx_files s) of
        (Some err, x) \<Rightarrow>
          (Inl (FExit 1),
           fx_println err (fx_println (''couldn't create file '' @ go_quote name) (s\<lparr>fx_files := x\<rparr>)))
      | (None, x) \<Rightarrow> (Inr (), s\<lparr>fx_files := x\<rparr>))"

definition convertToInteger :: "string \<Rightarrow> 's fixture \<Rightarrow> (fixture_end + int) \<times> 's fixture" where
  "convertToInteger timeout s =
     (case strconv_Atoi timeout of
        Inl err \<Rightarrow>
          (Inl (FExit 1),
           fx_println err (fx_println (''couldn't convert arg '' @ go_quote timeout @ '' to an int'') s))
      | Inr n \<Rightarrow> (Inr n, s))"

text \<open>\<open>time.Millisecond * time.Duration(n)\<close>, in nanoseconds, wrapping at 64 bits.\<close>

definition milliseconds :: "int \<Rightarrow> 64 word" where
  "milliseconds n = 1000000 * word_of_int n"

definition InterruptibleSleep ::
  "'s fixture_env \<Rightarrow> string \<Rightarrow> string \<Rightarrow> string \<Rightarrow> string \<Rightarrow> 's fixture \<Rightarrow> fixture_end \<times> 's fixture" where
  "InterruptibleSleep F evidenceFile startedFile timeout sleepAfterSigterm s =
     (case fx_createFile F startedFile s of
        (Inl end1, s1) \<Rightarrow> (end1, s1)
      | (Inr _, s1) \<Rightarrow>
          (case convertToInteger timeout s1 of
             (Inl end2, s2) \<Rightarrow> (end2, s2)
           | (Inr sleepyTime, s2) \<Rightarrow>
               (case convertToInteger sleepAfterSigterm s2 of
                  (Inl end3, s3) \<Rightarrow> (end3, s3)
                | (Inr sleepySigTermTime, s3) \<Rightarrow>
                    (case fe_wake F (milliseconds sleepyTime) of
                       TimeIsUp \<Rightarrow> (FExit 1, fx_println ''Time is up - exiting'' s3)
                     | Sigterm \<Rightarrow>
                         (case fx_createFile F evidenceFile
                                 (fx_println ''Caught a SIGTERM - exiting''
                                    (s3\<lparr>fx_slept := fx_slept s3 @ [milliseconds sleepySigTermTime]\<rparr>)) of
                            (Inl end4, s4) \<Rightarrow> (end4, s4)
                          | (Inr _, s4) \<Rightarrow> (FExit 129, s4))))))"

section \<open>The main functions\<close>

text \<open>\<open>os.Args[i]\<close> and \<open>parts[i]\<close>: out of range they panic.\<close>

definition go_index :: "'a list \<Rightarrow> nat \<Rightarrow> 's fixture \<Rightarrow> ('a \<Rightarrow> fixture_end \<times> 's fixture) \<Rightarrow> fixture_end \<times> 's fixture" where
  "go_index xs i s rest = (if i < length xs then rest (xs ! i) else (FPanic ''index out of range'', s))"

text \<open>The usage text goes to the standard error with \<open>os.Args[0]\<close> in it.\<close>

definition usage :: "string list \<Rightarrow> string \<Rightarrow> 's fixture \<Rightarrow> fixture_end \<times> 's fixture" where
  "usage args text s =
     go_index args 0 s (\<lambda>prog. (FExit 1, fx_println (''Usage: '' @ prog @ '' '' @ text) s))"

definition backup_term_trapper :: "'s fixture_env \<Rightarrow> string list \<Rightarrow> 's fixture \<Rightarrow> fixture_end \<times> 's fixture" where
  "backup_term_trapper F args s =
     (if length args < 4 \<or> length args > 5
      then usage args ''<startFile> <evidenceFile> <sleepyTime> [sleepyTimeAfterSigterm]'' s
      else InterruptibleSleep F (args ! 1) (args ! 2) (args ! 3)
             (if length args = 5 then args ! 4 else ''0'') s)"

definition aws_term_trapper :: "'s fixture_env \<Rightarrow> string list \<Rightarrow> 's fixture \<Rightarrow> fixture_end \<times> 's fixture" where
  "aws_term_trapper F args s =
     (if length args < 5
      then usage args ''<don't care> <evidenceFile> <don't care> <startedFile> [...]'' s
      else InterruptibleSleep F (args ! 2) (args ! 4) ''20'' ''0'' s)"

definition azure_term_trapper :: "'s fixture_env \<Rightarrow> string list \<Rightarrow> 's fixture \<Rightarrow> fixture_end \<times> 's fixture" where
  "azure_term_trapper F args s =
     (if length args < 8
      then usage args ''blah blah <startFile> blah blah blah <evidenceFile>'' s
      else let colonSplit = str_split (CHR '':'') (args ! 7) in
        go_index colonSplit 0 s (\<lambda>evidenceFile.
        go_index colonSplit 1 s (\<lambda>startFile.
          InterruptibleSleep F evidenceFile startFile ''10000'' ''0''
            (fx_println (''startedFile '' @ startFile) s))))"

definition scp_term_trapper :: "'s fixture_env \<Rightarrow> string list \<Rightarrow> 's fixture \<Rightarrow> fixture_end \<times> 's fixture" where
  "scp_term_trapper F args s =
     (if length args \<noteq> 10
      then usage args ''<something>*8 <evidenceFile@something:startedFile>'' s
      else let combinedArg = args ! 9;
               atSplit = str_split (CHR ''@'') combinedArg;
               colonSplit = str_split (CHR '':'') combinedArg in
        go_index atSplit 0 s (\<lambda>evidenceFile.
        go_index colonSplit 1 s (\<lambda>startFile.
          InterruptibleSleep F evidenceFile startFile ''10000'' ''0'' s)))"

definition s3_term_trapper :: "'s fixture_env \<Rightarrow> string list \<Rightarrow> 's fixture \<Rightarrow> fixture_end \<times> 's fixture" where
  "s3_term_trapper F args s =
     (if length args < 6 then usage args ''blah*5 <evidenceFile> s3://<startFile>'' s
      else go_index args 6 s (\<lambda>arg.
        go_index (str_split_on ''://'' arg) 1 s (\<lambda>startFile.
          InterruptibleSleep F (args ! 5) startFile ''10000'' ''0''
            (fx_println (''startedFile '' @ startFile) s))))"

section \<open>Test helpers\<close>

text \<open>
  \<open>GetTempFilePath\<close>: a temporary file is made and removed; \<open>remove\<close> is the answer of the
  kernel to \<open>os.Remove\<close>.  A failed \<open>Expect\<close> panics.
\<close>

definition GetTempFilePath ::
  "'x env \<Rightarrow> (string \<Rightarrow> gerror option) \<Rightarrow> 'x world \<Rightarrow> string res \<times> 'x world" where
  "GetTempFilePath E remove w =
     (case writeTempFile E ''process_manager'' [] w of
        (Panic m, w1) \<Rightarrow> (Panic m, w1)
      | (Err e, w1) \<Rightarrow> (Panic e, w1)
      | (Ok name, w1) \<Rightarrow>
          (case remove name of
             Some e \<Rightarrow> (Panic e, w1)
           | None \<Rightarrow> (Ok name, os_Remove name w1)))"

text \<open>
  \<open>DeleteGCSBucket\<close> over the answers of the object iterator, call by call, before
  \<open>iterator.Done\<close>; the two deletions of the storage SDK are parameters.
\<close>

fun DeleteGCSBucket ::
  "(string \<Rightarrow> 'x \<Rightarrow> gerror option \<times> 'x) \<Rightarrow> ('x \<Rightarrow> gerror option \<times> 'x) \<Rightarrow> (gerror + string) list \<Rightarrow> 'x world
   \<Rightarrow> unit res \<times> 'x world" where
  "DeleteGCSBucket delObject delBucket [] w =
     (case on_ext delBucket w of (Some e, w1) \<Rightarrow> (Panic e, w1) | (None, w1) \<Rightarrow> (Ok (), w1))"
| "DeleteGCSBucket delObject delBucket (Inl e # rest) w = (Panic e, w)"
| "DeleteGCSBucket delObject delBucket (Inr name # rest) w =
     (case on_ext (delObject name) w of
        (Some e, w1) \<Rightarrow> (Panic e, w1)
      | (None, w1) \<Rightarrow> DeleteGCSBucket delObject delBucket rest w1)"

section \<open>config/real\_file\_system.go\<close>

definition RealFileSystem_Stat :: "'x env \<Rightarrow> string \<Rightarrow> gerror option" where
  "RealFileSystem_Stat E name = e_stat E name"

section \<open>What the tests rely on\<close>

text \<open>A file system in memory, in which every file can be created.\<close>

definition mem_create :: "string \<Rightarrow> string set \<Rightarrow> gerror option \<times> string set" where
  "mem_create name files = (None, insert name files)"

lemma InterruptibleSleep_ends:
  "fst (InterruptibleSleep F ev st t a s) = FExit 1 \<or> fst (InterruptibleSleep F ev st t a s) = FExit 129"
  by (simp add: InterruptibleSleep_def fx_createFile_def convertToInteger_def case_prod_beta
      split: option.split sum.split wake.split)

text \<open>
  The evidence of a fixture: where files can be created, the started file is always there
  afterwards, and the evidence file exactly when the program ended with code 129, which it
  does only on a \<open>SIGTERM\<close>.
\<close>

lemma InterruptibleSleep_evidence:
  assumes "fe_create F = mem_create" and "ev \<noteq> st" and "ev \<notin> fx_files s"
    and "InterruptibleSleep F ev st t a s = (r, s')"
  shows "st \<in> fx_files s'" "ev \<in> fx_files s' \<longleftrightarrow> r = FExit 129"
    "r = FExit 129 \<Longrightarrow> \<exists>n. strconv_Atoi t = Inr n \<and> fe_wake F (milliseconds n) = Sigterm"
  using assms
  by (auto simp: InterruptibleSleep_def fx_createFile_def convertToInteger_def mem_create_def fx_println_def
      split: sum.splits wake.splits)

text \<open>
  With a timer of a second and a \<open>SIGTERM\<close> before it the backup fixture ends with code 129
  after both files were made; without enough arguments it makes none.
\<close>

lemma backup_term_trapper_runs:
  "backup_term_trapper \<lparr>fe_create = mem_create, fe_wake = \<lambda>d. if d = 1000000000 then Sigterm else TimeIsUp\<rparr>
     [''trap'', ''evidence'', ''started'', ''1000''] \<lparr>fx_files = {}, fx_log = [], fx_slept = []\<rparr>
   = (FExit 129, \<lparr>fx_files = {''evidence'', ''started''}, fx_log = [''Caught a SIGTERM - exiting''], fx_slept = [0]\<rparr>)"
  "length args < 4 \<Longrightarrow> fx_files (snd (backup_term_trapper F args s)) = fx_files s"
proof -
  have "strconv_Atoi ''1000'' = Inr 1000" "strconv_Atoi ''0'' = Inr 0"
    by (simp_all add: strconv_Atoi_def dec_val_def digit_val_def is_digits_def)
  then show "backup_term_trapper \<lparr>fe_create = mem_create, fe_wake = \<lambda>d. if d = 1000000000 then Sigterm else TimeIsUp\<rparr>
     [''trap'', ''evidence'', ''started'', ''1000''] \<lparr>fx_files = {}, fx_log = [], fx_slept = []\<rparr>
   = (FExit 129, \<lparr>fx_files = {''evidence'', ''started''}, fx_log = [''Caught a SIGTERM - exiting''], fx_slept = [0]\<rparr>)"
    by (simp add: backup_term_trapper_def InterruptibleSleep_def fx_createFile_def convertToInteger_def
        mem_create_def milliseconds_def fx_println_def)
qed (simp add: backup_term_trapper_def usage_def go_index_def fx_println_def)

text \<open>The guard of the S3 fixture is one too small: with exactly six arguments it panics.\<close>

lemma s3_term_trapper_six_panics:
  "length args = 6 \<Longrightarrow> s3_term_trapper F args s = (FPanic ''index out of range'', s)"
  by (simp add: s3_term_trapper_def go_index_def)

text \<open>The path of a temporary file is free afterwards, and no other file has changed.\<close>

lemma GetTempFilePath_free:
  assumes "GetTempFilePath E remove w = (Ok name, w')"
  shows "w_tmp w' = (w_tmp w)(name := None)"
  using assms
  by (auto simp: GetTempFilePath_def writeTempFile_def os_Remove_def split: sum.splits option.splits)

text \<open>
  When the deletion of a bucket returns, the iterator reported no error and every object it
  named is gone, for a storage whose deletions do what they document.
\<close>

lemma DeleteGCSBucket_deletes:
  assumes "\<And>name x x'. delObject name x = (None, x') \<Longrightarrow> objs x' = objs x - {name}"
    and "\<And>x x'. delBucket x = (None, x') \<Longrightarrow> objs x' = objs x"
    and "DeleteGCSBucket delObject delBucket answers w = (Ok u, w')"
  shows "\<exists>names. answers = map Inr names \<and> objs (w_ext w') = objs (w_ext w) - set names"
  using assms(3)
proof (induction answers arbitrary: w)
  case Nil
  then show ?case
    using assms(2) by (auto simp: on_ext_def split: prod.splits option.splits)
next
  case (Cons a rest)
  then obtain name x where a: "a = Inr name" and d: "delObject name (w_ext w) = (None, x)"
    and r: "DeleteGCSBucket delObject delBucket rest (w\<lparr>w_ext := x\<rparr>) = (Ok u, w')"
    by (cases a) (auto simp: on_ext_def split: prod.splits option.splits)
  from Cons.IH [OF r] obtain names
    where "rest = map Inr names" "objs (w_ext w') = objs x - set names" by auto
  with a assms(1) [OF d] show ?case by (intro exI [of _ "name # names"]) auto
qed

end
