(* ===== verification/Spec2Isabelle.thy ===== *)
theory Spec2Isabelle
  imports Terminate_Progress Shutdown Executor_Threads Service_Main Storing Test_Doubles
    S3_Test_Client Test_Fixtures
begin

text \<open>
  Service backup.  The repository holds two Go programs that back up a folder of a service
  instance: the service (\<open>src/main.go\<close>), which runs backups on a cron schedule until a
  \<open>SIGTERM\<close>, and the manual backup (\<open>src/cmd/manual-backup/main.go\<close>), which runs one.  Both
  parse a configuration, make one uploader per destination (S3, Azure, Google Cloud Storage,
  SCP) and an executor.  A run of the executor identifies the service instance, starts the
  backup command, uploads the source folder to every destination and starts the cleanup
  command; backup, cleanup and copy commands are children of a process manager, which a
  termination signal uses to stop them.

  \<^bold>\<open>The model.\<close>  Go functions are HOL functions on an explicit state; every definition is
  executable except the step relations.  A function that returns an error returns \<open>Ok\<close>,
  \<open>Err\<close> or, where the Go code panics, \<open>Panic\<close> (\<open>res\<close> of \<open>Backup_Prelude\<close>).  What the program
  only reads is the record \<open>env\<close> (the file system, the clock, the answers of commands); what it
  changes is the record \<open>world\<close> (the log, the commands launched, the temporary files, the number
  of clock readings, and the outside state \<open>w_ext\<close> of an arbitrary type, on which commands and
  cloud services act).  The folder tree is the one at the time of the run: what the backup
  command writes is what \<open>env\<close> shows.  Sizes are \<open>64 word\<close> read as \<open>int64\<close>.

  \<^item> \<open>Backup_Prelude\<close>: results, loops that stop at an error (\<open>each_until\<close>), reachability, and the
    locales \<open>inductive_invariant\<close> and \<open>stutter_refinement\<close> that the transition systems interpret.
  \<^item> \<open>Go_Text\<close>, \<open>Go_Path\<close>, \<open>Go_Files\<close>, \<open>Base64\<close>: what the program uses of \<open>strings\<close>, \<open>strconv\<close>,
    \<open>fmt\<close>, \<open>path/filepath\<close>, \<open>os\<close>, \<open>io\<close> and \<open>encoding/base64\<close>.
  \<^item> \<open>Backup_World\<close>: \<open>env\<close>, \<open>world\<close>, the logger, the commands, and the locale \<open>uploader_contract\<close>.
  \<^item> \<open>Process_Manager\<close> (\<open>src/process/manager.go\<close>): \<open>Start\<close> and \<open>Terminate\<close> as interleaved steps on
    the mutex, the channel, the wait group and the children.  Shown: no child survives
    \<open>Terminate\<close>, none starts after the shutdown began, the wait group is exact, the meaning
    of each result of \<open>Start\<close>, and the mutex that the shutdown branch leaves locked.
  \<^item> \<open>Terminate_Progress\<close>: a weight of the calls that every step lowers, so \<open>Terminate\<close> waits for a
    bounded number of steps.
  \<^item> \<open>Config\<close> (\<open>src/config/parse.go\<close>): the configuration and \<open>Parse\<close>; the YAML decoder is an argument.
    What the decoded configuration means for the remote paths is shown in \<open>Uploaders\<close>.
  \<^item> \<open>Remote_Path\<close> (\<open>src/upload/remote_path.go\<close>): the dated remote path, injective in the day and
    sorted by it.
  \<^item> \<open>Tree_Upload\<close>: the walk that the S3 and Azure clients share, what it sends, and what of it
    remains when two files are sent to one key.
  \<^item> \<open>S3_Client\<close>, \<open>Azure_Client\<close>, \<open>GCS_Client\<close>, \<open>SCP_Client\<close> (\<open>src/s3/s3.go\<close>, \<open>src/azure/azure.go\<close>,
    \<open>src/gcs/gcs.go\<close>, \<open>src/scp/scp.go\<close>): all functions of the clients.  Shown: success means
    that the store holds exactly the files that the walk of the folder lists, whole, under the
    documented names (S3, Azure, and GCS when \<open>Close\<close> does not fail; the conditions on the
    folder's path are below); the commands of an SCP upload, their strict
    host key checks and the temporary files they leave; and the behaviour on every kind of
    failure, including those the code does not report.
  \<^item> \<open>Uploaders\<close> (\<open>src/upload\<close>): the CA certificate locator, the factory, the options,
    \<open>Initialize\<close> and the multi-uploader, equivalent to a run of all uploaders in order; the
    remote paths of the clients that a parsed configuration yields.
  \<^item> \<open>Storing\<close>: what one uploader adds to one of the stores (one per S3 endpoint, one per Azure
    account and endpoint, and Google Cloud Storage) and leaves alone in the others (the locale
    \<open>storing_uploader\<close>, interpreted for every client and store), and from it what a run of all
    of them adds.
  \<^item> \<open>Executor\<close> (\<open>src/executor\<close>): one run, the order of its commands, what a failed step stops, the
    flag, the directory size, and the locale \<open>executor_contract\<close> (interpreted for the dummy
    executor, the executor and the choice between them).
  \<^item> \<open>Executor_Threads\<close>: concurrent runs, step by step; mutual exclusion, and progress of every
    call whose own commands and uploads end (which calls these are is the parameter \<open>ends\<close>).
  \<^item> \<open>Scheduler\<close> (\<open>src/scheduler/scheduler.go\<close>): the job with its alert, and the schedule.
  \<^item> \<open>Service_Main\<close>: both \<open>main\<close> functions without their signal handlers.
  \<^item> \<open>Shutdown\<close>: the running programs with their signal handlers, refining \<open>Process_Manager\<close>; after
    the exit no child is alive, and the exit can always be reached.
  \<^item> \<open>Test_Doubles\<close> (\<open>src/process/fakes\<close>, \<open>src/upload/fakes\<close>): the fake process manager and the fake
    uploader factory, with the locale \<open>fake_double\<close> for the laws of a method; what they replay
    and record.
  \<^item> \<open>S3_Test_Client\<close> (\<open>src/s3testclient\<close>): the client of the integration tests; what it reads from
    the listing that the CLI prints.
  \<^item> \<open>Test_Fixtures\<close> (the fixture programs, \<open>src/testhelpers\<close>, \<open>src/config/real_file_system.go\<close>): the
    programs that trap a \<open>SIGTERM\<close>, and when they leave evidence of it.
  \<^item> This theory: the manual backup from its configuration to the stores of all destinations.

  \<^bold>\<open>Hypotheses on other code.\<close>  The cloud SDKs, the YAML decoder, cron, the alerts client and
  the identifiers of \<open>uuid\<close> are arguments.  The theorems on stored objects assume what the SDKs
  document: a put that reports no error has stored the object and nothing else changed
  (\<open>s3_stores\<close>, \<open>s3_keeps\<close> and their like; for several destinations \<open>cloud_services\<close>: a client
  acts on the store of its own endpoint or account only, and commands act on none), and are
  instantiated at stores in memory.  That the writers of Google Cloud Storage close without
  an error is a hypothesis of its own (\<open>gcs_closes\<close>), for the code ignores that error.  About
  the folder the theorems assume that names of a listing are proper and different, that its
  path is absolute and clean and that it does not occur again inside the paths of its files;
  \<open>S3_UploadDir_collision\<close> shows for any folder what happens without this last hypothesis.
  A directory that cannot be listed counts as empty in them (\<open>S3_UploadDir_ignores_unlisted\<close>).

  \<^bold>\<open>Termination.\<close>  There is no fuel.  The loops over file contents (\<open>put_chunks\<close>, \<open>io_Copy\<close>) end
  because every read of the open file advances the offset; the loops over text have the length
  as measure, and the other recursions are structural.  Waiting is part of the step
  relations, where termination and progress are theorems (\<open>terminate_terminates\<close> and
  \<open>service_shutdown_completes\<close>, where children exit, and \<open>every_call_can_return\<close>, where the
  call's own body ends).  That waiting can last for ever is shown too
  (\<open>shutdown_branch_leaks_lock\<close>).

  \<^bold>\<open>Not modelled.\<close>  Delivery of signals by the operating system, log output formats, contexts and
  timeouts of the SDK calls, non-ASCII text, and the test suites themselves.  The mutexes of
  the test doubles are held for the length of one function and are left out, as is the pause
  before the second deletion of a bucket.
\<close>

section \<open>From the configuration to the bucket\<close>

lemma identifyService_keeps:
  assumes "commands_keep E pm objs"
  shows "objs (w_ext (snd (identifyService E e lg w))) = objs (w_ext w)"
    "w_now (snd (identifyService E e lg w)) = w_now w"
  using assms
  by (simp_all add: commands_keep_def identifyService_def case_prod_beta Let_def split: option.split)

lemma performBackup_keeps:
  assumes "commands_keep E (ex_processManager e) objs"
  shows "objs (w_ext (snd (performBackup e lg w))) = objs (w_ext w)"
    "w_now (snd (performBackup e lg w)) = w_now w"
  using assms
  by (simp_all add: commands_keep_def performBackup_def case_prod_beta Let_def split: option.split)

lemma performCleanup_keeps:
  assumes "commands_keep E (ex_processManager e) objs"
  shows "objs (w_ext (snd (performCleanup e lg w))) = objs (w_ext w)"
  using assms
  by (simp_all add: commands_keep_def performCleanup_def case_prod_beta Let_def split: option.split)

text \<open>
  A successful run of an executor is, for the outside state, the upload at the second
  reading of the clock.
\<close>

lemma Execute_is_upload:
  assumes "Execute E g e w = (Done None, e', w')" and keep: "commands_keep E (ex_processManager e) objs"
  shows "\<exists>lg v v'. upl_Upload (ex_uploader e) (ex_sourceFolder e) lg (ex_processManager e) v = (Ok (), v')
    \<and> w_now v = Suc (w_now w) \<and> objs (w_ext v) = objs (w_ext w) \<and> objs (w_ext w') = objs (w_ext v')"
proof -
  let ?e = "e\<lparr>ex_backupInProgress := True\<rparr>"
  have k: "commands_keep E (ex_processManager ?e) objs" using keep by simp
  obtain i w1 lg w2 where i: "identifyService E e (session_logger e g) w = (i, w1)"
    and w2: "w2 = snd (performBackup ?e lg w1)" and up: "fst (uploadBackup E ?e lg w2) = Ok ()"
    and w': "w' = snd (performCleanup ?e lg (snd (uploadBackup E ?e lg w2)))"
    using Execute_uploaded [OF assms(1)] by blast
  let ?v = "snd (time_Now E (log_info lg ''Upload backup started'' [] w2))"
  let ?up = "upl_Upload (ex_uploader ?e) (ex_sourceFolder ?e) lg (ex_processManager ?e) ?v"
  have "objs (w_ext w2) = objs (w_ext w)" "w_now w2 = w_now w"
    using identifyService_keeps [OF keep, of e "session_logger e g" w] performBackup_keeps [OF k, of lg w1]
    by (simp_all add: i w2)
  moreover have "objs (w_ext w') = objs (w_ext (snd ?up))"
    by (simp add: w' performCleanup_keeps [OF k] uploadBackup_Ok(2) [OF up])
  moreover have "?up = (Ok (), snd ?up)" using uploadBackup_Ok(1) [OF up] by (metis prod.collapse)
  ultimately show ?thesis by (intro exI [of _ lg] exI [of _ ?v] exI [of _ "snd ?up"]) simp
qed

lemma Manual_main_executed:
  assumes "Manual_main E S unmarshal (prog # path # rest) pm guid w = (Exited 0, w')"
    and "Parse E unmarshal path root_logger w = ((conf, None), w)" and "\<not> NoDestinations conf"
  shows "\<exists>ca e e'. Initialize E S conf root_logger [] w = (Ok (configured E S conf ca), w)
    \<and> length (configured E S conf ca) = length (bc_Destinations conf)
    \<and> Execute E guid e w = (Done None, e', w') \<and> ex_processManager e = pm
    \<and> ex_uploader e = multi_uploader (configured E S conf ca) \<and> ex_sourceFolder e = bc_SourceFolder conf"
proof -
  obtain ca where init: "Initialize E S conf root_logger [] w = (Ok (configured E S conf ca), w)"
    and len: "length (configured E S conf ca) = length (bc_Destinations conf)"
    using assms(1,2) Initialize_configured [of E S conf root_logger w]
    by (fastforce simp: Manual_main_def setup_backup_def split: prod.splits res.splits)
  let ?e = "NewExecutor E (multi_uploader (configured E S conf ca)) (bc_SourceFolder conf) (bc_SourceExecutable conf)
     (bc_CleanupExecutable conf) (bc_ServiceIdentifierExecutable conf) (bc_ExitIfInProgress conf) root_logger pm []"
  have "setup_backup E S unmarshal (prog # path # rest) root_logger pm w = (Started (conf, BackupEx ?e), w)"
    using assms(3) by (simp add: setup_backup_def assms(2) init choose_executor_def)
  then obtain e' where "Execute E guid ?e w = (Done None, e', w')"
    using assms(1) by (auto simp: Manual_main_def split: prod.splits exec_result.splits option.splits)
  with init len show ?thesis
    by (intro exI [of _ ca] exI [of _ ?e] exI [of _ e']) (simp add: NewExecutor_def)
qed

section \<open>Every destination\<close>

lemma Initialize_known:
  assumes "Initialize E S conf lg [] w = (Ok us, w')"
  shows "list_all (\<lambda>d. known_type (dest_Type d)) (bc_Destinations conf)"
proof (rule ccontr)
  assume "\<not> list_all (\<lambda>d. known_type (dest_Type d)) (bc_Destinations conf)"
  then obtain e where "fst (init_uploaders E S (default_opts E conf) lg (bc_Destinations conf) w) = Err e"
    using init_uploaders_Err [OF _ CACertPath_no_panic] by blast
  with assms show False by (simp add: Initialize_def)
qed

lemma configured_stores:
  assumes "list_all (\<lambda>d. known_type (dest_Type d)) (bc_Destinations conf)"
    and "list_all named_bucket (bc_Destinations conf)"
  shows "list_all2 (\<lambda>u d. storing_uploader (upl_Upload u) (bc_SourceFolder conf) (s3o ep) (s3_part E conf ep d)
      (cloud_run E S conf s3o blobs blocks gco)) (configured E S conf ca) (bc_Destinations conf)"
    "list_all2 (\<lambda>u d. storing_uploader (upl_Upload u) (bc_SourceFolder conf) (blobs ac) (azure_part E conf ac d)
      (cloud_run E S conf s3o blobs blocks gco)) (configured E S conf ca) (bc_Destinations conf)"
    "gcs_closes S \<Longrightarrow> list_all2 (\<lambda>u d. storing_uploader (upl_Upload u) (bc_SourceFolder conf) gco (gcs_part E conf d)
      (cloud_run E S conf s3o blobs blocks gco)) (configured E S conf ca) (bc_Destinations conf)"
  unfolding configured_def
  by (rule configured_all2 [OF assms(1)],
      use assms(2) in \<open>auto simp: list_all_iff intro: uploader_for_s3 uploader_for_azure uploader_for_gcs\<close>)+

text \<open>C6: The manual backup end to end, for any number of destinations of any type: when it exits with
  code 0, every store of objects (one per S3 endpoint, one per Azure account, and the one of
  Google Cloud Storage) holds afterwards what it held before, extended in the order of the
  configuration by exactly the files that the walk of the source folder lists, whole, once
  per destination of that store and under the names that the destination's settings and the
  date at the start of that upload give (for Google Cloud Storage the dates of the files);
  the uploads start one after the other, after the backup command.  For Google Cloud Storage
  this holds if closing an object's writer does not fail (\<open>gcs_closes\<close>; otherwise see
  \<open>GCS_Upload_undetected_failure\<close>).  The hypotheses: a call of a service does what it documents
  to the store of its own client and nothing to the others, commands leave the stores alone,
  S3 buckets have proper names, and the source folder is a directory with an absolute clean
  path that does not occur again inside the paths of its files.  A directory that cannot be
  listed counts as empty for S3 and Azure.\<close>

theorem manual_backup_stored_everywhere:
  assumes "Manual_main E S unmarshal (prog # path # rest) pm guid w = (Exited 0, w')"
    and "Parse E unmarshal path root_logger w = ((conf, None), w)" and "\<not> NoDestinations conf"
    and "list_all named_bucket (bc_Destinations conf)" and "cloud_services E S s3o blobs blocks gco pm"
    and "good_folder E (bc_SourceFolder conf)"
  shows "\<exists>ts. length ts = length (bc_Destinations conf) \<and> sorted (Suc (w_now w) # ts)
    \<and> (\<forall>ep. s3o ep (w_ext w') = stored_by (s3_part E conf ep) (bc_Destinations conf) ts (s3o ep (w_ext w)))
    \<and> (\<forall>ac. blobs ac (w_ext w') = stored_by (azure_part E conf ac) (bc_Destinations conf) ts (blobs ac (w_ext w)))
    \<and> (gcs_closes S \<longrightarrow> gco (w_ext w') = stored_by (gcs_part E conf) (bc_Destinations conf) ts (gco (w_ext w)))"
proof -
  obtain ca e e' where init: "Initialize E S conf root_logger [] w = (Ok (configured E S conf ca), w)"
    and len: "length (configured E S conf ca) = length (bc_Destinations conf)"
    and run: "Execute E guid e w = (Done None, e', w')" and pm: "ex_processManager e = pm"
    and u: "ex_uploader e = multi_uploader (configured E S conf ca)" and f: "ex_sourceFolder e = bc_SourceFolder conf"
    using Manual_main_executed [OF assms(1-3)] by blast
  let ?us = "configured E S conf ca"
  let ?stores = "\<lambda>x. (\<lambda>ep. s3o ep x, \<lambda>ac. blobs ac x, gco x)"
  have "commands_keep E (ex_processManager e) ?stores"
    using assms(5) unfolding pm by (auto simp: cloud_services_def commands_keep_def)
  from Execute_is_upload [OF run this] obtain lg v v' where
    up: "upl_Upload (multi_uploader ?us) (bc_SourceFolder conf) lg pm v = (Ok (), v')"
    and v: "w_now v = Suc (w_now w)" "?stores (w_ext v) = ?stores (w_ext w)" "?stores (w_ext w') = ?stores (w_ext v')"
    unfolding pm u f by blast
  from v have keep: "s3o ep (w_ext v) = s3o ep (w_ext w)" "s3o ep (w_ext w') = s3o ep (w_ext v')"
    "blobs ac (w_ext v) = blobs ac (w_ext w)" "blobs ac (w_ext w') = blobs ac (w_ext v')"
    "gco (w_ext v) = gco (w_ext w)" "gco (w_ext w') = gco (w_ext v')" for ep ac
    by (simp_all only: prod.inject fun_eq_iff simp_thms)
  from up have "Multi_Upload ?us (bc_SourceFolder conf) lg pm v = (Ok (), v')" by (simp add: multi_uploader_def)
  from Multi_Upload_run_all [OF this] have v': "v' = snd (run_all ?us (bc_SourceFolder conf) lg pm v)"
    and ok: "list_all (\<lambda>r. r = Ok ()) (fst (run_all ?us (bc_SourceFolder conf) lg pm v))" by simp_all
  let ?ts = "start_times ?us (bc_SourceFolder conf) lg pm v"
  have law: "cloud_run E S conf s3o blobs blocks gco pm" by (simp add: cloud_run_def assms(5,6))
  note stored = run_all_stored [where L = "cloud_run E S conf s3o blobs blocks gco", OF _ law ok, folded v']
  note st = configured_stores [OF Initialize_known [OF init] assms(4), where E = E and S = S and ca = ca and s3o = s3o and blobs = blobs
      and blocks = blocks and gco = gco]
  have "length ?ts = length (bc_Destinations conf) \<and> sorted (Suc (w_now w) # ?ts)"
    using start_times_sorted [OF configured_ok, of E S conf ca "bc_SourceFolder conf" lg pm v] v(1) len by simp
  with stored [OF st(1)] stored [OF st(2)] stored [OF st(3)] show ?thesis
    by (intro exI [of _ ?ts]) (simp add: keep)
qed

text \<open>Two S3 destinations with the same bucket name at different endpoints, an Azure and a GCS one.\<close>

definition cloud_config :: backup_config where
  "cloud_config = sample_config\<lparr>bc_Destinations :=
     [sample_dest,
      \<lparr>dest_Type = ''s3'', dest_Name = ''onsite'', dest_Config =
         [''bucket_name'' \<mapsto> IString ''backups'', ''endpoint_url'' \<mapsto> IString ''http://store'']\<rparr>,
      \<lparr>dest_Type = ''azure'', dest_Name = ''blobs'', dest_Config =
         [''storage_account'' \<mapsto> IString ''acct'', ''container'' \<mapsto> IString ''box'', ''path'' \<mapsto> IString ''db'']\<rparr>,
      \<lparr>dest_Type = ''gcs'', dest_Name = [], dest_Config = [''bucket_name'' \<mapsto> IString ''box'']\<rparr>]\<rparr>"

lemma cloud_config_simps:
  "bc_SourceFolder cloud_config = ''/var/db''" "bc_DeploymentName cloud_config = ''prod''"
  "bc_AddDeploymentName cloud_config" "\<not> NoDestinations cloud_config"
  "list_all named_bucket (bc_Destinations cloud_config)"
  by (simp_all add: cloud_config_def sample_config_def sample_dest_def NoDestinations_def named_bucket_def
      toString_def valid_name_def)

lemma cloud_Manual_main:
  "fst (Manual_main (still_env sample_tree) mem_cloud (\<lambda>yaml. Inr cloud_config) [''prog'', ''/etc/backup.yml'']
     (\<lambda>c x. (([], None), x)) ''guid'' w) = Exited 0"
proof (rule sample_Manual_main_any)
  show "Initialize (still_env sample_tree) mem_cloud cloud_config lg [] v
      = (Ok (configured (still_env sample_tree) mem_cloud cloud_config (hd certFiles)), v)" for lg v
    by (simp add: Initialize_def configured_def cloud_config_def sample_config_def sample_dest_def
        List.map_filter_def uploader_for_def CACertPath_def certFiles_def default_factory_def)
  fix u lg v
  assume "u \<in> set (configured (still_env sample_tree) mem_cloud cloud_config (hd certFiles))"
  then show "fst (upl_Upload u ''/var/db'' lg (\<lambda>c x. (([], None), x)) v) = Ok ()"
    by (auto simp: configured_def cloud_config_def sample_config_def sample_dest_def List.map_filter_def
        uploader_for_def s3_uploader_def azure_uploader_def gcs_uploader_def Azure_Upload_def case_prod_beta
        S3_Upload_Ok Azure_uploadDir_Ok GCS_Upload_Ok mem_cloud_accepts sample_tree_ok)
qed (simp_all add: cloud_config_simps)

definition empty_cloud :: cloud where
  "empty_cloud = (\<lambda>ep. Map.empty, \<lambda>ac. (Map.empty, \<lambda>b. Map.empty), Map.empty)"

theorem manual_backup_stored_everywhere_witness:
  "let x = w_ext (snd (Manual_main (still_env sample_tree) mem_cloud (\<lambda>yaml. Inr cloud_config)
        [''prog'', ''/etc/backup.yml''] (\<lambda>c x. (([], None), x)) ''guid'' (start_world empty_cloud))) in
   cloud_s3 None x = [(''backups'', ''db/prod/2024/09/30/a'') \<mapsto> ''/var/db/a'',
            (''backups'', ''db/prod/2024/09/30/logs/b'') \<mapsto> ''/var/db/logs/b'']
   \<and> cloud_s3 (Some ''http://store'') x = [(''backups'', ''prod/2024/09/30/a'') \<mapsto> ''/var/db/a'',
            (''backups'', ''prod/2024/09/30/logs/b'') \<mapsto> ''/var/db/logs/b'']
   \<and> cloud_blobs (''acct'', ''core.windows.net'') x = [(''box'', ''db/prod/2024/09/30/a'') \<mapsto> ''/var/db/a'',
            (''box'', ''db/prod/2024/09/30/logs/b'') \<mapsto> ''/var/db/logs/b'']
   \<and> cloud_gcs x = [(''box'', ''prod/2024/09/30/a'') \<mapsto> ''/var/db/a'',
            (''box'', ''prod/2024/09/30/logs/b'') \<mapsto> ''/var/db/logs/b'']"
proof -
  let ?w = "start_world empty_cloud"
  let ?m = "Manual_main (still_env sample_tree) mem_cloud (\<lambda>yaml. Inr cloud_config) [''prog'', ''/etc/backup.yml'']
     (\<lambda>c x. (([], None), x)) ''guid'' ?w"
  let ?x = "w_ext (snd ?m)"
  let ?E = "still_env sample_tree :: cloud env"
  have 1: "?m = (Exited 0, snd ?m)" by (metis prod.collapse cloud_Manual_main)
  have 2: "Parse ?E (\<lambda>yaml. Inr cloud_config) ''/etc/backup.yml'' root_logger ?w = ((cloud_config, None), ?w)"
    by (rule sample_Parse) (simp add: cloud_config_simps)
  have good: "good_folder ?E (bc_SourceFolder cloud_config)"
    by (simp add: good_folder_def sample_tree_ok cloud_config_simps)
  have e: "cloud_s3 ep empty_cloud = Map.empty" "cloud_blobs ac empty_cloud = Map.empty" "cloud_gcs empty_cloud = Map.empty"
    for ep ac by (simp_all add: cloud_stores empty_cloud_def)
  obtain ts where len: "length ts = length (bc_Destinations cloud_config)"
    and s: "\<And>ep. cloud_s3 ep ?x = stored_by (s3_part ?E cloud_config ep) (bc_Destinations cloud_config) ts Map.empty"
    and a: "\<And>ac. cloud_blobs ac ?x = stored_by (azure_part ?E cloud_config ac) (bc_Destinations cloud_config) ts Map.empty"
    and g: "cloud_gcs ?x = stored_by (gcs_part ?E cloud_config) (bc_Destinations cloud_config) ts Map.empty"
    using manual_backup_stored_everywhere [OF 1 2 cloud_config_simps(4,5) mem_cloud_services good]
    by (auto simp: e mem_cloud_gcs)
  from len obtain t1 t2 t3 t4 where ts: "ts = [t1, t2, t3, t4]"
    by (auto simp: cloud_config_def length_Suc_conv numeral_eq_Suc)
  note config = stored_by_def cloud_config_def sample_config_def sample_dest_def toString_def sample_tree_ok
    path_eval file_content_def path_file_def entry_path_def s3_endpoint_def azure_account_def az_DefaultBaseURL_def
  note date = remotePathOn_def pathPrefix_def datePath_def int_dec_def pad0_def nat_dec.simps digit_char_eval
  have "cloud_s3 None ?x = [(''backups'', ''db/prod/2024/09/30/a'') \<mapsto> ''/var/db/a'',
      (''backups'', ''db/prod/2024/09/30/logs/b'') \<mapsto> ''/var/db/logs/b'']"
    unfolding s ts by (simp add: config s3_part_def s3_remote_def sample_remote_path s3_objects_def fun_upd_twist)
  moreover have "cloud_s3 (Some ''http://store'') ?x = [(''backups'', ''prod/2024/09/30/a'') \<mapsto> ''/var/db/a'',
      (''backups'', ''prod/2024/09/30/logs/b'') \<mapsto> ''/var/db/logs/b'']"
    unfolding s ts by (simp add: config s3_part_def s3_remote_def s3_objects_def fun_upd_twist date)
  moreover have "cloud_blobs (''acct'', ''core.windows.net'') ?x = [(''box'', ''db/prod/2024/09/30/a'') \<mapsto> ''/var/db/a'',
      (''box'', ''db/prod/2024/09/30/logs/b'') \<mapsto> ''/var/db/logs/b'']"
    unfolding a ts by (simp add: config azure_part_def azure_remote_def azure_objects_def fun_upd_twist date)
  moreover have "cloud_gcs ?x = [(''box'', ''prod/2024/09/30/a'') \<mapsto> ''/var/db/a'',
      (''box'', ''prod/2024/09/30/logs/b'') \<mapsto> ''/var/db/logs/b'']"
    unfolding g ts by (simp add: config gcs_part_def gcs_objects_def gcs_name_def fun_upd_twist date upt_rec)
  ultimately show ?thesis by (simp only: Let_def simp_thms)
qed

end
